theory Spec2Isabelle
  imports Complex_Main
begin

section \<open>Tensors\<close>

text \<open>
  The program works on dense float tensors.  The embedding is over exact arithmetic:
  an entry is a \<^typ>\<open>real\<close>, a 1-D tensor is a list, a 2-D tensor of shape
  \<open>[r, c]\<close> is the list of its \<open>r\<close> rows, each of length \<open>c\<close>.  Where the
  source builds or updates a tensor through index ranges (\<open>W[:, i:]\<close>,
  \<open>H[diag, diag]\<close>), the model tabulates the entries with \<open>mk_mat\<close>.
\<close>

type_synonym vec = "real list"
type_synonym mat = "real list list"

definition mk_vec :: "nat \<Rightarrow> (nat \<Rightarrow> real) \<Rightarrow> vec" where
  "mk_vec n f = map f [0..<n]"

definition mk_mat :: "nat \<Rightarrow> nat \<Rightarrow> (nat \<Rightarrow> nat \<Rightarrow> real) \<Rightarrow> mat" where
  "mk_mat r c f = map (\<lambda>i. map (\<lambda>j. f i j) [0..<c]) [0..<r]"

definition zeros :: "nat \<Rightarrow> nat \<Rightarrow> mat" where
  \<comment> \<open>\<open>torch.zeros((r, c))\<close>\<close>
  "zeros r c = mk_mat r c (\<lambda>i j. 0)"

definition smul :: "real \<Rightarrow> mat \<Rightarrow> mat" where
  \<comment> \<open>a scalar times a 2-D tensor\<close>
  "smul a M = map (map (\<lambda>x. a * x)) M"

definition transpose_t :: "nat \<Rightarrow> nat \<Rightarrow> mat \<Rightarrow> mat" where
  \<comment> \<open>\<open>M.t()\<close> for \<open>M\<close> of shape \<open>[r, c]\<close>\<close>
  "transpose_t r c M = mk_mat c r (\<lambda>i j. M ! j ! i)"

definition matmul :: "nat \<Rightarrow> nat \<Rightarrow> nat \<Rightarrow> mat \<Rightarrow> mat \<Rightarrow> mat" where
  \<comment> \<open>\<open>A.matmul(B)\<close> for \<open>A\<close> of shape \<open>[r, k]\<close> and \<open>B\<close> of shape \<open>[k, c]\<close>\<close>
  "matmul r k c A B = mk_mat r c (\<lambda>i j. \<Sum>l = 0..<k. A ! i ! l * B ! l ! j)"

definition madd :: "nat \<Rightarrow> nat \<Rightarrow> mat \<Rightarrow> mat \<Rightarrow> mat" where
  \<comment> \<open>entrywise sum of two tensors of shape \<open>[r, c]\<close>\<close>
  "madd r c A B = mk_mat r c (\<lambda>i j. A ! i ! j + B ! i ! j)"

definition col :: "nat \<Rightarrow> mat \<Rightarrow> nat \<Rightarrow> vec" where
  \<comment> \<open>\<open>M[:, j]\<close> for \<open>M\<close> with \<open>r\<close> rows\<close>
  "col r M j = mk_vec r (\<lambda>i. M ! i ! j)"

definition diag :: "nat \<Rightarrow> mat \<Rightarrow> vec" where
  \<comment> \<open>\<open>torch.diag(M)\<close> for a square \<open>M\<close> of order \<open>n\<close>\<close>
  "diag n M = mk_vec n (\<lambda>i. M ! i ! i)"

definition is_mat :: "nat \<Rightarrow> nat \<Rightarrow> mat \<Rightarrow> bool" where
  \<comment> \<open>the list is a tensor of shape \<open>[r, c]\<close>\<close>
  "is_mat r c M = (length M = r \<and> list_all (\<lambda>row. length row = c) M)"

section \<open>The layer and its compression session\<close>

datatype error =
  ZeroDivisionError | RuntimeError | AttributeError | ValueError | LinAlgError | IndexError

datatype outcome = Done | Raised error

datatype layer_kind = Linear | Conv1D | Conv2d | OtherModule

datatype QuantizationStrategy = TENSOR | CHANNEL | GROUP | BLOCK | TOKEN

datatype ActivationOrdering = ActGROUP | ActWEIGHT

text \<open>
  \<open>QuantizationArgs\<close> of the compressed-tensors library, restricted to the fields
  \<open>compress\<close> reads.  \<open>actorder\<close> is \<open>None\<close> when no activation ordering is
  configured.
\<close>

record QuantizationArgs =
  strategy :: QuantizationStrategy
  actorder :: "ActivationOrdering option"
  group_size :: nat

text \<open>
  The wrapped module: its class, its weight and the parameters \<open>compress\<close> persists on
  it.  \<open>quantization_scheme_weights\<close> is the attribute chain
  \<open>layer.quantization_scheme.weights\<close>, \<open>None\<close> for an unquantized layer.  The weight
  of a \<open>Conv2d\<close> is kept in its flattened 2-D view (\<open>flatten(1)\<close> and the final
  \<open>reshape(final_shape)\<close> re-index the same entries).
\<close>

record layer =
  kind :: layer_kind
  weight :: mat
  quantization_scheme_weights :: "QuantizationArgs option"
  weight_scale :: mat
  weight_zero_point :: mat
  weight_g_idx :: "nat list option"

text \<open>
  \<open>GPTQWrapper\<close>: the layer, the shape \<open>[rows, columns]\<close> of the standardised weight
  (set by the base class \<open>ModuleCompressionWrapper\<close>), the Hessian buffer \<open>H\<close> and the
  sample count.  \<open>H\<close> is \<open>None\<close> once \<open>free\<close> has deleted the attribute.
\<close>

record session =
  layer :: layer
  rows :: nat
  columns :: nat
  H :: "mat option"
  n_samples :: nat

definition init_session :: "layer \<Rightarrow> nat \<Rightarrow> nat \<Rightarrow> session" where
  \<comment> \<open>\<open>__init__\<close>: \<open>H = zeros((columns, columns))\<close>, \<open>n_samples = 0\<close>\<close>
  "init_session l r c =
     \<lparr>layer = l, rows = r, columns = c, H = Some (zeros c c), n_samples = 0\<rparr>"

section \<open>The Hessian accumulator\<close>

text \<open>
  A tensor argument: 1-D (a list), 2-D \<open>[t, c]\<close> (the list of its \<open>t\<close> rows) or
  3-D \<open>[b, t, c]\<close> (the list of its \<open>b\<close> matrices).
\<close>

datatype tensor = Tensor1 vec | Tensor2 mat | Tensor3 "mat list"

definition leading_dim :: "tensor \<Rightarrow> nat" where
  \<comment> \<open>lines 71-73: \<open>tmp = inp.shape[0]\<close>, read after a 2-D input was given a leading
      dimension of size 1 by \<open>unsqueeze(0)\<close>\<close>
  "leading_dim inp =
     (case inp of Tensor1 v \<Rightarrow> length v | Tensor2 m \<Rightarrow> 1 | Tensor3 ms \<Rightarrow> length ms)"

definition tokens :: "tensor \<Rightarrow> mat" where
  \<comment> \<open>line 78: \<open>inp.reshape((-1, inp.shape[-1]))\<close> of the (unsqueezed) 3-D input:
      the token rows of all batch items\<close>
  "tokens inp = (case inp of Tensor1 v \<Rightarrow> [] | Tensor2 m \<Rightarrow> m | Tensor3 ms \<Rightarrow> concat ms)"

definition last_dim :: "nat \<Rightarrow> tensor \<Rightarrow> nat" where
  \<comment> \<open>\<open>inp.shape[-1]\<close>; a nested list with no token row does not record it, and the
      layer's own input width \<open>c\<close> stands for it\<close>
  "last_dim c inp = (case tokens inp of [] \<Rightarrow> c | x # _ \<Rightarrow> length x)"

definition reshaped :: "nat \<Rightarrow> tensor \<Rightarrow> mat" where
  \<comment> \<open>lines 78-79: the input as a matrix of shape \<open>[c, number of tokens]\<close>\<close>
  "reshaped c inp = transpose_t (length (tokens inp)) c (tokens inp)"

definition gram :: "nat \<Rightarrow> nat \<Rightarrow> mat \<Rightarrow> mat" where
  \<comment> \<open>\<open>X.matmul(X.t())\<close> for \<open>X\<close> of shape \<open>[c, t]\<close>\<close>
  "gram c t X = matmul c t c X (transpose_t c t X)"

definition iadd :: "nat \<Rightarrow> mat \<Rightarrow> nat \<Rightarrow> mat \<Rightarrow> error + mat" where
  \<comment> \<open>\<open>A += P\<close> for \<open>A\<close> of shape \<open>[c, c]\<close> and \<open>P\<close> of shape \<open>[d, d]\<close>: entrywise when
      the shapes agree, broadcast when \<open>P\<close> is \<open>[1, 1]\<close>, a shape error otherwise\<close>
  "iadd c A d P =
     (if d = c then Inr (madd c c A P)
      else if d = 1 then Inr (mk_mat c c (\<lambda>i j. A ! i ! j + P ! 0 ! 0))
      else Inl RuntimeError)"

text \<open>
  \<open>add_batch\<close> (lines 64-83).  The outcome comes with the session as the call leaves
  it.  For a \<open>Linear\<close> or \<open>Conv1D\<close> module a 2-D or 3-D input of width 0 fails in the
  \<open>reshape((-1, 0))\<close> of line 78, which cannot determine the size \<open>-1\<close> stands for,
  before the session is touched.  After that \<open>H\<close> is rescaled and \<open>n_samples\<close>
  incremented before the product of line 83 can fail.  A 1-D input is neither
  unsqueezed nor reshaped; its product with itself is a scalar, which \<open>+=\<close> broadcasts
  over \<open>H\<close>.  For a module that is neither \<open>Linear\<close> nor \<open>Conv1D\<close> a 2-D or 3-D input
  reaches line 83 with three dimensions, where \<open>t()\<close> raises.
\<close>

definition add_batch :: "session \<Rightarrow> tensor \<Rightarrow> tensor \<Rightarrow> outcome \<times> session" where
  "add_batch s inp out =
     (let tmp = leading_dim inp;
          n = n_samples s;
          linear = (kind (layer s) = Linear \<or> kind (layer s) = Conv1D);
          d = last_dim (columns s) inp
      in if linear \<and> (case inp of Tensor1 v \<Rightarrow> False | _ \<Rightarrow> True) \<and> d = 0
         then (Raised RuntimeError, s)
         else
           (case H s of
              None \<Rightarrow> (Raised AttributeError, s)
            | Some h \<Rightarrow>
                if n + tmp = 0 then (Raised ZeroDivisionError, s)
                else
                  let h1 = smul (real n / real (n + tmp)) h;
                      n1 = n + tmp;
                      s1 = s\<lparr>H := Some h1, n_samples := n1\<rparr>
                  in (case inp of
                       Tensor1 v \<Rightarrow>
                         let x = map (\<lambda>a. sqrt (2 / real n1) * a) v;
                             p = (\<Sum>a\<leftarrow>x. a * a)
                         in (Done, s1\<lparr>H := Some (map (map (\<lambda>a. a + p)) h1)\<rparr>)
                     | _ \<Rightarrow>
                         if linear then
                           let t = length (tokens inp);
                               X = smul (sqrt (2 / real n1)) (reshaped d inp)
                           in (case iadd (columns s) h1 d (gram d t X) of
                                 Inl e \<Rightarrow> (Raised e, s1)
                               | Inr h2 \<Rightarrow> (Done, s1\<lparr>H := Some h2\<rparr>))
                         else (Raised RuntimeError, s1))))"

fun add_batches :: "session \<Rightarrow> (tensor \<times> tensor) list \<Rightarrow> outcome \<times> session" where
  "add_batches s [] = (Done, s)"
| "add_batches s ((inp, out) # bs) =
     (case add_batch s inp out of
        (Done, s') \<Rightarrow> add_batches s' bs
      | (Raised e, s') \<Rightarrow> (Raised e, s'))"

definition matrix_input :: "nat \<Rightarrow> tensor \<Rightarrow> bool" where
  \<comment> \<open>a 2-D or 3-D input whose token rows have the layer's width \<open>c\<close>\<close>
  "matrix_input c inp = ((case inp of Tensor1 v \<Rightarrow> False | _ \<Rightarrow> True) \<and> last_dim c inp = c)"

definition gram_sum :: "nat \<Rightarrow> tensor list \<Rightarrow> mat" where
  \<comment> \<open>\<open>X\<^sub>1\<cdot>X\<^sub>1\<^sup>t + ... + X\<^sub>k\<cdot>X\<^sub>k\<^sup>t\<close> for the reshaped inputs\<close>
  "gram_sum c inps =
     foldl (\<lambda>S inp. madd c c S (gram c (length (tokens inp)) (reshaped c inp)))
       (zeros c c) inps"

section \<open>Activation ordering\<close>

text \<open>
  \<open>torch.argsort\<close>: the indices that sort a 1-D tensor.  The library leaves the order
  of equal elements open; the model sorts the index list with a stable sort.
\<close>

definition argsort :: "nat list \<Rightarrow> nat list" where
  \<comment> \<open>\<open>torch.argsort(xs)\<close> on an integer tensor\<close>
  "argsort xs = sort_key (\<lambda>i. xs ! i) [0..<length xs]"

definition argsort_descending :: "vec \<Rightarrow> nat list" where
  \<comment> \<open>\<open>torch.argsort(xs, descending=True)\<close>\<close>
  "argsort_descending xs = sort_key (\<lambda>i. - (xs ! i)) [0..<length xs]"

definition index_cols :: "nat \<Rightarrow> mat \<Rightarrow> nat list \<Rightarrow> mat" where
  \<comment> \<open>\<open>W[:, p]\<close> for \<open>W\<close> with \<open>r\<close> rows\<close>
  "index_cols r W p = mk_mat r (length p) (\<lambda>i j. W ! i ! (p ! j))"

definition index_rows_cols :: "mat \<Rightarrow> nat list \<Rightarrow> mat" where
  \<comment> \<open>\<open>A[p][:, p]\<close>\<close>
  "index_rows_cols A p = mk_mat (length p) (length p) (\<lambda>i j. A ! (p ! i) ! (p ! j))"

definition index_list :: "nat list \<Rightarrow> nat list \<Rightarrow> nat list" where
  \<comment> \<open>\<open>g[p]\<close> for 1-D integer tensors\<close>
  "index_list g p = map (\<lambda>j. g ! j) p"

definition apply_activation_ordering ::
  "nat \<Rightarrow> nat \<Rightarrow> mat \<Rightarrow> mat \<Rightarrow> mat \<times> mat \<times> nat list \<times> nat list" where
  \<comment> \<open>\<open>_apply_activation_ordering\<close> (lines 339-349), \<open>W\<close> of shape \<open>[r, c]\<close>, \<open>A\<close> of
      shape \<open>[c, c]\<close>\<close>
  "apply_activation_ordering r c W A =
     (let perm = argsort_descending (diag c A);
          invperm = argsort perm
      in (index_cols r W perm, index_rows_cols A perm, perm, invperm))"

section \<open>Factorisation of the Hessian\<close>

text \<open>
  Modelled from the spec: the three library calls of lines 180-182,
  \<open>torch.linalg.cholesky\<close>, \<open>torch.cholesky_inverse\<close> and
  \<open>torch.linalg.cholesky(upper=True)\<close>, are not code of the repository.  The spec
  (4.4, step 3) fixes what they compute: the Cholesky factor of \<open>H\<close>, the inverse from
  that factor, and the upper-triangular Cholesky factor of the inverse; a matrix that
  is not positive-definite makes the factorisation fail.  In exact arithmetic the
  factor with positive diagonal is unique, and the model computes it row by row: the
  upper factor \<open>U\<close> of \<open>B\<close> (\<open>U\<^sup>t\<cdot>U = B\<close>, reading the upper triangle of \<open>B\<close>) has
  \<open>U[i,i] = sqrt (B[i,i] - \<Sum>k<i. U[k,i]\<^sup>2)\<close> and
  \<open>U[i,j] = (B[i,j] - \<Sum>k<i. U[k,i]\<cdot>U[k,j]) / U[i,i]\<close> for \<open>j > i\<close>; a pivot that is
  not positive is the failure.  The lower factor is the transpose of the upper factor
  of the transpose.
\<close>

fun cholesky_upper_rows :: "nat \<Rightarrow> mat \<Rightarrow> nat \<Rightarrow> mat option" where
  "cholesky_upper_rows n B 0 = Some []"
| "cholesky_upper_rows n B (Suc i) =
     (case cholesky_upper_rows n B i of
        None \<Rightarrow> None
      | Some U \<Rightarrow>
          let p = B ! i ! i - (\<Sum>k = 0..<i. U ! k ! i * U ! k ! i)
          in if p \<le> 0 then None
             else Some (U @ [mk_vec n (\<lambda>j.
                    if j < i then 0
                    else if j = i then sqrt p
                    else (B ! i ! j - (\<Sum>k = 0..<i. U ! k ! i * U ! k ! j)) / sqrt p)]))"

definition cholesky :: "bool \<Rightarrow> nat \<Rightarrow> mat \<Rightarrow> error + mat" where
  \<comment> \<open>\<open>torch.linalg.cholesky(A, upper=upper)\<close> for \<open>A\<close> of order \<open>n\<close>\<close>
  "cholesky upper n A =
     (if upper then
        (case cholesky_upper_rows n A n of None \<Rightarrow> Inl LinAlgError | Some U \<Rightarrow> Inr U)
      else
        (case cholesky_upper_rows n (transpose_t n n A) n of
           None \<Rightarrow> Inl LinAlgError
         | Some U \<Rightarrow> Inr (transpose_t n n U)))"

text \<open>
  The inverse of a lower-triangular \<open>L\<close> by forward substitution, row by row, and
  \<open>cholesky_inverse L = (L\<cdot>L\<^sup>t)\<^sup>-\<^sup>1 = (L\<^sup>-\<^sup>1)\<^sup>t\<cdot>L\<^sup>-\<^sup>1\<close>.
\<close>

fun lower_inverse_rows :: "nat \<Rightarrow> mat \<Rightarrow> nat \<Rightarrow> mat" where
  "lower_inverse_rows n L 0 = []"
| "lower_inverse_rows n L (Suc i) =
     (let X = lower_inverse_rows n L i
      in X @ [mk_vec n (\<lambda>j.
           if j < i then - (\<Sum>k = j..<i. L ! i ! k * X ! k ! j) / L ! i ! i
           else if j = i then 1 / L ! i ! i
           else 0)])"

definition cholesky_inverse :: "nat \<Rightarrow> mat \<Rightarrow> mat" where
  \<comment> \<open>\<open>torch.cholesky_inverse(L)\<close> for a lower factor \<open>L\<close> of order \<open>n\<close>\<close>
  "cholesky_inverse n L =
     (let X = lower_inverse_rows n L n
      in mk_mat n n (\<lambda>i j. \<Sum>k = 0..<n. X ! k ! i * X ! k ! j))"

section \<open>The quantisation observer\<close>

text \<open>
  The observer object of the compressed-tensors library holds the tables \<open>_scale\<close> and
  \<open>_zero_point\<close>; both are kept as 2-D tensors (a per-tensor parameter is a table with
  one entry).
\<close>

record observer =
  obs_scale :: mat
  obs_zero_point :: mat

text \<open>
  What \<open>compress\<close> takes from outside the repository, as parameters of the model:
  \<^item> \<open>observe args r c W\<close>: \<open>observer = args.get_observer(); observer(W)\<close>, the observer
    after it has computed the quantisation parameters of \<open>W\<close> (shape \<open>[r, c]\<close>);
  \<^item> \<open>calculate_qparams\<close> and \<open>get_qparams_along_dim\<close> (with \<open>dim=0\<close>): the observer's
    pure parameter computations;
  \<^item> \<open>fake_quantize x scale zero_point args\<close>: quantise and dequantise the column \<open>x\<close>;
  \<^item> \<open>SPARSITY_THRESHOLD\<close>: the constant of \<open>llmcompressor.modifiers.utils\<close>.
\<close>

record externals =
  observe :: "QuantizationArgs \<Rightarrow> nat \<Rightarrow> nat \<Rightarrow> mat \<Rightarrow> observer"
  calculate_qparams :: "QuantizationArgs \<Rightarrow> vec \<Rightarrow> vec \<times> vec"
  get_qparams_along_dim :: "QuantizationArgs \<Rightarrow> nat \<Rightarrow> nat \<Rightarrow> mat \<Rightarrow> mat \<times> mat"
  fake_quantize :: "vec \<Rightarrow> tensor \<Rightarrow> tensor \<Rightarrow> QuantizationArgs \<Rightarrow> vec"
  SPARSITY_THRESHOLD :: real

text \<open>
  Indexing a table.  An index past the end raises \<open>IndexError\<close>; an assigned value of
  the wrong length raises \<open>RuntimeError\<close> unless it has one element, which is
  broadcast.  The number of columns of a table is read off its first row.
\<close>

definition ncols :: "mat \<Rightarrow> nat" where
  "ncols S = (case S of [] \<Rightarrow> 0 | x # _ \<Rightarrow> length x)"

definition set_row :: "mat \<Rightarrow> nat \<Rightarrow> vec \<Rightarrow> error + mat" where
  \<comment> \<open>\<open>S[k] = v\<close>\<close>
  "set_row S k v =
     (if k < length S then
        (if length v = length (S ! k) then Inr (S[k := v])
         else if length v = 1 then Inr (S[k := replicate (length (S ! k)) (v ! 0)])
         else Inl RuntimeError)
      else Inl IndexError)"

definition get_col :: "mat \<Rightarrow> nat \<Rightarrow> error + vec" where
  \<comment> \<open>\<open>S[:, k]\<close>\<close>
  "get_col S k = (if k < ncols S then Inr (map (\<lambda>row. row ! k) S) else Inl IndexError)"

definition set_col :: "mat \<Rightarrow> nat \<Rightarrow> vec \<Rightarrow> error + mat" where
  \<comment> \<open>\<open>S[:, k] = v\<close>\<close>
  "set_col S k v =
     (if k < ncols S then
        (if length v = length S then Inr (map2 (\<lambda>row x. row[k := x]) S v)
         else if length v = 1 then Inr (map (\<lambda>row. row[k := v ! 0]) S)
         else Inl RuntimeError)
      else Inl IndexError)"

definition group_columns :: "nat \<Rightarrow> nat list \<Rightarrow> nat \<Rightarrow> nat list" where
  \<comment> \<open>the columns selected by the mask \<open>g_idx == group_index\<close>\<close>
  "group_columns c g_idx group_index = filter (\<lambda>j. g_idx ! j = group_index) [0..<c]"

text \<open>
  The strategy dispatch of the inner loop (lines 204-261) for the column
  \<open>column_idx = i1 + i\<close> with current value \<open>q\<close> (the clone of \<open>w\<close>).  \<open>W\<close> is the
  weight matrix of the outer loop, which the \<open>GROUP\<close> branch reads.  The result is the
  quantised column and the observer with its updated tables.
\<close>

definition quantize_column ::
  "externals \<Rightarrow> QuantizationArgs \<Rightarrow> nat list \<Rightarrow> nat \<Rightarrow> nat \<Rightarrow> mat \<Rightarrow> nat \<Rightarrow> vec \<Rightarrow> observer
     \<Rightarrow> error + (vec \<times> observer)" where
  "quantize_column ext args g_idx r c W column_idx q obs =
     (case strategy args of
        TENSOR \<Rightarrow>
          Inr (fake_quantize ext q (Tensor2 (obs_scale obs)) (Tensor2 (obs_zero_point obs)) args,
               obs)
      | CHANNEL \<Rightarrow>
          (let (updated_scale, updated_zero_point) = calculate_qparams ext args q
           in case set_row (obs_scale obs) column_idx updated_scale of
                Inl e \<Rightarrow> Inl e
              | Inr sc \<Rightarrow>
             (case set_row (obs_zero_point obs) column_idx updated_zero_point of
                Inl e \<Rightarrow> Inl e
              | Inr zp \<Rightarrow>
             (case get_col sc column_idx of
                Inl e \<Rightarrow> Inl e
              | Inr scol \<Rightarrow>
             (case get_col zp column_idx of
                Inl e \<Rightarrow> Inl e
              | Inr zcol \<Rightarrow>
                  Inr (fake_quantize ext q (Tensor1 scol) (Tensor1 zcol) args,
                       obs\<lparr>obs_scale := sc, obs_zero_point := zp\<rparr>)))))
      | GROUP \<Rightarrow>
          (let group_index = g_idx ! column_idx;
               sel = group_columns c g_idx group_index;
               (updated_scale, updated_zero_point) =
                  get_qparams_along_dim ext args r (length sel) (index_cols r W sel)
           in case get_col updated_scale 0 of
                Inl e \<Rightarrow> Inl e
              | Inr us \<Rightarrow>
             (case set_col (obs_scale obs) group_index us of
                Inl e \<Rightarrow> Inl e
              | Inr sc \<Rightarrow>
             (case get_col updated_zero_point 0 of
                Inl e \<Rightarrow> Inl e
              | Inr uz \<Rightarrow>
             (case set_col (obs_zero_point obs) group_index uz of
                Inl e \<Rightarrow> Inl e
              | Inr zp \<Rightarrow>
             (case get_col sc group_index of
                Inl e \<Rightarrow> Inl e
              | Inr scol \<Rightarrow>
             (case get_col zp group_index of
                Inl e \<Rightarrow> Inl e
              | Inr zcol \<Rightarrow>
                  Inr (fake_quantize ext q (Tensor1 scol) (Tensor1 zcol)
                         (args\<lparr>strategy := CHANNEL\<rparr>),
                       obs\<lparr>obs_scale := sc, obs_zero_point := zp\<rparr>)))))))
      | _ \<Rightarrow> Inl ValueError)"

section \<open>The blockwise quantize-and-correct scan\<close>

text \<open>
  \<open>for i in range(n)\<close> over a body that can raise: the body runs for
  \<open>i = 0, ..., n - 1\<close> in this order and the first error ends the loop.
\<close>

fun for_range :: "nat \<Rightarrow> (nat \<Rightarrow> 's \<Rightarrow> error + 's) \<Rightarrow> 's \<Rightarrow> error + 's" where
  "for_range 0 body s = Inr s"
| "for_range (Suc n) body s =
     (case for_range n body s of Inl e \<Rightarrow> Inl e | Inr s' \<Rightarrow> body n s')"

text \<open>
  What the scan reads and never writes: the external capabilities, the quantisation
  arguments, the group index map, the shape of \<open>W\<close>, the factor \<open>Hinv\<close> and the mask
  \<open>W_nz_mask\<close> (\<open>None\<close> unless \<open>preserve_zeros\<close>).
\<close>

record scan_env =
  env_ext :: externals
  env_args :: QuantizationArgs
  env_g_idx :: "nat list"
  env_rows :: nat
  env_columns :: nat
  env_Hinv :: mat
  env_mask :: "mat option"

definition masked :: "mat option \<Rightarrow> nat \<Rightarrow> nat \<Rightarrow> real \<Rightarrow> real" where
  \<comment> \<open>lines 281-284 and 294-297: the error term of entry \<open>(a, b)\<close>, multiplied by the
      mask entry when the mask is active\<close>
  "masked m a b x = (case m of None \<Rightarrow> x | Some M \<Rightarrow> x * M ! a ! b)"

text \<open>
  One iteration of the inner loop (lines 199-285) on the block that starts at column
  \<open>i1\<close> and has \<open>count\<close> columns.  The state is \<open>(W1, Q1, Err1, observer)\<close>;
  \<open>Hinv1[i, b]\<close> is \<open>Hinv[i1 + i, i1 + b]\<close> and \<open>W1_nz_mask[a, b]\<close> is
  \<open>W_nz_mask[a, i1 + b]\<close>.  The accumulators \<open>Losses1\<close> and \<open>Losses\<close> are only summed
  for the metric log and are left out.  A quantised column that has not the shape of
  \<open>w\<close> cannot be stored in \<open>Q1[:, i]\<close>.
\<close>

definition column_step ::
  "scan_env \<Rightarrow> nat \<Rightarrow> nat \<Rightarrow> mat \<Rightarrow> nat \<Rightarrow> mat \<times> mat \<times> mat \<times> observer
     \<Rightarrow> error + (mat \<times> mat \<times> mat \<times> observer)" where
  "column_step env i1 count W i st =
     (case st of (W1, Q1, Err1, obs) \<Rightarrow>
        let r = env_rows env;
            w = col r W1 i;
            d = env_Hinv env ! (i1 + i) ! (i1 + i)
        in (case quantize_column (env_ext env) (env_args env) (env_g_idx env) r
                  (env_columns env) W (i1 + i) w obs of
             Inl e \<Rightarrow> Inl e
           | Inr (q, obs') \<Rightarrow>
               if length q \<noteq> r then Inl RuntimeError
               else
                 let Q1' = mk_mat r count (\<lambda>a b. if b = i then q ! a else Q1 ! a ! b);
                     err1 = mk_vec r (\<lambda>a. (w ! a - q ! a) / d);
                     W1' = mk_mat r count (\<lambda>a b.
                             if i \<le> b
                             then W1 ! a ! b
                                    - masked (env_mask env) a (i1 + b)
                                        (err1 ! a * env_Hinv env ! (i1 + i) ! (i1 + b))
                             else W1 ! a ! b);
                     Err1' = mk_mat r count (\<lambda>a b. if b = i then err1 ! a else Err1 ! a ! b)
                 in Inr (W1', Q1', Err1', obs')))"

text \<open>
  One iteration of the outer loop (lines 186-297) for the block that starts at column
  \<open>i1\<close>.  The state is \<open>(W, observer)\<close>.
\<close>

definition block_step ::
  "scan_env \<Rightarrow> nat \<Rightarrow> nat \<Rightarrow> mat \<times> observer \<Rightarrow> error + (mat \<times> observer)" where
  "block_step env blocksize i1 st =
     (case st of (W, obs) \<Rightarrow>
        let r = env_rows env;
            c = env_columns env;
            i2 = min (i1 + blocksize) c;
            count = i2 - i1;
            W1 = mk_mat r count (\<lambda>a b. W ! a ! (i1 + b));
            Q1 = zeros r count;
            Err1 = zeros r count
        in (case for_range count (column_step env i1 count W) (W1, Q1, Err1, obs) of
             Inl e \<Rightarrow> Inl e
           | Inr (W1', Q1', Err1', obs') \<Rightarrow>
               let Wq = mk_mat r c (\<lambda>a b.
                          if i1 \<le> b \<and> b < i2 then Q1' ! a ! (b - i1) else W ! a ! b);
                   w_err = matmul r count (c - i2) Err1'
                             (mk_mat count (c - i2) (\<lambda>m b. env_Hinv env ! (i1 + m) ! (i2 + b)));
                   W' = mk_mat r c (\<lambda>a b.
                          if i2 \<le> b
                          then Wq ! a ! b - masked (env_mask env) a b (w_err ! a ! (b - i2))
                          else Wq ! a ! b)
               in Inr (W', obs')))"

definition num_blocks :: "nat \<Rightarrow> int \<Rightarrow> nat" where
  \<comment> \<open>\<open>len(range(0, c, blocksize))\<close> for a step that is not zero\<close>
  "num_blocks c blocksize =
     (if 0 < blocksize then (c + nat blocksize - 1) div nat blocksize else 0)"

definition scan :: "scan_env \<Rightarrow> int \<Rightarrow> mat \<times> observer \<Rightarrow> error + (mat \<times> observer)" where
  \<comment> \<open>\<open>for i1 in range(0, self.columns, blocksize)\<close>: the \<open>k\<close>-th block starts at
      \<open>k * blocksize\<close>\<close>
  "scan env blocksize st =
     for_range (num_blocks (env_columns env) blocksize)
       (\<lambda>k. block_step env (nat blocksize) (k * nat blocksize)) st"

section \<open>compress and free\<close>

definition standardize :: "layer_kind \<Rightarrow> nat \<Rightarrow> nat \<Rightarrow> mat \<Rightarrow> mat" where
  \<comment> \<open>lines 111-119: the clone of the weight in the shape \<open>[r, c]\<close>; the weight of a
      \<open>Conv1D\<close> has the shape \<open>[c, r]\<close> and is transposed\<close>
  "standardize k r c w = (if k = Conv1D then transpose_t c r w else w)"

definition unstandardize :: "layer_kind \<Rightarrow> nat \<Rightarrow> nat \<Rightarrow> mat \<Rightarrow> mat" where
  \<comment> \<open>lines 316-318: back to the shape of the layer's weight\<close>
  "unstandardize k r c W = (if k = Conv1D then transpose_t r c W else W)"

definition arange_div :: "nat \<Rightarrow> nat \<Rightarrow> nat list" where
  \<comment> \<open>lines 127-130: \<open>torch.arange(c) // group_size\<close>\<close>
  "arange_div c gs = map (\<lambda>j. j div gs) [0..<c]"

text \<open>
  Lines 125-153: the group index map, the activation ordering and the first call of
  the observer.  The result is \<open>(W, self.H, g_idx, invperm, observer)\<close>; \<open>g_idx\<close> is not
  bound outside the \<open>GROUP\<close> strategy and \<open>invperm\<close> only under an activation ordering.
  Reading \<open>self.H\<close> after \<open>free\<close> raises \<open>AttributeError\<close>; the integer division by a
  group size of zero raises inside the tensor library.
\<close>

definition prepare ::
  "externals \<Rightarrow> QuantizationArgs \<Rightarrow> nat \<Rightarrow> nat \<Rightarrow> mat \<Rightarrow> mat option
     \<Rightarrow> error + (mat \<times> mat option \<times> nat list \<times> nat list option \<times> observer)" where
  "prepare ext args r c W h =
     (if strategy args = GROUP then
        (if group_size args = 0 then Inl RuntimeError
         else
           let g_idx = arange_div c (group_size args)
           in (case actorder args of
                 Some ActGROUP \<Rightarrow>
                   (case h of
                      None \<Rightarrow> Inl AttributeError
                    | Some A \<Rightarrow>
                        (case apply_activation_ordering r c W A of
                           (W', A', perm, invperm) \<Rightarrow>
                             Inr (W', Some A', g_idx, Some invperm, observe ext args r c W')))
               | Some ActWEIGHT \<Rightarrow>
                   (let obs = observe ext args r c W
                    in case h of
                         None \<Rightarrow> Inl AttributeError
                       | Some A \<Rightarrow>
                           (case apply_activation_ordering r c W A of
                              (W', A', perm, invperm) \<Rightarrow>
                                Inr (W', Some A', index_list g_idx perm, Some invperm, obs)))
               | None \<Rightarrow> Inr (W, h, g_idx, None, observe ext args r c W)))
      else Inr (W, h, [], None, observe ext args r c W))"

text \<open>
  Modelled from the spec: \<open>tensor_sparsity\<close> of \<open>llmcompressor.pytorch.utils.helpers\<close>
  is not under src/.  The spec calls its result the layer's sparsity ratio: the
  fraction of the entries of \<open>W\<close> that are zero.  A tensor with no entry has no ratio
  (\<open>None\<close>), and the comparison of line 161 is then false.
\<close>

definition tensor_sparsity :: "mat \<Rightarrow> real option" where
  "tensor_sparsity W =
     (let xs = concat W
      in if xs = [] then None
         else Some (real (length (filter (\<lambda>x. x = 0) xs)) / real (length xs)))"

definition isclose :: "real \<Rightarrow> real \<Rightarrow> bool" where
  \<comment> \<open>\<open>torch.isclose\<close> with its default tolerances \<open>rtol = 1e-05\<close>, \<open>atol = 1e-08\<close>\<close>
  "isclose a b = (\<bar>a - b\<bar> \<le> 1 / 10 ^ 8 + 1 / 10 ^ 5 * \<bar>b\<bar>)"

definition preserve_zeros :: "externals \<Rightarrow> mat \<Rightarrow> bool" where
  \<comment> \<open>lines 160-161\<close>
  "preserve_zeros ext W =
     (case tensor_sparsity W of None \<Rightarrow> False | Some sp \<Rightarrow> SPARSITY_THRESHOLD ext \<le> sp)"

definition W_nz_mask :: "externals \<Rightarrow> nat \<Rightarrow> nat \<Rightarrow> mat \<Rightarrow> mat option" where
  \<comment> \<open>lines 162-166\<close>
  "W_nz_mask ext r c W =
     (if preserve_zeros ext W
      then Some (mk_mat r c (\<lambda>a b. if isclose (W ! a ! b) 0 then 0 else 1))
      else None)"

definition dead_H :: "nat \<Rightarrow> mat \<Rightarrow> mat" where
  \<comment> \<open>lines 169-170: \<open>dead = torch.diag(H) == 0; H[dead, dead] = 1\<close>\<close>
  "dead_H c A = mk_mat c c (\<lambda>i j. if i = j \<and> A ! i ! i = 0 then 1 else A ! i ! j)"

definition dead_W :: "nat \<Rightarrow> nat \<Rightarrow> mat \<Rightarrow> mat \<Rightarrow> mat" where
  \<comment> \<open>line 171: \<open>W[:, dead] = 0\<close>, with \<open>dead\<close> read from \<open>H\<close> before line 170\<close>
  "dead_W r c A W = mk_mat r c (\<lambda>a b. if A ! b ! b = 0 then 0 else W ! a ! b)"

definition mean :: "vec \<Rightarrow> real" where
  \<comment> \<open>\<open>torch.mean\<close>\<close>
  "mean xs = sum_list xs / real (length xs)"

definition damped :: "nat \<Rightarrow> real \<Rightarrow> mat \<Rightarrow> mat" where
  \<comment> \<open>lines 177-179: \<open>damp = percdamp * mean(diag(H)); H[diag, diag] += damp\<close>\<close>
  "damped c percdamp A =
     (let damp = percdamp * mean (diag c A)
      in mk_mat c c (\<lambda>i j. if i = j then A ! i ! j + damp else A ! i ! j))"

definition factorize :: "nat \<Rightarrow> mat \<Rightarrow> (error \<times> mat) + mat" where
  \<comment> \<open>lines 180-183: \<open>self.H\<close> is overwritten by its Cholesky factor, then by the
      inverse, then by the upper factor of the inverse, which is \<open>Hinv\<close>.  A failure
      comes with the value \<open>self.H\<close> holds when the factorisation raises.\<close>
  "factorize c A =
     (case cholesky False c A of
        Inl e \<Rightarrow> Inl (e, A)
      | Inr L \<Rightarrow>
          let Ai = cholesky_inverse c L
          in (case cholesky True c Ai of
                Inl e \<Rightarrow> Inl (e, Ai)
              | Inr Hinv \<Rightarrow> Inr Hinv))"

text \<open>
  Modelled from the spec: \<open>update_parameter_data\<close> of the \<open>compressed_tensors\<close>
  library is not under src/.  The spec has the final scale, the zero point and the
  group index map persisted as the layer's quantization parameters at the end of the
  compression; \<open>commit\<close> and \<open>restore_order\<close> store them in the fields of the layer
  record, and the store itself is taken to succeed on the values the observer holds.
\<close>

definition commit :: "layer \<Rightarrow> nat \<Rightarrow> nat \<Rightarrow> mat \<Rightarrow> observer \<Rightarrow> layer" where
  \<comment> \<open>lines 316-325: \<open>weight -= weight; weight += W\<close> in the weight's own shape, then
      the scale and the zero point\<close>
  "commit l r c W obs =
     (let Wl = unstandardize (kind l) r c W;
          wr = (if kind l = Conv1D then c else r);
          wc = (if kind l = Conv1D then r else c)
      in l\<lparr>weight := mk_mat wr wc (\<lambda>a b. (weight l ! a ! b - weight l ! a ! b) + Wl ! a ! b),
           weight_scale := obs_scale obs,
           weight_zero_point := obs_zero_point obs\<rparr>)"

definition restore_order ::
  "QuantizationArgs \<Rightarrow> nat \<Rightarrow> nat list \<Rightarrow> nat list option \<Rightarrow> mat \<Rightarrow> layer \<Rightarrow> mat \<times> layer" where
  \<comment> \<open>lines 303-314: the columns go back to their original order; under the \<open>GROUP\<close>
      ordering the group index map does too and is stored on the layer\<close>
  "restore_order args r g_idx invperm W l =
     (if strategy args = GROUP then
        (case (actorder args, invperm) of
           (Some ActWEIGHT, Some ip) \<Rightarrow> (index_cols r W ip, l)
         | (Some ActGROUP, Some ip) \<Rightarrow>
             (index_cols r W ip, l\<lparr>weight_g_idx := Some (index_list g_idx ip)\<rparr>)
         | _ \<Rightarrow> (W, l))
      else (W, l))"

text \<open>
  \<open>compress\<close> (lines 85-330).  The outcome comes with the session as the call leaves
  it: \<open>self.H\<close> is overwritten step by step (ordering, dead columns and damping,
  inverse, factor), the layer only by the commit at the end.  The staging of an
  offloaded module (lines 104-105, 327-330) and the metric log (lines 299-301) do not
  change a value and are left out.  A block size of zero makes \<open>range\<close> raise
  \<open>ValueError\<close>; a negative one makes the loop empty.
\<close>

definition compress :: "externals \<Rightarrow> session \<Rightarrow> int \<Rightarrow> real \<Rightarrow> outcome \<times> session" where
  "compress ext s blocksize percdamp =
     (case quantization_scheme_weights (layer s) of
        None \<Rightarrow> (Done, s)
      | Some args \<Rightarrow>
          let r = rows s;
              c = columns s;
              W0 = standardize (kind (layer s)) r c (weight (layer s))
          in (case prepare ext args r c W0 (H s) of
                Inl e \<Rightarrow> (Raised e, s)
              | Inr (W, h, g_idx, invperm, obs) \<Rightarrow>
                  (case h of
                     None \<Rightarrow> (Raised AttributeError, s\<lparr>H := h\<rparr>)
                   | Some A \<Rightarrow>
                       let mask = W_nz_mask ext r c W;
                           Wd = dead_W r c A W
                       in (case factorize c (damped c percdamp (dead_H c A)) of
                             Inl (e, A') \<Rightarrow> (Raised e, s\<lparr>H := Some A'\<rparr>)
                           | Inr Hinv \<Rightarrow>
                               let env = \<lparr>env_ext = ext, env_args = args,
                                          env_g_idx = g_idx, env_rows = r,
                                          env_columns = c, env_Hinv = Hinv,
                                          env_mask = mask\<rparr>
                               in if blocksize = 0
                                  then (Raised ValueError, s\<lparr>H := Some Hinv\<rparr>)
                                  else
                                    (case scan env blocksize (Wd, obs) of
                                       Inl e \<Rightarrow> (Raised e, s\<lparr>H := Some Hinv\<rparr>)
                                     | Inr (Wq, obs') \<Rightarrow>
                                         (case restore_order args r g_idx invperm Wq
                                                 (layer s) of
                                            (Wf, l1) \<Rightarrow>
                                              (Done,
                                               s\<lparr>H := Some Hinv,
                                                 layer := commit l1 r c Wf obs'\<rparr>)))))))"

text \<open>
  \<open>free\<close> (lines 332-337): \<open>delattr(self, "H")\<close>, which raises when the attribute is
  already gone.  Modelled from the spec: \<open>super().free()\<close> of
  \<open>ModuleCompressionWrapper\<close> is not under src/; the spec gives \<open>free\<close> no other effect
  than releasing the Hessian state.
\<close>

definition free :: "session \<Rightarrow> outcome \<times> session" where
  "free s = (case H s of None \<Rightarrow> (Raised AttributeError, s) | Some A \<Rightarrow> (Done, s\<lparr>H := None\<rparr>))"

section \<open>Notions used in the statements\<close>

definition is_perm :: "nat \<Rightarrow> nat list \<Rightarrow> bool" where
  \<comment> \<open>\<open>p\<close> lists each index below \<open>n\<close> once\<close>
  "is_perm n p = (set p = {0..<n} \<and> distinct p)"

text \<open>
  The scan one column at a time, the reference the blockwise scan is compared with:
  column \<open>j\<close> is quantised from its current value, stored, and its error is
  propagated to every later column.
\<close>

definition column_pass :: "scan_env \<Rightarrow> nat \<Rightarrow> mat \<times> observer \<Rightarrow> error + (mat \<times> observer)" where
  "column_pass env j st =
     (case st of (W, obs) \<Rightarrow>
        let r = env_rows env;
            c = env_columns env;
            w = col r W j;
            d = env_Hinv env ! j ! j
        in (case quantize_column (env_ext env) (env_args env) (env_g_idx env) r c W j w obs of
              Inl e \<Rightarrow> Inl e
            | Inr (q, obs') \<Rightarrow>
                if length q \<noteq> r then Inl RuntimeError
                else Inr (mk_mat r c (\<lambda>a b.
                            if b = j then q ! a
                            else if j < b
                            then W ! a ! b
                                   - masked (env_mask env) a b
                                       ((w ! a - q ! a) / d * env_Hinv env ! j ! b)
                            else W ! a ! b),
                          obs')))"

definition zero_preserving :: "externals \<Rightarrow> bool" where
  \<comment> \<open>the external quantiser maps a zero entry of a column to zero (the grid of
      \<open>fake_quantize\<close> contains 0: its zero point is an integer of the quantised range)\<close>
  "zero_preserving ext =
     (\<forall>x sc zp args a. a < length x \<longrightarrow> x ! a = 0 \<longrightarrow> fake_quantize ext x sc zp args ! a = 0)"

definition shielded :: "scan_env \<Rightarrow> nat \<Rightarrow> nat \<Rightarrow> bool" where
  \<comment> \<open>no error term reaches entry \<open>(a, b)\<close>: the mask is active and zero there, or
      column \<open>b\<close> of \<open>Hinv\<close> is zero above the diagonal\<close>
  "shielded env a b =
     ((case env_mask env of None \<Rightarrow> False | Some M \<Rightarrow> M ! a ! b = 0) \<or>
      (\<forall>i<b. env_Hinv env ! i ! b = 0))"


definition scan_position :: "QuantizationArgs \<Rightarrow> nat \<Rightarrow> mat \<Rightarrow> nat \<Rightarrow> nat" where
  \<comment> \<open>where column \<open>j\<close> of the layer stands during the scan: at \<open>invperm[j]\<close> under an
      activation ordering of the \<open>GROUP\<close> strategy, at \<open>j\<close> otherwise\<close>
  "scan_position args c A j =
     (if strategy args = GROUP \<and> actorder args \<noteq> None
      then argsort (argsort_descending (diag c A)) ! j else j)"

definition weight_entry :: "layer \<Rightarrow> nat \<Rightarrow> nat \<Rightarrow> real" where
  \<comment> \<open>entry \<open>(a, b)\<close> of the layer's weight, seen in the shape \<open>[rows, columns]\<close> of the
      standardised matrix \<open>W\<close> (the weight of a \<open>Conv1D\<close> is stored transposed)\<close>
  "weight_entry l a b = (if kind l = Conv1D then weight l ! b ! a else weight l ! a ! b)"

definition mask_active :: "externals \<Rightarrow> session \<Rightarrow> bool" where
  \<comment> \<open>the condition \<open>preserve_zeros\<close> of line 161, on the weight matrix \<open>compress\<close> has
      prepared when it reaches that line\<close>
  "mask_active ext s =
     (case quantization_scheme_weights (layer s) of
        None \<Rightarrow> False
      | Some args \<Rightarrow>
          (case prepare ext args (rows s) (columns s)
                  (standardize (kind (layer s)) (rows s) (columns s) (weight (layer s))) (H s) of
             Inl e \<Rightarrow> False
           | Inr (W, rest) \<Rightarrow> preserve_zeros ext W))"

section \<open>Concrete inputs\<close>

text \<open>The sessions and inputs at which the theorems below are instantiated.\<close>

definition linear_layer :: "mat \<Rightarrow> QuantizationArgs option \<Rightarrow> layer" where
  "linear_layer w qa =
     \<lparr>kind = Linear, weight = w, quantization_scheme_weights = qa,
      weight_scale = [], weight_zero_point = [], weight_g_idx = None\<rparr>"

definition two_batches :: "(tensor \<times> tensor) list" where
  "two_batches = [(Tensor2 [[1], [2]], Tensor2 []), (Tensor3 [[[1]], [[3]]], Tensor2 [])]"

text \<open>
  An instance of the external capabilities: a symmetric observer that takes the largest
  absolute value of a slice as its scale, with zero point 0, and a quantiser onto the
  three-level grid \<open>{-s, 0, s}\<close> of the scale \<open>s\<close>.
\<close>

definition absmax :: "vec \<Rightarrow> real" where
  "absmax xs = foldr (\<lambda>x m. max \<bar>x\<bar> m) xs 0"

definition ternary :: "real \<Rightarrow> real \<Rightarrow> real" where
  "ternary s x = s * of_int (max (- 1) (min 1 (round (x / s))))"

definition absmax_table :: "QuantizationArgs \<Rightarrow> nat \<Rightarrow> nat \<Rightarrow> mat \<Rightarrow> mat" where
  "absmax_table args r c W =
     (case strategy args of
        GROUP \<Rightarrow>
          mk_mat r ((c + group_size args - 1) div group_size args)
            (\<lambda>a g. absmax (take (group_size args) (drop (g * group_size args) (W ! a))))
      | CHANNEL \<Rightarrow> mk_mat r 1 (\<lambda>a b. absmax (W ! a))
      | _ \<Rightarrow> [[absmax (concat W)]])"

definition absmax_ext :: externals where
  "absmax_ext =
     \<lparr>observe = (\<lambda>args r c W.
         \<lparr>obs_scale = absmax_table args r c W,
          obs_zero_point = map (map (\<lambda>x. 0)) (absmax_table args r c W)\<rparr>),
      calculate_qparams = (\<lambda>args q. ([absmax q], [0])),
      get_qparams_along_dim = (\<lambda>args r k Wg. (mk_mat r 1 (\<lambda>a b. absmax (Wg ! a)), zeros r 1)),
      fake_quantize = (\<lambda>x sc zp args.
         case sc of
           Tensor1 v \<Rightarrow> mk_vec (length x) (\<lambda>a. ternary (v ! a) (x ! a))
         | Tensor2 m \<Rightarrow> map (ternary (m ! 0 ! 0)) x
         | Tensor3 ms \<Rightarrow> x),
      SPARSITY_THRESHOLD = 1 / 20\<rparr>"

text \<open>
  A \<open>Linear\<close> layer with one output row and two input columns under the \<open>GROUP\<close>
  strategy with one group of size 2, and a positive-definite Hessian whose inverse has
  the upper Cholesky factor \<open>[[1, 3/4], [0, 1]]\<close>.
\<close>

definition group_args :: QuantizationArgs where
  "group_args = \<lparr>strategy = GROUP, actorder = None, group_size = 2\<rparr>"

definition group_hessian :: mat where
  "group_hessian = [[25 / 16, - (3 / 4)], [- (3 / 4), 1]]"

definition group_session :: session where
  "group_session =
     \<lparr>layer = linear_layer [[1, 4]] (Some group_args), rows = 1, columns = 2,
      H = Some group_hessian, n_samples = 1\<rparr>"

text \<open>
  The same layer under the \<open>TENSOR\<close> strategy, and layers with a single weight \<open>3\<close>
  under the \<open>TENSOR\<close> strategy and under the \<open>BLOCK\<close> strategy, which \<open>compress\<close> does
  not support.
\<close>

definition tensor_args :: QuantizationArgs where
  "tensor_args = \<lparr>strategy = TENSOR, actorder = None, group_size = 0\<rparr>"

definition block_args :: QuantizationArgs where
  "block_args = \<lparr>strategy = BLOCK, actorder = None, group_size = 0\<rparr>"

definition tensor_session :: session where
  "tensor_session =
     \<lparr>layer = linear_layer [[1, 4]] (Some tensor_args), rows = 1, columns = 2,
      H = Some group_hessian, n_samples = 1\<rparr>"

definition single_session :: "QuantizationArgs \<Rightarrow> mat \<Rightarrow> session" where
  "single_session args A =
     \<lparr>layer = linear_layer [[3]] (Some args), rows = 1, columns = 1,
      H = Some A, n_samples = 1\<rparr>"

text \<open>The observers and scan environments these sessions give rise to.\<close>

definition ob3 :: observer where
  "ob3 = \<lparr>obs_scale = [[3]], obs_zero_point = [[0]]\<rparr>"

definition ob4 :: observer where
  "ob4 = \<lparr>obs_scale = [[4]], obs_zero_point = [[0]]\<rparr>"

definition two_column_env :: "QuantizationArgs \<Rightarrow> nat list \<Rightarrow> scan_env" where
  "two_column_env args g =
     \<lparr>env_ext = absmax_ext, env_args = args, env_g_idx = g, env_rows = 1,
      env_columns = 2, env_Hinv = [[1, 3 / 4], [0, 1]], env_mask = None\<rparr>"

text \<open>
  The scenario of the \<open>GROUP\<close> activation ordering: four columns in groups of two and a
  diagonal Hessian with the diagonal \<open>[0.1, 0.9, 0.5, 0.2]\<close>.
\<close>

definition actorder_args :: QuantizationArgs where
  "actorder_args = \<lparr>strategy = GROUP, actorder = Some ActGROUP, group_size = 2\<rparr>"

definition scenario_hessian :: mat where
  "scenario_hessian =
     [[1 / 10, 0, 0, 0], [0, 9 / 10, 0, 0], [0, 0, 1 / 2, 0], [0, 0, 0, 1 / 5]]"

definition scenario_permuted :: mat where
  "scenario_permuted =
     [[9 / 10, 0, 0, 0], [0, 1 / 2, 0, 0], [0, 0, 1 / 5, 0], [0, 0, 0, 1 / 10]]"

definition scenario_session :: session where
  "scenario_session =
     \<lparr>layer = linear_layer [[1, 1, 1, 1]] (Some actorder_args), rows = 1, columns = 4,
      H = Some scenario_hessian, n_samples = 1\<rparr>"

definition ob11 :: observer where
  "ob11 = \<lparr>obs_scale = [[1, 1]], obs_zero_point = [[0, 0]]\<rparr>"

definition scenario_env :: scan_env where
  "scenario_env =
     \<lparr>env_ext = absmax_ext, env_args = actorder_args, env_g_idx = [0, 0, 1, 1],
      env_rows = 1, env_columns = 4,
      env_Hinv = [[sqrt (10 / 9), 0, 0, 0], [0, sqrt 2, 0, 0], [0, 0, sqrt 5, 0],
                  [0, 0, 0, sqrt 10]],
      env_mask = None\<rparr>"

text \<open>
  A sparse layer with two output rows: one of the four entries of its weight is zero,
  above the threshold \<open>1/20\<close> of the example, so that \<open>compress\<close> builds the mask
  \<open>[[1, 0], [1, 1]]\<close>.  The inverse of its Hessian has the upper Cholesky factor
  \<open>[[1, 3], [0, 4]]\<close>; the scale of the \<open>TENSOR\<close> strategy is 4, so the entry 1 is
  quantised to 0 with the error 1, of which three times as much is sent to the column
  of the zero entry.  The scan environment comes with the mask or without it.
\<close>

definition steep_hessian :: mat where
  "steep_hessian = [[25 / 16, - (3 / 16)], [- (3 / 16), 1 / 16]]"

definition sparse_session :: session where
  "sparse_session =
     \<lparr>layer = linear_layer [[1, 0], [4, 4]] (Some tensor_args), rows = 2, columns = 2,
      H = Some steep_hessian, n_samples = 1\<rparr>"

definition sparse_env :: "mat option \<Rightarrow> scan_env" where
  "sparse_env m =
     \<lparr>env_ext = absmax_ext, env_args = tensor_args, env_g_idx = [], env_rows = 2,
      env_columns = 2, env_Hinv = [[1, 3], [0, 4]], env_mask = m\<rparr>"

text \<open>
  A layer whose second input column was never observed: the Hessian is zero in row and
  column 1.  The factor of the repaired Hessian \<open>[[4, 0], [0, 1]]\<close> is
  \<open>[[1/2, 0], [0, 1]]\<close>.
\<close>

definition dead_hessian :: mat where
  "dead_hessian = [[4, 0], [0, 0]]"

definition dead_session :: session where
  "dead_session =
     \<lparr>layer = linear_layer [[3, 4]] (Some tensor_args), rows = 1, columns = 2,
      H = Some dead_hessian, n_samples = 1\<rparr>"

definition dead_env :: scan_env where
  "dead_env =
     \<lparr>env_ext = absmax_ext, env_args = tensor_args, env_g_idx = [], env_rows = 1,
      env_columns = 2, env_Hinv = [[1 / 2, 0], [0, 1]], env_mask = None\<rparr>"

section \<open>Tabulated tensors\<close>

lemma length_mk_vec [simp]: "length (mk_vec n f) = n"
  by (simp add: mk_vec_def)

lemma nth_mk_vec [simp]: "i < n \<Longrightarrow> mk_vec n f ! i = f i"
  by (simp add: mk_vec_def)

lemma length_mk_mat [simp]: "length (mk_mat r c f) = r"
  by (simp add: mk_mat_def)

lemma length_mk_mat_row [simp]: "i < r \<Longrightarrow> length (mk_mat r c f ! i) = c"
  by (simp add: mk_mat_def)

lemma nth_mk_mat [simp]: "i < r \<Longrightarrow> j < c \<Longrightarrow> mk_mat r c f ! i ! j = f i j"
  by (simp add: mk_mat_def)

lemma mk_mat_cong:
  "(\<And>i j. i < r \<Longrightarrow> j < c \<Longrightarrow> f i j = g i j) \<Longrightarrow> mk_mat r c f = mk_mat r c g"
  by (simp add: mk_mat_def)

lemma mk_vec_cong: "(\<And>i. i < n \<Longrightarrow> f i = g i) \<Longrightarrow> mk_vec n f = mk_vec n g"
  by (simp add: mk_vec_def)

lemma is_mat_mk_mat [simp]: "is_mat r c (mk_mat r c f)"
  by (simp add: is_mat_def mk_mat_def list_all_iff)

lemma is_mat_eq: "is_mat r c M \<Longrightarrow> M = mk_mat r c (\<lambda>i j. M ! i ! j)"
  unfolding is_mat_def mk_mat_def list_all_iff
  by (auto intro!: nth_equalityI)

lemma is_mat_nth_eqI:
  assumes "is_mat r c A" and "is_mat r c B"
    and "\<And>i j. i < r \<Longrightarrow> j < c \<Longrightarrow> A ! i ! j = B ! i ! j"
  shows "A = B"
proof -
  have "mk_mat r c (\<lambda>i j. A ! i ! j) = mk_mat r c (\<lambda>i j. B ! i ! j)"
    by (rule mk_mat_cong) (rule assms(3))
  with is_mat_eq[OF assms(1)] is_mat_eq[OF assms(2)] show ?thesis by simp
qed

lemma smul_mk_mat: "smul a (mk_mat r c f) = mk_mat r c (\<lambda>i j. a * f i j)"
  by (simp add: smul_def mk_mat_def)

lemma is_mat_smul [simp]: "is_mat r c (smul a M) = is_mat r c M"
  by (auto simp add: is_mat_def smul_def list_all_iff)

lemma nth_smul: "is_mat r c M \<Longrightarrow> i < r \<Longrightarrow> j < c \<Longrightarrow> smul a M ! i ! j = a * M ! i ! j"
  by (auto simp add: is_mat_def smul_def list_all_iff)

lemma is_mat_zeros [simp]: "is_mat r c (zeros r c)"
  by (simp add: zeros_def)

lemma nth_zeros [simp]: "i < r \<Longrightarrow> j < c \<Longrightarrow> zeros r c ! i ! j = 0"
  by (simp add: zeros_def)

lemma upt_1: "[0..<Suc 0] = [0]"
  by simp

lemma upt_2: "[0..<2] = [0, 1]"
  by (simp add: upt_conv_Cons)

lemma upt_3: "[0..<3] = [0, 1, 2]"
  by (simp add: upt_conv_Cons)

lemma upt_4: "[0..<4] = [0, 1, 2, 3]"
  by (simp add: upt_conv_Cons)

lemma col_cong: "(\<And>a. a < r \<Longrightarrow> A ! a ! i = B ! a ! j) \<Longrightarrow> col r A i = col r B j"
  unfolding col_def by (rule mk_vec_cong)

lemma nth_col [simp]: "a < r \<Longrightarrow> col r A i ! a = A ! a ! i"
  by (simp add: col_def)

lemma length_col [simp]: "length (col r A i) = r"
  by (simp add: col_def)

section \<open>The Hessian accumulator\<close>

lemma gram_smul: "is_mat c t X \<Longrightarrow> gram c t (smul a X) = smul (a * a) (gram c t X)"
  unfolding gram_def matmul_def transpose_t_def smul_mk_mat
  by (rule mk_mat_cong) (simp add: nth_smul sum_distrib_left algebra_simps)

lemma is_mat_reshaped [simp]: "is_mat c (length (tokens inp)) (reshaped c inp)"
  by (simp add: reshaped_def transpose_t_def)

lemma is_mat_gram [simp]: "is_mat c c (gram c t X)"
  by (simp add: gram_def matmul_def)

lemma reweight:
  fixes x g :: real
  assumes "0 < n"
  shows "real n / real (n + b) * (2 / real n * x) + 2 / real (n + b) * g
         = 2 / real (n + b) * (x + g)"
proof -
  have "real n / real (n + b) * (2 / real n * x) = 2 / real (n + b) * x"
    using assms by simp
  then show ?thesis by (simp add: distrib_left)
qed

text \<open>
  One successful \<open>add_batch\<close> on a matrix input keeps the invariant
  \<open>H = (2 / n) \<cdot> S\<close>, with \<open>S\<close> growing by the product of the reshaped input with its
  transpose.
\<close>

lemma add_batch_step:
  assumes inv: "H s = Some (smul (2 / real (n_samples s)) S)"
    and S: "is_mat c c S"
    and c: "columns s = c"
    and inp: "matrix_input c inp"
    and run: "add_batch s inp out = (Done, s')"
    and zero: "n_samples s = 0 \<Longrightarrow> S = zeros c c"
  shows "n_samples s' = n_samples s + leading_dim inp \<and> 0 < n_samples s' \<and>
         H s' = Some (smul (2 / real (n_samples s'))
                  (madd c c S (gram c (length (tokens inp)) (reshaped c inp)))) \<and>
         columns s' = c"
proof -
  let ?n = "n_samples s" and ?b = "leading_dim inp"
  let ?G = "gram c (length (tokens inp)) (reshaped c inp)"
  from inp have ld: "last_dim c inp = c" and not1: "\<And>v. inp \<noteq> Tensor1 v"
    by (auto simp: matrix_input_def split: tensor.splits)
  from run have pos: "?n + ?b \<noteq> 0"
    and lin: "kind (layer s) = Linear \<or> kind (layer s) = Conv1D"
    using not1 by (auto simp: add_batch_def Let_def inv split: if_splits tensor.splits)
  have sq: "sqrt (2 / real (?n + ?b)) * sqrt (2 / real (?n + ?b)) = 2 / real (?n + ?b)"
    by simp
  have G: "gram c (length (tokens inp)) (smul (sqrt (2 / real (?n + ?b))) (reshaped c inp))
           = smul (2 / real (?n + ?b)) ?G"
    by (simp only: gram_smul[OF is_mat_reshaped] sq)
  have s': "s' = s\<lparr>H := Some (madd c c
                 (smul (real ?n / real (?n + ?b)) (smul (2 / real ?n) S))
                 (smul (2 / real (?n + ?b)) ?G)), n_samples := ?n + ?b\<rparr>"
    using run pos lin not1 unfolding add_batch_def Let_def inv c ld G
    by (auto simp: iadd_def split: if_splits tensor.splits)
  have "madd c c (smul (real ?n / real (?n + ?b)) (smul (2 / real ?n) S))
          (smul (2 / real (?n + ?b)) ?G)
        = smul (2 / real (?n + ?b)) (madd c c S ?G)"
  proof (rule is_mat_nth_eqI[of c c])
    fix i j assume ij: "i < c" "j < c"
    show "madd c c (smul (real ?n / real (?n + ?b)) (smul (2 / real ?n) S))
            (smul (2 / real (?n + ?b)) ?G) ! i ! j
          = smul (2 / real (?n + ?b)) (madd c c S ?G) ! i ! j"
    proof (cases "?n = 0")
      case True
      with zero have "S = zeros c c" by simp
      then show ?thesis using ij True
        by (simp add: madd_def nth_smul[of c c])
    next
      case False
      then show ?thesis using ij S
        by (simp add: madd_def nth_smul[of c c] add_divide_distrib del: of_nat_add)
    qed
  qed (simp_all add: madd_def S)
  with s' pos show ?thesis by (simp add: c)
qed

lemma add_batches_inv:
  assumes "add_batches s bs = (Done, s')"
    and "H s = Some (smul (2 / real (n_samples s)) S)"
    and "is_mat c c S"
    and "columns s = c"
    and "list_all (\<lambda>b. matrix_input c (fst b)) bs"
    and "n_samples s = 0 \<Longrightarrow> S = zeros c c"
  shows "n_samples s' = n_samples s + sum_list (map (\<lambda>b. leading_dim (fst b)) bs) \<and>
         H s' = Some (smul (2 / real (n_samples s'))
           (foldl (\<lambda>S inp. madd c c S (gram c (length (tokens inp)) (reshaped c inp))) S
              (map fst bs)))"
  using assms
proof (induction bs arbitrary: s S)
  case Nil
  then show ?case by simp
next
  case (Cons b bs)
  obtain inp out where b: "b = (inp, out)" by (cases b)
  from Cons.prems(1) obtain s1 where s1: "add_batch s inp out = (Done, s1)"
    and rest: "add_batches s1 bs = (Done, s')"
    by (auto simp: b split: prod.splits outcome.splits)
  from Cons.prems(5) have ld: "matrix_input c inp" by (simp add: b)
  note st = add_batch_step[OF Cons.prems(2) Cons.prems(3) Cons.prems(4) ld s1 Cons.prems(6)]
  have "n_samples s' = n_samples s1 + sum_list (map (\<lambda>b. leading_dim (fst b)) bs) \<and>
         H s' = Some (smul (2 / real (n_samples s'))
           (foldl (\<lambda>S inp. madd c c S (gram c (length (tokens inp)) (reshaped c inp)))
              (madd c c S (gram c (length (tokens inp)) (reshaped c inp))) (map fst bs)))"
  proof (rule Cons.IH[OF rest])
    show "H s1 = Some (smul (2 / real (n_samples s1))
        (madd c c S (gram c (length (tokens inp)) (reshaped c inp))))" using st by blast
    show "is_mat c c (madd c c S (gram c (length (tokens inp)) (reshaped c inp)))"
      by (simp add: madd_def)
    show "columns s1 = c" using st by blast
    show "list_all (\<lambda>b. matrix_input c (fst b)) bs" using Cons.prems(5) by simp
    show "madd c c S (gram c (length (tokens inp)) (reshaped c inp)) = zeros c c"
      if "n_samples s1 = 0" using st that by simp
  qed
  then show ?case using st by (simp add: b)
qed

lemma gram_reshaped_entry:
  assumes "i < c" "j < c"
  shows "gram c (length (tokens inp)) (reshaped c inp) ! i ! j
         = (\<Sum>x\<leftarrow>tokens inp. x ! i * x ! j)"
proof -
  let ?T = "tokens inp"
  have "gram c (length ?T) (reshaped c inp) ! i ! j
        = (\<Sum>l = 0..<length ?T. ?T ! l ! i * ?T ! l ! j)"
    using assms by (simp add: gram_def matmul_def reshaped_def transpose_t_def)
  also have "\<dots> = (\<Sum>l = 0..<length ?T. map (\<lambda>x. x ! i * x ! j) ?T ! l)"
    by (rule sum.cong) simp_all
  also have "\<dots> = (\<Sum>x\<leftarrow>?T. x ! i * x ! j)"
    using sum_list_sum_nth[of "map (\<lambda>x. x ! i * x ! j) ?T"] by simp
  finally show ?thesis .
qed

lemma tokens_sum:
  "(\<Sum>x\<leftarrow>tokens inp. f x)
   = (case inp of Tensor1 v \<Rightarrow> 0 | Tensor2 m \<Rightarrow> (\<Sum>x\<leftarrow>m. f x)
      | Tensor3 ms \<Rightarrow> (\<Sum>m\<leftarrow>ms. \<Sum>x\<leftarrow>m. f x))"
proof -
  have "(\<Sum>x\<leftarrow>concat ms. f x) = (\<Sum>m\<leftarrow>ms. \<Sum>x\<leftarrow>m. f x)" for ms :: "real list list list"
    by (induction ms) simp_all
  then show ?thesis by (simp add: tokens_def split: tensor.splits)
qed

lemma foldl_madd_entry:
  assumes "i < c" "j < c"
  shows "foldl (\<lambda>S inp. madd c c S (G inp)) S0 inps ! i ! j
         = S0 ! i ! j + (\<Sum>inp\<leftarrow>inps. G inp ! i ! j)"
  using assms by (induction inps arbitrary: S0) (simp_all add: madd_def)

lemma is_mat_foldl_madd:
  "is_mat c c S0 \<Longrightarrow> is_mat c c (foldl (\<lambda>S inp. madd c c S (G inp)) S0 inps)"
  by (induction inps arbitrary: S0) (simp_all add: madd_def)

lemma gram_sum_entry:
  assumes "i < c" "j < c"
  shows "gram_sum c inps ! i ! j
         = (\<Sum>inp\<leftarrow>inps. case inp of Tensor1 v \<Rightarrow> 0 | Tensor2 m \<Rightarrow> (\<Sum>x\<leftarrow>m. x ! i * x ! j)
              | Tensor3 ms \<Rightarrow> (\<Sum>m\<leftarrow>ms. \<Sum>x\<leftarrow>m. x ! i * x ! j))"
  using assms
  by (simp add: gram_sum_def foldl_madd_entry gram_reshaped_entry tokens_sum)

lemma is_mat_gram_sum [simp]: "is_mat c c (gram_sum c inps)"
  by (simp add: gram_sum_def is_mat_foldl_madd)

lemma smul_gram_sum:
  "smul a (gram_sum c inps)
   = mk_mat c c (\<lambda>i j. a * (\<Sum>inp\<leftarrow>inps. case inp of Tensor1 v \<Rightarrow> 0
          | Tensor2 m \<Rightarrow> (\<Sum>x\<leftarrow>m. x ! i * x ! j)
          | Tensor3 ms \<Rightarrow> (\<Sum>m\<leftarrow>ms. \<Sum>x\<leftarrow>m. x ! i * x ! j)))"
  by (rule is_mat_nth_eqI[of c c]) (simp_all add: nth_smul[of c c] gram_sum_entry)

lemma add_batches_gram_sum:
  assumes "fst (add_batches (init_session l r c) bs) = Done"
    and "list_all (\<lambda>b. matrix_input c (fst b)) bs"
  shows "n_samples (snd (add_batches (init_session l r c) bs))
           = sum_list (map (\<lambda>b. leading_dim (fst b)) bs) \<and>
         H (snd (add_batches (init_session l r c) bs))
           = Some (smul (2 / real (n_samples (snd (add_batches (init_session l r c) bs))))
                     (gram_sum c (map fst bs)))"
proof -
  obtain s' where s': "add_batches (init_session l r c) bs = (Done, s')"
    using assms(1) by (cases "add_batches (init_session l r c) bs") auto
  have "H (init_session l r c)
        = Some (smul (2 / real (n_samples (init_session l r c))) (zeros c c))"
    by (simp add: init_session_def zeros_def smul_mk_mat)
  from add_batches_inv[OF s' this _ _ assms(2)]
  have "n_samples s' = sum_list (map (\<lambda>b. leading_dim (fst b)) bs) \<and>
        H s' = Some (smul (2 / real (n_samples s')) (gram_sum c (map fst bs)))"
    by (simp add: gram_sum_def) (simp add: init_session_def)
  then show ?thesis by (simp add: s')
qed

text \<open>
  C2.  From a fresh session (\<open>H = 0\<close>, \<open>n = 0\<close>), after any sequence of \<open>add_batch\<close>
  calls that all return, on 2-D or 3-D inputs of the layer's width, the sample count
  is the sum of the batch counts \<open>b\<^sub>1 + ... + b\<^sub>k\<close> (1 for a 2-D input, the size of
  the leading dimension for a 3-D input), and entry \<open>(i, j)\<close> of \<open>H\<close> is \<open>2 / n\<close> times
  the sum of \<open>x[i] * x[j]\<close> over every token row \<open>x\<close> of every input, which is
  \<open>H = (2 / n) \<cdot> (X\<^sub>1\<cdot>X\<^sub>1\<^sup>t + ... + X\<^sub>k\<cdot>X\<^sub>k\<^sup>t)\<close> for the reshaped inputs \<open>X\<^sub>i\<close>.
  The equality is over the reals; for the empty sequence both sides are the zero
  matrix.  In the witness the token rows are 1, 2 and then 1, 3, the count goes from
  1 to 3, and \<open>H\<close> ends as \<open>(2 / 3) \<cdot> (1 + 4 + 1 + 9) = 10\<close>.
\<close>

theorem hessian_accumulator_invariant:
  assumes "fst (add_batches (init_session l r c) bs) = Done"
    and "list_all (\<lambda>b. matrix_input c (fst b)) bs"
  shows "n_samples (snd (add_batches (init_session l r c) bs))
           = (\<Sum>b\<leftarrow>bs. case fst b of Tensor1 v \<Rightarrow> length v | Tensor2 m \<Rightarrow> 1
                | Tensor3 ms \<Rightarrow> length ms) \<and>
         H (snd (add_batches (init_session l r c) bs))
           = Some (mk_mat c c (\<lambda>i j.
               2 / real (n_samples (snd (add_batches (init_session l r c) bs)))
               * (\<Sum>b\<leftarrow>bs. case fst b of Tensor1 v \<Rightarrow> 0
                    | Tensor2 m \<Rightarrow> (\<Sum>x\<leftarrow>m. x ! i * x ! j)
                    | Tensor3 ms \<Rightarrow> (\<Sum>m\<leftarrow>ms. \<Sum>x\<leftarrow>m. x ! i * x ! j)))) \<and>
         H (snd (add_batches (init_session l r c) bs))
           = Some (smul (2 / real (n_samples (snd (add_batches (init_session l r c) bs))))
                     (gram_sum c (map fst bs)))"
  using add_batches_gram_sum[OF assms]
  by (simp add: smul_gram_sum leading_dim_def comp_def)

theorem hessian_accumulator_invariant_witness:
  "fst (add_batches (init_session (linear_layer [[1]] None) 1 1) two_batches) = Done \<and>
   list_all (\<lambda>b. matrix_input 1 (fst b)) two_batches \<and>
   two_batches = [(Tensor2 [[1], [2]], Tensor2 []), (Tensor3 [[[1]], [[3]]], Tensor2 [])] \<and>
   n_samples (snd (add_batches (init_session (linear_layer [[1]] None) 1 1) two_batches)) = 3 \<and>
   H (snd (add_batches (init_session (linear_layer [[1]] None) 1 1) two_batches))
     = Some [[10]]"
proof -
  have h1: "fst (add_batches (init_session (linear_layer [[1]] None) 1 1) two_batches) = Done"
    by (simp add: two_batches_def init_session_def linear_layer_def add_batch_def Let_def
          leading_dim_def tokens_def last_dim_def iadd_def)
  have h2: "list_all (\<lambda>b. matrix_input 1 (fst b)) two_batches"
    by (simp add: two_batches_def matrix_input_def last_dim_def tokens_def)
  have n: "(\<Sum>b\<leftarrow>two_batches. case fst b of Tensor1 v \<Rightarrow> length v | Tensor2 m \<Rightarrow> 1
                | Tensor3 ms \<Rightarrow> length ms) = 3"
    by (simp add: two_batches_def)
  have v: "mk_mat 1 1 (\<lambda>i j. 2 / real (3::nat)
               * (\<Sum>b\<leftarrow>two_batches. case fst b of Tensor1 v \<Rightarrow> 0
                    | Tensor2 m \<Rightarrow> (\<Sum>x\<leftarrow>m. x ! i * x ! j)
                    | Tensor3 ms \<Rightarrow> (\<Sum>m\<leftarrow>ms. \<Sum>x\<leftarrow>m. x ! i * x ! j))) = [[10]]"
    by (simp add: two_batches_def mk_mat_def)
  let ?s = "snd (add_batches (init_session (linear_layer [[1]] None) 1 1) two_batches)"
  note t = hessian_accumulator_invariant[OF h1 h2, unfolded n]
  from t have nn: "n_samples ?s = 3" by (rule conjunct1)
  from t have "H ?s = Some (mk_mat 1 1 (\<lambda>i j. 2 / real (n_samples ?s)
               * (\<Sum>b\<leftarrow>two_batches. case fst b of Tensor1 v \<Rightarrow> 0
                    | Tensor2 m \<Rightarrow> (\<Sum>x\<leftarrow>m. x ! i * x ! j)
                    | Tensor3 ms \<Rightarrow> (\<Sum>m\<leftarrow>ms. \<Sum>x\<leftarrow>m. x ! i * x ! j))))"
    by blast
  then have hv: "H ?s = Some [[10]]" unfolding nn v .
  show ?thesis using h1 h2 nn hv by (simp add: two_batches_def)
qed

text \<open>
  C10.  A call of \<open>add_batch\<close> that returns increments the sample count by the size of
  the input's leading dimension, read before the reshape: by 1 for a 2-D input
  \<open>[t, columns]\<close> whatever \<open>t\<close> is, by \<open>b\<close> for a 3-D input \<open>[b, t, columns]\<close>; the
  number of input vectors that enter the product \<open>X\<cdot>X\<^sup>t\<close> is \<open>t\<close>, respectively
  the sum of the \<open>t\<close> of the batch items.
\<close>

theorem add_batch_counts_leading_dim:
  assumes "fst (add_batch s inp out) = Done"
  shows "n_samples (snd (add_batch s inp out))
           = n_samples s
             + (case inp of Tensor1 v \<Rightarrow> length v | Tensor2 m \<Rightarrow> 1 | Tensor3 ms \<Rightarrow> length ms) \<and>
         length (tokens inp)
           = (case inp of Tensor1 v \<Rightarrow> 0 | Tensor2 m \<Rightarrow> length m
              | Tensor3 ms \<Rightarrow> sum_list (map length ms))"
  using assms
  by (auto simp: add_batch_def Let_def leading_dim_def tokens_def length_concat
           split: option.splits if_splits sum.splits tensor.splits)

theorem add_batch_counts_leading_dim_witness:
  "fst (add_batch (init_session (linear_layer [[1]] None) 1 1)
          (Tensor2 [[1], [2], [3]]) (Tensor2 [])) = Done \<and>
   n_samples (snd (add_batch (init_session (linear_layer [[1]] None) 1 1)
          (Tensor2 [[1], [2], [3]]) (Tensor2 []))) = 1 \<and>
   length (tokens (Tensor2 [[1], [2], [3]])) = 3"
proof -
  have h1: "fst (add_batch (init_session (linear_layer [[1]] None) 1 1)
              (Tensor2 [[1], [2], [3]]) (Tensor2 [])) = Done"
    by (simp add: init_session_def linear_layer_def add_batch_def Let_def
          leading_dim_def tokens_def last_dim_def iadd_def)
  show ?thesis using add_batch_counts_leading_dim[OF h1] h1 by (simp add: init_session_def)
qed

section \<open>Activation ordering\<close>

lemma is_perm_length: "is_perm n p \<Longrightarrow> length p = n"
  unfolding is_perm_def using distinct_card[of p] by auto

lemma is_perm_set: "is_perm n p \<Longrightarrow> set p = {0..<n}"
  unfolding is_perm_def by simp

lemma is_perm_distinct: "is_perm n p \<Longrightarrow> distinct p"
  unfolding is_perm_def by simp

lemma is_perm_nth_less: "is_perm n p \<Longrightarrow> i < n \<Longrightarrow> p ! i < n"
  using is_perm_set[of n p] is_perm_length[of n p] nth_mem[of i p] by auto

lemma argsort_inverse_right:
  assumes "is_perm n p" "i < n"
  shows "p ! (argsort p ! i) = i"
proof -
  have len: "length p = n" by (rule is_perm_length[OF assms(1)])
  let ?ip = "argsort p"
  have "sorted (map (\<lambda>i. p ! i) ?ip)" by (simp add: argsort_def)
  moreover have "distinct (map (\<lambda>i. p ! i) ?ip)"
    unfolding argsort_def distinct_map
    using is_perm_distinct[OF assms(1)]
    by (auto simp: inj_on_def nth_eq_iff_index_eq)
  moreover have "set (map (\<lambda>i. p ! i) ?ip) = set [0..<n]"
  proof -
    have "set (map (\<lambda>i. p ! i) ?ip) = set (map (\<lambda>i. p ! i) [0..<length p])"
      by (simp add: argsort_def)
    also have "\<dots> = set p" by (simp only: map_nth)
    finally show ?thesis using is_perm_set[OF assms(1)] by simp
  qed
  ultimately have "map (\<lambda>i. p ! i) ?ip = [0..<n]"
    by (intro sorted_distinct_set_unique) simp_all
  moreover have "length ?ip = n" by (simp add: argsort_def len)
  ultimately show ?thesis using assms(2)
    by (metis nth_map nth_upt add_0)
qed

lemma argsort_is_perm: "length p = n \<Longrightarrow> is_perm n (argsort p)"
  by (auto simp add: is_perm_def argsort_def)

lemma argsort_descending_is_perm: "length d = n \<Longrightarrow> is_perm n (argsort_descending d)"
  by (auto simp add: is_perm_def argsort_descending_def)

lemma argsort_inverse_left:
  assumes "is_perm n p" "i < n"
  shows "argsort p ! (p ! i) = i"
proof -
  have len: "length p = n" by (rule is_perm_length[OF assms(1)])
  have pi: "p ! i < n" by (rule is_perm_nth_less[OF assms])
  have ip: "is_perm n (argsort p)" by (rule argsort_is_perm[OF len])
  have "argsort p ! (p ! i) < n" by (rule is_perm_nth_less[OF ip pi])
  moreover have "p ! (argsort p ! (p ! i)) = p ! i" by (rule argsort_inverse_right[OF assms(1) pi])
  ultimately show ?thesis
    using is_perm_distinct[OF assms(1)] assms(2) len nth_eq_iff_index_eq by blast
qed

text \<open>
  C4.  For every Hessian \<open>A\<close> of order \<open>c\<close> and weight \<open>W\<close> of shape \<open>[r, c]\<close>, the
  permutation \<open>perm = argsort(diag(A), descending)\<close> and \<open>invperm = argsort(perm)\<close> of
  \<open>_apply_activation_ordering\<close> satisfy \<open>invperm[perm[i]] = i\<close> for every index, and
  permuting the returned \<open>W[:, perm]\<close> and \<open>A[perm][:, perm]\<close> by \<open>invperm\<close> gives \<open>W\<close>
  and \<open>A\<close> back.  The proof uses of \<open>argsort\<close> only that its result lists every
  index once, so the order chosen among equal diagonal entries does not matter.
\<close>

theorem permutation_round_trip:
  assumes "is_mat r c W" and "is_mat c c A"
  shows "case apply_activation_ordering r c W A of
           (W', A', perm, invperm) \<Rightarrow>
             (\<forall>i<c. invperm ! (perm ! i) = i) \<and>
             index_cols r W' invperm = W \<and>
             index_rows_cols A' invperm = A"
proof -
  let ?p = "argsort_descending (diag c A)"
  let ?ip = "argsort ?p"
  have p: "is_perm c ?p" by (rule argsort_descending_is_perm) (simp add: diag_def)
  have lp: "length ?p = c" by (rule is_perm_length[OF p])
  have ip: "is_perm c ?ip" by (rule argsort_is_perm[OF lp])
  have lip: "length ?ip = c" by (rule is_perm_length[OF ip])
  have left: "\<And>i. i < c \<Longrightarrow> ?ip ! (?p ! i) = i" by (rule argsort_inverse_left[OF p])
  have right: "\<And>i. i < c \<Longrightarrow> ?p ! (?ip ! i) = i" by (rule argsort_inverse_right[OF p])
  have lt: "\<And>i. i < c \<Longrightarrow> ?ip ! i < c" by (rule is_perm_nth_less[OF ip])
  have W: "index_cols r (index_cols r W ?p) ?ip = W"
    by (rule is_mat_nth_eqI[OF _ assms(1)]) (simp_all add: index_cols_def lip lp lt right)
  have A: "index_rows_cols (index_rows_cols A ?p) ?ip = A"
    by (rule is_mat_nth_eqI[OF _ assms(2)]) (simp_all add: index_rows_cols_def lip lp lt right)
  show ?thesis
    by (simp add: apply_activation_ordering_def Let_def left W A)
qed


theorem permutation_round_trip_witness:
  "is_mat 1 2 [[1, 2]] \<and> is_mat 2 2 [[1, 0], [0, 4]] \<and>
   apply_activation_ordering 1 2 [[1, 2]] [[1, 0], [0, 4]]
     = ([[2, 1]], [[4, 0], [0, 1]], [1, 0], [1, 0]) \<and>
   [1, 0] ! ([1, 0] ! 0) = (0::nat) \<and> [1, 0] ! ([1, 0] ! 1) = (1::nat) \<and>
   index_cols 1 [[2, 1]] [1, 0] = [[1, 2]] \<and>
   index_rows_cols [[4, 0], [0, 1]] [1, 0] = [[1, 0], [0, 4]]"
proof -
  have h1: "is_mat 1 2 [[1, 2]]" by (simp add: is_mat_def)
  have h2: "is_mat 2 2 [[1, 0], [0, 4]]" by (simp add: is_mat_def)
  have e: "apply_activation_ordering 1 2 [[1, 2]] [[1, 0], [0, 4]]
           = ([[2, 1]], [[4, 0], [0, 1]], [1, 0], [1, 0])"
    by (simp add: apply_activation_ordering_def Let_def diag_def mk_vec_def mk_mat_def
          argsort_descending_def argsort_def index_cols_def index_rows_cols_def upt_2)
  show ?thesis using permutation_round_trip[OF h1 h2, unfolded e] h1 h2 e by simp
qed

section \<open>The blockwise scan against the scan one column at a time\<close>

lemma for_range_1: "for_range (Suc 0) body s = body 0 s"
  by simp

lemma for_range_2:
  "for_range 2 body s = (case body 0 s of Inl e \<Rightarrow> Inl e | Inr s' \<Rightarrow> body (Suc 0) s')"
  by (simp add: numeral_2_eq_2)

lemma for_range_add:
  "for_range (n + m) f s =
     (case for_range n f s of Inl e \<Rightarrow> Inl e | Inr s' \<Rightarrow> for_range m (\<lambda>i. f (n + i)) s')"
  by (induction m) (auto split: sum.splits)

lemma for_range_cong:
  "(\<And>i s. i < n \<Longrightarrow> f i s = g i s) \<Longrightarrow> for_range n f s = for_range n g s"
  by (induction n) (auto split: sum.splits)

lemma quantize_column_indep:
  "strategy args \<noteq> GROUP \<Longrightarrow>
   quantize_column ext args g r c W j q obs = quantize_column ext args g r c W' j q obs"
  by (cases "strategy args") (simp_all add: quantize_column_def)

lemma masked_add: "masked m a b (x + y) = masked m a b x + masked m a b y"
  by (simp add: masked_def distrib_right split: option.splits)

lemma masked_0 [simp]: "masked m a b 0 = 0"
  by (simp add: masked_def split: option.splits)

lemma column_pass_shape:
  "column_pass env j (W, obs) = Inr (W', obs') \<Longrightarrow> is_mat (env_rows env) (env_columns env) W'"
  by (auto simp: column_pass_def Let_def split: sum.splits if_splits prod.splits)

lemma for_range_column_pass_shape:
  "is_mat (env_rows env) (env_columns env) W \<Longrightarrow>
   for_range k (\<lambda>m. column_pass env (f m)) (W, obs) = Inr (W', obs') \<Longrightarrow>
   is_mat (env_rows env) (env_columns env) W'"
proof (induction k arbitrary: W' obs')
  case 0 then show ?case by simp
next
  case (Suc k)
  then show ?case
    by (auto split: sum.splits dest: column_pass_shape)
qed


lemma inner_loop_matches:
  fixes env :: scan_env and i1 bs :: nat and W :: mat and obs :: observer
  defines "r \<equiv> env_rows env" and "c \<equiv> env_columns env"
  defines "i2 \<equiv> min (i1 + bs) c"
  defines "count \<equiv> i2 - i1"
  defines "init \<equiv> (mk_mat r count (\<lambda>a b. W ! a ! (i1 + b)), zeros r count, zeros r count, obs)"
  assumes ng: "strategy (env_args env) \<noteq> GROUP" and W: "is_mat r c W"
    and i1: "i1 \<le> c" and k: "k \<le> count"
  shows "case for_range k (\<lambda>m. column_pass env (i1 + m)) (W, obs) of
           Inl e \<Rightarrow> for_range k (column_step env i1 count W) init = Inl e
         | Inr (Wk, obsk) \<Rightarrow>
             \<exists>W1 Q1 Err1.
               for_range k (column_step env i1 count W) init = Inr (W1, Q1, Err1, obsk) \<and>
               is_mat r c Wk \<and>
               (\<forall>a<r. \<forall>b<count.
                  (b < k \<longrightarrow> Q1 ! a ! b = Wk ! a ! (i1 + b)) \<and>
                  (k \<le> b \<longrightarrow> W1 ! a ! b = Wk ! a ! (i1 + b))) \<and>
               (\<forall>a<r. \<forall>b<c.
                  (b < i1 \<longrightarrow> Wk ! a ! b = W ! a ! b) \<and>
                  (i2 \<le> b \<longrightarrow> Wk ! a ! b = W ! a ! b
                      - masked (env_mask env) a b
                          (\<Sum>m = 0..<k. Err1 ! a ! m * env_Hinv env ! (i1 + m) ! b)))"
  using k
proof (induction k)
  case 0
  show ?case using W by (simp add: init_def)
next
  case (Suc k)
  then have k: "k < count" and IH: "case for_range k (\<lambda>m. column_pass env (i1 + m)) (W, obs) of
           Inl e \<Rightarrow> for_range k (column_step env i1 count W) init = Inl e
         | Inr (Wk, obsk) \<Rightarrow>
             \<exists>W1 Q1 Err1.
               for_range k (column_step env i1 count W) init = Inr (W1, Q1, Err1, obsk) \<and>
               is_mat r c Wk \<and>
               (\<forall>a<r. \<forall>b<count.
                  (b < k \<longrightarrow> Q1 ! a ! b = Wk ! a ! (i1 + b)) \<and>
                  (k \<le> b \<longrightarrow> W1 ! a ! b = Wk ! a ! (i1 + b))) \<and>
               (\<forall>a<r. \<forall>b<c.
                  (b < i1 \<longrightarrow> Wk ! a ! b = W ! a ! b) \<and>
                  (i2 \<le> b \<longrightarrow> Wk ! a ! b = W ! a ! b
                      - masked (env_mask env) a b
                          (\<Sum>m = 0..<k. Err1 ! a ! m * env_Hinv env ! (i1 + m) ! b)))"
    by simp_all
  have bounds: "i1 + k < i2" "i2 \<le> c" "i1 + count = i2"
    using k i1 by (auto simp: count_def i2_def)
  show ?case
  proof (cases "for_range k (\<lambda>m. column_pass env (i1 + m)) (W, obs)")
    case (Inl e)
    with IH show ?thesis by simp
  next
    case (Inr st)
    obtain Wk obsk where st: "st = (Wk, obsk)" by (cases st)
    from IH Inr st obtain W1 Q1 Err1 where
      I: "for_range k (column_step env i1 count W) init = Inr (W1, Q1, Err1, obsk)"
      and Wk: "is_mat r c Wk"
      and blk: "\<And>a b. a < r \<Longrightarrow> b < count \<Longrightarrow> b < k \<Longrightarrow> Q1 ! a ! b = Wk ! a ! (i1 + b)"
               "\<And>a b. a < r \<Longrightarrow> b < count \<Longrightarrow> k \<le> b \<Longrightarrow> W1 ! a ! b = Wk ! a ! (i1 + b)"
      and out: "\<And>a b. a < r \<Longrightarrow> b < c \<Longrightarrow> b < i1 \<Longrightarrow> Wk ! a ! b = W ! a ! b"
               "\<And>a b. a < r \<Longrightarrow> b < c \<Longrightarrow> i2 \<le> b \<Longrightarrow> Wk ! a ! b = W ! a ! b
                      - masked (env_mask env) a b
                          (\<Sum>m = 0..<k. Err1 ! a ! m * env_Hinv env ! (i1 + m) ! b)"
      by auto
    have w: "col r W1 k = col r Wk (i1 + k)"
      by (rule col_cong) (simp add: blk(2) k)
    let ?w = "col r Wk (i1 + k)"
    let ?d = "env_Hinv env ! (i1 + k) ! (i1 + k)"
    let ?qc = "quantize_column (env_ext env) (env_args env) (env_g_idx env) r c Wk (i1 + k) ?w obsk"
    have qc: "quantize_column (env_ext env) (env_args env) (env_g_idx env) r c W (i1 + k) ?w obsk = ?qc"
      by (rule quantize_column_indep[OF ng])
    have Rs: "for_range (Suc k) (\<lambda>m. column_pass env (i1 + m)) (W, obs)
              = column_pass env (i1 + k) (Wk, obsk)"
      by (simp only: for_range.simps Inr st sum.case)
    have Is: "for_range (Suc k) (column_step env i1 count W) init
              = column_step env i1 count W k (W1, Q1, Err1, obsk)"
      by (simp only: for_range.simps I sum.case)
    show ?thesis
    proof (cases ?qc)
      case (Inl e)
      have "column_pass env (i1 + k) (Wk, obsk) = Inl e"
        by (simp add: column_pass_def Let_def Inl r_def[symmetric] c_def[symmetric])
      moreover have "column_step env i1 count W k (W1, Q1, Err1, obsk) = Inl e"
        by (simp add: column_step_def Let_def w qc Inl r_def[symmetric] c_def[symmetric])
      ultimately show ?thesis unfolding Rs Is by simp
    next
      case qr: (Inr res)
      obtain q obs' where res: "res = (q, obs')" by (cases res)
      show ?thesis
      proof (cases "length q = r")
        case False
        have "column_pass env (i1 + k) (Wk, obsk) = Inl RuntimeError"
          using False
          by (simp add: column_pass_def Let_def qr res r_def[symmetric] c_def[symmetric])
        moreover have "column_step env i1 count W k (W1, Q1, Err1, obsk) = Inl RuntimeError"
          using False
          by (simp add: column_step_def Let_def w qc qr res r_def[symmetric] c_def[symmetric])
        ultimately show ?thesis unfolding Rs Is by simp
      next
        case True
        let ?err = "mk_vec r (\<lambda>a. (?w ! a - q ! a) / ?d)"
        let ?Wk' = "mk_mat r c (\<lambda>a b.
                            if b = i1 + k then q ! a
                            else if i1 + k < b
                            then Wk ! a ! b
                                   - masked (env_mask env) a b
                                       ((?w ! a - q ! a) / ?d * env_Hinv env ! (i1 + k) ! b)
                            else Wk ! a ! b)"
        let ?Q1' = "mk_mat r count (\<lambda>a b. if b = k then q ! a else Q1 ! a ! b)"
        let ?W1' = "mk_mat r count (\<lambda>a b.
                             if k \<le> b
                             then W1 ! a ! b
                                    - masked (env_mask env) a (i1 + b)
                                        (?err ! a * env_Hinv env ! (i1 + k) ! (i1 + b))
                             else W1 ! a ! b)"
        let ?Err1' = "mk_mat r count (\<lambda>a b. if b = k then ?err ! a else Err1 ! a ! b)"
        have R': "for_range (Suc k) (\<lambda>m. column_pass env (i1 + m)) (W, obs) = Inr (?Wk', obs')"
          unfolding Rs
          by (simp add: column_pass_def Let_def qr res True r_def[symmetric] c_def[symmetric])
        have I': "for_range (Suc k) (column_step env i1 count W) init = Inr (?W1', ?Q1', ?Err1', obs')"
          unfolding Is
          by (simp add: column_step_def Let_def w qc qr res True r_def[symmetric] c_def[symmetric])
        have A: "\<forall>a<r. \<forall>b<count.
                  (b < Suc k \<longrightarrow> ?Q1' ! a ! b = ?Wk' ! a ! (i1 + b)) \<and>
                  (Suc k \<le> b \<longrightarrow> ?W1' ! a ! b = ?Wk' ! a ! (i1 + b))"
          using bounds by (auto simp: blk)
        have B: "\<forall>a<r. \<forall>b<c.
                  (b < i1 \<longrightarrow> ?Wk' ! a ! b = W ! a ! b) \<and>
                  (i2 \<le> b \<longrightarrow> ?Wk' ! a ! b = W ! a ! b
                      - masked (env_mask env) a b
                          (\<Sum>m = 0..<Suc k. ?Err1' ! a ! m * env_Hinv env ! (i1 + m) ! b))"
        proof (intro allI impI conjI)
          fix a b assume ab: "a < r" "b < c" 
          show "?Wk' ! a ! b = W ! a ! b" if "b < i1"
            using that ab by (simp add: out(1))
          show "?Wk' ! a ! b = W ! a ! b
                      - masked (env_mask env) a b
                          (\<Sum>m = 0..<Suc k. ?Err1' ! a ! m * env_Hinv env ! (i1 + m) ! b)"
            if "i2 \<le> b"
          proof -
            have "(\<Sum>m = 0..<k. ?Err1' ! a ! m * env_Hinv env ! (i1 + m) ! b)
                 = (\<Sum>m = 0..<k. Err1 ! a ! m * env_Hinv env ! (i1 + m) ! b)"
              by (rule sum.cong) (use ab k in auto)
            moreover have "?Err1' ! a ! k = (?w ! a - q ! a) / ?d"
              using ab k by simp
            ultimately show ?thesis
              using that ab bounds by (simp add: out(2) masked_add)
          qed
        qed
        show ?thesis
          unfolding R' I' using A B by simp
      qed
    qed
  qed
qed


lemma block_step_eq_column_passes:
  fixes env :: scan_env
  defines "r \<equiv> env_rows env" and "c \<equiv> env_columns env"
  assumes ng: "strategy (env_args env) \<noteq> GROUP" and W: "is_mat r c W" and i1: "i1 \<le> c"
  shows "block_step env bs i1 (W, obs)
         = for_range (min (i1 + bs) c - i1) (\<lambda>m. column_pass env (i1 + m)) (W, obs)"
proof -
  let ?i2 = "min (i1 + bs) c"
  let ?count = "?i2 - i1"
  let ?init = "(mk_mat r ?count (\<lambda>a b. W ! a ! (i1 + b)), zeros r ?count, zeros r ?count, obs)"
  let ?R = "for_range ?count (\<lambda>m. column_pass env (i1 + m)) (W, obs)"
  let ?I = "for_range ?count (column_step env i1 ?count W) ?init"
  have B: "block_step env bs i1 (W, obs) =
     (case ?I of
             Inl e \<Rightarrow> Inl e
           | Inr (W1', Q1', Err1', obs') \<Rightarrow>
               let Wq = mk_mat r c (\<lambda>a b.
                          if i1 \<le> b \<and> b < ?i2 then Q1' ! a ! (b - i1) else W ! a ! b);
                   w_err = matmul r ?count (c - ?i2) Err1'
                             (mk_mat ?count (c - ?i2) (\<lambda>m b. env_Hinv env ! (i1 + m) ! (?i2 + b)));
                   W' = mk_mat r c (\<lambda>a b.
                          if ?i2 \<le> b
                          then Wq ! a ! b - masked (env_mask env) a b (w_err ! a ! (b - ?i2))
                          else Wq ! a ! b)
               in Inr (W', obs'))"
    unfolding block_step_def Let_def r_def c_def prod.case by (rule refl)
  note M = inner_loop_matches[OF ng W[unfolded r_def c_def] i1[unfolded c_def] order_refl,
      of bs obs, folded r_def c_def]
  show ?thesis
  proof (cases ?R)
    case (Inl e)
    with M have "?I = Inl e" by simp
    then show ?thesis unfolding B using Inl by simp
  next
    case (Inr st)
    obtain Wk obsk where st: "st = (Wk, obsk)" by (cases st)
    from M Inr st obtain W1 Q1 Err1 where
      I: "?I = Inr (W1, Q1, Err1, obsk)"
      and Wk: "is_mat r c Wk"
      and blk: "\<And>a b. a < r \<Longrightarrow> b < ?count \<Longrightarrow> Q1 ! a ! b = Wk ! a ! (i1 + b)"
      and out: "\<And>a b. a < r \<Longrightarrow> b < c \<Longrightarrow> b < i1 \<Longrightarrow> Wk ! a ! b = W ! a ! b"
               "\<And>a b. a < r \<Longrightarrow> b < c \<Longrightarrow> ?i2 \<le> b \<Longrightarrow> Wk ! a ! b = W ! a ! b
                      - masked (env_mask env) a b
                          (\<Sum>m = 0..<?count. Err1 ! a ! m * env_Hinv env ! (i1 + m) ! b)"
      by auto
    have "mk_mat r c (\<lambda>a b.
            if ?i2 \<le> b
            then mk_mat r c (\<lambda>a b.
                   if i1 \<le> b \<and> b < ?i2 then Q1 ! a ! (b - i1) else W ! a ! b) ! a ! b
                 - masked (env_mask env) a b
                     (matmul r ?count (c - ?i2) Err1
                        (mk_mat ?count (c - ?i2) (\<lambda>m b. env_Hinv env ! (i1 + m) ! (?i2 + b)))
                      ! a ! (b - ?i2))
            else mk_mat r c (\<lambda>a b.
                   if i1 \<le> b \<and> b < ?i2 then Q1 ! a ! (b - i1) else W ! a ! b) ! a ! b) = Wk"
    proof (rule is_mat_nth_eqI[OF _ Wk])
      fix a b assume ab: "a < r" "b < c"
      consider "b < i1" | "i1 \<le> b" "b < ?i2" | "?i2 \<le> b" by linarith
      then show "mk_mat r c (\<lambda>a b.
            if ?i2 \<le> b
            then mk_mat r c (\<lambda>a b.
                   if i1 \<le> b \<and> b < ?i2 then Q1 ! a ! (b - i1) else W ! a ! b) ! a ! b
                 - masked (env_mask env) a b
                     (matmul r ?count (c - ?i2) Err1
                        (mk_mat ?count (c - ?i2) (\<lambda>m b. env_Hinv env ! (i1 + m) ! (?i2 + b)))
                      ! a ! (b - ?i2))
            else mk_mat r c (\<lambda>a b.
                   if i1 \<le> b \<and> b < ?i2 then Q1 ! a ! (b - i1) else W ! a ! b) ! a ! b) ! a ! b
          = Wk ! a ! b"
      proof cases
        case 1
        then have "\<not> ?i2 \<le> b" "\<not> i1 \<le> b" using i1 by simp_all
        then show ?thesis using ab 1 by (simp add: out(1))
      next
        case 2
        then have "b - i1 < ?count" "\<not> ?i2 \<le> b" by linarith+
        with 2 show ?thesis using ab blk[of a "b - i1"] by simp
      next
        case 3
        then have lt: "b - ?i2 < c - ?i2" using ab by linarith
        have "(\<Sum>l = 0..<?count. Err1 ! a ! l *
                 mk_mat ?count (c - ?i2) (\<lambda>m b. env_Hinv env ! (i1 + m) ! (?i2 + b)) ! l ! (b - ?i2))
              = (\<Sum>l = 0..<?count. Err1 ! a ! l * env_Hinv env ! (i1 + l) ! b)"
          by (rule sum.cong) (use lt 3 in auto)
        then show ?thesis using 3 ab lt i1 by (simp add: matmul_def out(2))
      qed
    qed simp
    then show ?thesis unfolding B I Inr st sum.case prod.case Let_def by (simp only:)
  qed
qed


lemma block_start_less:
  assumes "0 < b" and "k < (c + b - 1) div b"
  shows "k * b < (c::nat)"
proof (rule ccontr)
  assume "\<not> k * b < c"
  then have "c + b - 1 < (Suc k) * b" using assms(1) by simp
  then have "(c + b - 1) div b < Suc k" using assms(1)
    by (simp add: less_mult_imp_div_less)
  with assms(2) show False by simp
qed

lemma blocks_cover:
  assumes "0 < b"
  shows "(c::nat) \<le> ((c + b - 1) div b) * b"
proof -
  have "c + b - 1 = ((c + b - 1) div b) * b + (c + b - 1) mod b" by simp
  moreover have "(c + b - 1) mod b < b" using assms by simp
  ultimately show ?thesis by linarith
qed

lemma blocks_eq_column_passes:
  fixes env :: scan_env
  defines "r \<equiv> env_rows env" and "c \<equiv> env_columns env"
  assumes ng: "strategy (env_args env) \<noteq> GROUP" and W: "is_mat r c W" and b: "0 < b"
    and k: "k \<le> (c + b - 1) div b"
  shows "for_range k (\<lambda>k. block_step env b (k * b)) (W, obs)
         = for_range (min (k * b) c) (\<lambda>j. column_pass env j) (W, obs)"
  using k
proof (induction k)
  case 0
  show ?case by simp
next
  case (Suc k)
  then have IH: "for_range k (\<lambda>k. block_step env b (k * b)) (W, obs)
         = for_range (min (k * b) c) (\<lambda>j. column_pass env j) (W, obs)"
    and lt: "k * b < c"
    using block_start_less[OF b, of k c] by simp_all
  have m: "min (k * b) c = k * b" using lt by simp
  have split: "min (Suc k * b) c = k * b + (min (k * b + b) c - k * b)"
    using lt by (simp add: min_def)
  show ?case
  proof (cases "for_range (k * b) (\<lambda>j. column_pass env j) (W, obs)")
    case (Inl e)
    then show ?thesis
      unfolding split for_range_add by (simp add: IH m)
  next
    case (Inr st)
    obtain Wk obsk where st: "st = (Wk, obsk)" by (cases st)
    have Wk: "is_mat r c Wk"
      using for_range_column_pass_shape[of env W "k * b" "\<lambda>j. j" obs Wk obsk] W Inr st
      by (simp add: r_def c_def)
    have "block_step env b (k * b) (Wk, obsk)
          = for_range (min (k * b + b) c - k * b) (\<lambda>m. column_pass env (k * b + m)) (Wk, obsk)"
      using block_step_eq_column_passes[OF ng, of Wk "k * b" b obsk] Wk lt
      by (simp add: r_def c_def)
    then show ?thesis
      unfolding split for_range_add by (simp add: IH m Inr st)
  qed
qed

lemma scan_eq_column_passes:
  assumes "strategy (env_args env) \<noteq> GROUP" and "is_mat (env_rows env) (env_columns env) W"
    and "0 < blocksize"
  shows "scan env blocksize (W, obs)
         = for_range (env_columns env) (\<lambda>j. column_pass env j) (W, obs)"
proof -
  have b: "0 < nat blocksize" using assms(3) by simp
  have "min (((env_columns env + nat blocksize - 1) div nat blocksize) * nat blocksize)
          (env_columns env) = env_columns env"
    using blocks_cover[OF b, of "env_columns env"] by simp
  with blocks_eq_column_passes[OF assms(1,2) b order_refl, of obs]
  show ?thesis using assms(3) by (simp add: scan_def num_blocks_def)
qed


lemma is_mat_dead_W [simp]: "is_mat r c (dead_W r c A W)"
  by (simp add: dead_W_def)

lemma compress_blocksize:
  assumes bs: "0 < bs" "0 < bs'"
    and ng: "\<And>args. quantization_scheme_weights (layer s) = Some args \<Longrightarrow> strategy args \<noteq> GROUP"
  shows "compress ext s bs pd = compress ext s bs' pd"
proof (cases "quantization_scheme_weights (layer s)")
  case None
  then show ?thesis by (simp add: compress_def)
next
  case (Some args)
  have ng': "strategy args \<noteq> GROUP" by (rule ng[OF Some])
  have sc: "scan \<lparr>env_ext = ext, env_args = args, env_g_idx = g, env_rows = rows s,
                   env_columns = columns s, env_Hinv = Hinv, env_mask = m\<rparr> bs
              (dead_W (rows s) (columns s) A W, obs)
          = scan \<lparr>env_ext = ext, env_args = args, env_g_idx = g, env_rows = rows s,
                   env_columns = columns s, env_Hinv = Hinv, env_mask = m\<rparr> bs'
              (dead_W (rows s) (columns s) A W, obs)" for g Hinv m A W obs
    using ng' bs by (simp add: scan_eq_column_passes)
  show ?thesis
    unfolding compress_def Some option.case Let_def
    using bs by (auto simp: sc split: sum.splits prod.splits option.splits)
qed


section \<open>The stages of compress\<close>

lemma compress_DoneI:
  assumes "quantization_scheme_weights (layer s) = Some args"
    and "prepare ext args (rows s) (columns s)
           (standardize (kind (layer s)) (rows s) (columns s) (weight (layer s))) (H s)
         = Inr (W, Some A, g_idx, invperm, obs)"
    and "factorize (columns s) (damped (columns s) pd (dead_H (columns s) A)) = Inr Hinv"
    and "bs \<noteq> 0"
    and "scan \<lparr>env_ext = ext, env_args = args, env_g_idx = g_idx, env_rows = rows s,
                env_columns = columns s, env_Hinv = Hinv,
                env_mask = W_nz_mask ext (rows s) (columns s) W\<rparr> bs
           (dead_W (rows s) (columns s) A W, obs) = Inr (Wq, obs')"
    and "restore_order args (rows s) g_idx invperm Wq (layer s) = (Wf, l1)"
  shows "compress ext s bs pd
         = (Done, s\<lparr>H := Some Hinv, layer := commit l1 (rows s) (columns s) Wf obs'\<rparr>)"
  using assms(4) by (simp add: compress_def Let_def assms(1,2,3,5,6))

lemma compress_DoneE:
  assumes "fst (compress ext s bs pd) = Done"
    and "quantization_scheme_weights (layer s) = Some args"
  obtains W A g_idx invperm obs Hinv Wq obs' Wf l1 where
    "prepare ext args (rows s) (columns s)
           (standardize (kind (layer s)) (rows s) (columns s) (weight (layer s))) (H s)
         = Inr (W, Some A, g_idx, invperm, obs)"
    and "factorize (columns s) (damped (columns s) pd (dead_H (columns s) A)) = Inr Hinv"
    and "bs \<noteq> 0"
    and "scan \<lparr>env_ext = ext, env_args = args, env_g_idx = g_idx, env_rows = rows s,
                env_columns = columns s, env_Hinv = Hinv,
                env_mask = W_nz_mask ext (rows s) (columns s) W\<rparr> bs
           (dead_W (rows s) (columns s) A W, obs) = Inr (Wq, obs')"
    and "restore_order args (rows s) g_idx invperm Wq (layer s) = (Wf, l1)"
    and "snd (compress ext s bs pd)
         = s\<lparr>H := Some Hinv, layer := commit l1 (rows s) (columns s) Wf obs'\<rparr>"
  using assms
  by (auto simp: compress_def Let_def split: sum.splits option.splits prod.splits if_splits)

lemma compress_Raised_layer:
  "fst (compress ext s bs pd) = Raised e \<Longrightarrow> layer (snd (compress ext s bs pd)) = layer s"
  by (auto simp: compress_def Let_def split: sum.splits option.splits prod.splits if_splits)


section \<open>Errors\<close>

lemma for_range_error:
  assumes "0 < n" and "\<And>i s. i < n \<Longrightarrow> body i s = Inl e"
  shows "for_range n body s = Inl e"
  using assms
proof (induction n)
  case 0
  then show ?case by simp
next
  case (Suc n)
  show ?case
  proof (cases n)
    case 0
    then show ?thesis using Suc.prems(2)[of 0] by simp
  next
    case (Suc m)
    then have "for_range n body s = Inl e" using Suc.IH Suc.prems(2) by simp
    then show ?thesis by simp
  qed
qed

lemma quantize_column_unsupported:
  assumes "strategy args \<noteq> TENSOR" "strategy args \<noteq> CHANNEL" "strategy args \<noteq> GROUP"
  shows "quantize_column ext args g r c W j q obs = Inl ValueError"
  using assms by (cases "strategy args") (simp_all add: quantize_column_def)

lemma scan_unsupported:
  assumes "strategy (env_args env) \<noteq> TENSOR" "strategy (env_args env) \<noteq> CHANNEL"
    "strategy (env_args env) \<noteq> GROUP" and "0 < env_columns env" and "0 < blocksize"
  shows "scan env blocksize st = Inl ValueError"
proof -
  have cs: "column_step env i1 count W i st' = Inl ValueError" for i1 count W i st'
    by (cases st') (simp add: column_step_def Let_def quantize_column_unsupported[OF assms(1-3)])
  have bl: "block_step env (nat blocksize) (k * nat blocksize) st' = Inl ValueError"
    if "k * nat blocksize < env_columns env" for k st'
  proof -
    have "0 < min (k * nat blocksize + nat blocksize) (env_columns env) - k * nat blocksize"
      using that assms(5) by simp
    then show ?thesis
      by (cases st') (simp add: block_step_def Let_def for_range_error[OF _ cs])
  qed
  have nb: "0 < num_blocks (env_columns env) blocksize"
    using assms(4,5) by (simp add: num_blocks_def div_greater_zero_iff)
  have "k * nat blocksize < env_columns env"
    if "k < num_blocks (env_columns env) blocksize" for k
    using block_start_less[of "nat blocksize" k "env_columns env"] that assms(5)
    by (simp add: num_blocks_def)
  then show ?thesis
    unfolding scan_def by (intro for_range_error[OF nb] bl)
qed

lemma prepare_not_GROUP:
  "strategy args \<noteq> GROUP \<Longrightarrow>
   prepare ext args r c W h = Inr (W, h, [], None, observe ext args r c W)"
  by (simp add: prepare_def)


section \<open>Evaluation at the concrete inputs\<close>

lemma sqrt_25_16: "sqrt (25 / 16) = 5 / 4"
  by (rule real_sqrt_unique) (simp_all add: power2_eq_square)

lemma sqrt_16_25: "sqrt (16 / 25) = 4 / 5"
  by (rule real_sqrt_unique) (simp_all add: power2_eq_square)

lemma absmax_ext_sel [simp]:
  "observe absmax_ext args r c W =
     \<lparr>obs_scale = absmax_table args r c W,
      obs_zero_point = map (map (\<lambda>x. 0)) (absmax_table args r c W)\<rparr>"
  "calculate_qparams absmax_ext args q = ([absmax q], [0])"
  "get_qparams_along_dim absmax_ext args r k Wg = (mk_mat r 1 (\<lambda>a b. absmax (Wg ! a)), zeros r 1)"
  "fake_quantize absmax_ext x (Tensor2 m) zp args = map (ternary (m ! 0 ! 0)) x"
  "SPARSITY_THRESHOLD absmax_ext = 1 / 20"
  by (simp_all add: absmax_ext_def)

lemma absmax_ext_columnwise [simp]:
  "length v = length x \<Longrightarrow> fake_quantize absmax_ext x (Tensor1 v) zp args = map2 ternary v x"
  by (rule nth_equalityI) (simp_all add: absmax_ext_def)

lemma ternary_0 [simp]: "ternary s 0 = 0"
  by (simp add: ternary_def)

lemma zero_preserving_absmax_ext: "zero_preserving absmax_ext"
  by (auto simp: zero_preserving_def absmax_ext_def split: tensor.splits)

lemma linear_layer_sel [simp]:
  "kind (linear_layer w qa) = Linear" "weight (linear_layer w qa) = w"
  "quantization_scheme_weights (linear_layer w qa) = qa"
  by (simp_all add: linear_layer_def)

lemma ternary_values [simp]:
  "ternary 4 1 = 0" "ternary 4 (13 / 4) = 4" "ternary (13 / 4) (13 / 4) = 13 / 4"
  "ternary 3 3 = 3"
  by (simp_all add: ternary_def round_def)

lemma single_session_sel [simp]:
  "layer (single_session args A) = linear_layer [[3]] (Some args)"
  "rows (single_session args A) = Suc 0" "columns (single_session args A) = Suc 0"
  "H (single_session args A) = Some A"
  by (simp_all add: single_session_def)

lemma factor_4: "factorize (Suc 0) (damped (Suc 0) 0 (dead_H (Suc 0) [[4]])) = Inr [[1 / 2]]"
proof -
  have d: "damped (Suc 0) 0 (dead_H (Suc 0) [[4]]) = [[4]]"
    by (simp add: damped_def dead_H_def mk_mat_def Let_def)
  show ?thesis
    by (simp add: d factorize_def cholesky_def cholesky_inverse_def transpose_t_def mk_mat_def
          mk_vec_def Let_def real_sqrt_divide)
qed

lemma factor_1: "factorize (Suc 0) (damped (Suc 0) 0 (dead_H (Suc 0) [[1]])) = Inr [[1]]"
proof -
  have d: "damped (Suc 0) 0 (dead_H (Suc 0) [[1]]) = [[1]]"
    by (simp add: damped_def dead_H_def mk_mat_def Let_def)
  show ?thesis
    by (simp add: d factorize_def cholesky_def cholesky_inverse_def transpose_t_def mk_mat_def
          mk_vec_def Let_def)
qed


lemma single_prepare:
  "strategy args \<noteq> GROUP \<Longrightarrow>
   prepare absmax_ext args (Suc 0) (Suc 0) [[3]] (Some A)
   = Inr ([[3]], Some A, [], None, observe absmax_ext args (Suc 0) (Suc 0) [[3]])"
  by (simp add: prepare_def)

lemma single_mask: "W_nz_mask absmax_ext (Suc 0) (Suc 0) [[3]] = None"
  by (simp add: W_nz_mask_def preserve_zeros_def tensor_sparsity_def)

lemma single_dead: "A ! 0 ! 0 \<noteq> 0 \<Longrightarrow> dead_W (Suc 0) (Suc 0) A [[3]] = [[3]]"
  by (simp add: dead_W_def mk_mat_def)

lemma block_raises:
  "compress absmax_ext (single_session block_args [[4]]) 1 0
   = (Raised ValueError, (single_session block_args [[4]])\<lparr>H := Some [[1 / 2]]\<rparr>)"
proof -
  have ng: "strategy block_args \<noteq> GROUP" by (simp add: block_args_def)
  have sc: "scan \<lparr>env_ext = absmax_ext, env_args = block_args, env_g_idx = [],
                env_rows = Suc 0, env_columns = Suc 0, env_Hinv = [[1 / 2]],
                env_mask = m\<rparr> 1 st = Inl ValueError" for m st
    by (rule scan_unsupported) (simp_all add: block_args_def)
  show ?thesis
    by (simp add: compress_def Let_def standardize_def single_prepare[OF ng] factor_4 sc)
qed

lemma single_tensor_table: "absmax_table tensor_args (Suc 0) (Suc 0) [[3]] = [[3]]"
  by (simp add: absmax_table_def tensor_args_def absmax_def)

lemma single_tensor_column:
  "column_step \<lparr>env_ext = absmax_ext, env_args = tensor_args, env_g_idx = [],
                env_rows = Suc 0, env_columns = Suc 0, env_Hinv = [[1]],
                env_mask = None\<rparr> 0 (Suc 0) [[3]] 0 ([[3]], [[0]], [[0]], ob3)
   = Inr ([[3]], [[3]], [[0]], ob3)"
  by (simp add: column_step_def quantize_column_def tensor_args_def col_def mk_vec_def
        mk_mat_def Let_def masked_def ob3_def)

lemma single_tensor_scan:
  "scan \<lparr>env_ext = absmax_ext, env_args = tensor_args, env_g_idx = [],
                env_rows = Suc 0, env_columns = Suc 0, env_Hinv = [[1]],
                env_mask = None\<rparr> 1 ([[3]], ob3) = Inr ([[3]], ob3)"
  by (simp add: scan_def num_blocks_def block_step_def Let_def mk_mat_def zeros_def
        single_tensor_column matmul_def)

lemma single_tensor_compress:
  assumes "kind l = Linear" and "weight l = [[3]]"
    and "quantization_scheme_weights l = Some tensor_args"
  shows "compress absmax_ext \<lparr>layer = l, rows = 1, columns = 1, H = Some [[1]], n_samples = n\<rparr> 1 0
         = (Done, \<lparr>layer = l\<lparr>weight := [[3]], weight_scale := [[3]], weight_zero_point := [[0]]\<rparr>,
                   rows = 1, columns = 1, H = Some [[1]], n_samples = n\<rparr>)"
proof -
  let ?s = "\<lparr>layer = l, rows = 1, columns = 1, H = Some [[1]], n_samples = n\<rparr>"
  have ng: "strategy tensor_args \<noteq> GROUP" by (simp add: tensor_args_def)
  have p1: "quantization_scheme_weights (layer ?s) = Some tensor_args" by (simp add: assms)
  have p2: "prepare absmax_ext tensor_args (rows ?s) (columns ?s)
           (standardize (kind (layer ?s)) (rows ?s) (columns ?s) (weight (layer ?s))) (H ?s)
         = Inr ([[3]], Some [[1]], [], None, ob3)"
    by (simp add: standardize_def assms single_prepare[OF ng] single_tensor_table ob3_def)
  have p3: "factorize (columns ?s) (damped (columns ?s) 0 (dead_H (columns ?s) [[1]]))
            = Inr [[1]]"
    by (simp add: factor_1)
  have p4: "(1 :: int) \<noteq> 0" by simp
  have p5: "scan \<lparr>env_ext = absmax_ext, env_args = tensor_args, env_g_idx = [],
                env_rows = rows ?s, env_columns = columns ?s, env_Hinv = [[1]],
                env_mask = W_nz_mask absmax_ext (rows ?s) (columns ?s) [[3]]\<rparr> 1
           (dead_W (rows ?s) (columns ?s) [[1]] [[3]], ob3) = Inr ([[3]], ob3)"
    by (simp add: single_mask single_dead single_tensor_scan)
  have p6: "restore_order tensor_args (rows ?s) [] None [[3]] (layer ?s) = ([[3]], l)"
    by (simp add: restore_order_def ng)
  show ?thesis using compress_DoneI[OF p1 p2 p3 p4 p5 p6]
    by (simp add: commit_def unstandardize_def assms mk_mat_def ob3_def)
qed


section \<open>The two-column layer\<close>

lemma group_factor:
  "factorize 2 (damped 2 0 (dead_H 2 group_hessian)) = Inr [[1, 3 / 4], [0, 1]]"
proof -
  have d: "damped 2 0 (dead_H 2 group_hessian) = group_hessian"
    by (simp add: damped_def dead_H_def group_hessian_def mk_mat_def upt_2 Let_def)
  have chol1: "cholesky False 2 group_hessian = Inr [[5 / 4, 0], [- (3 / 5), 4 / 5]]"
    by (simp add: cholesky_def group_hessian_def transpose_t_def mk_mat_def mk_vec_def upt_2
          eval_nat_numeral sqrt_25_16 sqrt_16_25)
  have inv1: "cholesky_inverse 2 [[5 / 4, 0], [- (3 / 5), 4 / 5]] = [[1, 3 / 4], [3 / 4, 25 / 16]]"
    by (simp add: cholesky_inverse_def mk_mat_def mk_vec_def upt_2 eval_nat_numeral Let_def)
  have chol2: "cholesky True 2 [[1, 3 / 4], [3 / 4, 25 / 16]] = Inr [[1, 3 / 4], [0, 1]]"
    by (simp add: cholesky_def mk_mat_def mk_vec_def upt_2 eval_nat_numeral)
  show ?thesis by (simp add: d factorize_def chol1 inv1 chol2 Let_def)
qed

lemma two_column_env_sel [simp]:
  "env_ext (two_column_env args g) = absmax_ext" "env_args (two_column_env args g) = args"
  "env_g_idx (two_column_env args g) = g" "env_rows (two_column_env args g) = Suc 0"
  "env_columns (two_column_env args g) = 2"
  "env_Hinv (two_column_env args g) = [[1, 3 / 4], [0, 1]]"
  "env_mask (two_column_env args g) = None"
  by (simp_all add: two_column_env_def)

lemmas quantize_eval = quantize_column_def group_columns_def upt_2 index_cols_def
  mk_mat_def Let_def get_col_def set_col_def ncols_def zeros_def absmax_def

lemmas column_eval = column_step_def col_def mk_vec_def mk_mat_def upt_2 masked_def Let_def

lemmas block_eval = block_step_def Let_def mk_mat_def upt_2 zeros_def matmul_def masked_def

text \<open>\<open>GROUP\<close>, one block of two columns: both columns are quantised with the scale 4.\<close>

lemma group_q0:
  "quantize_column absmax_ext group_args [0, 0] (Suc 0) 2 [[1, 4]] 0 [1] ob4 = Inr ([0], ob4)"
  by (simp add: quantize_eval group_args_def ob4_def)

lemma group_q1:
  "quantize_column absmax_ext group_args [0, 0] (Suc 0) 2 [[1, 4]] (Suc 0) [13 / 4] ob4
   = Inr ([4], ob4)"
  by (simp add: quantize_eval group_args_def ob4_def)

lemma group_c0:
  "column_step (two_column_env group_args [0, 0]) 0 (Suc (Suc 0)) [[1, 4]] 0
     ([[1, 4]], [[0, 0]], [[0, 0]], ob4)
   = Inr ([[0, 13 / 4]], [[0, 0]], [[1, 0]], ob4)"
  by (simp add: column_eval group_q0)

lemma group_c1:
  "column_step (two_column_env group_args [0, 0]) 0 (Suc (Suc 0)) [[1, 4]] (Suc 0)
     ([[0, 13 / 4]], [[0, 0]], [[1, 0]], ob4)
   = Inr ([[0, 4]], [[0, 4]], [[1, - (3 / 4)]], ob4)"
  by (simp add: column_eval group_q1)

lemma group_b2:
  "block_step (two_column_env group_args [0, 0]) 2 0 ([[1, 4]], ob4) = Inr ([[0, 4]], ob4)"
  by (simp add: block_eval numeral_2_eq_2 group_c0 group_c1)

lemma group_scan_2:
  "scan (two_column_env group_args [0, 0]) 2 ([[1, 4]], ob4) = Inr ([[0, 4]], ob4)"
  by (simp add: scan_def num_blocks_def group_b2)

text \<open>
  \<open>GROUP\<close>, two blocks of one column: the second column is quantised with the scale
  \<open>13/4\<close>, read from the weight matrix the first block has updated.
\<close>

lemma group_q1':
  "quantize_column absmax_ext group_args [0, 0] (Suc 0) 2 [[0, 13 / 4]] (Suc 0) [13 / 4] ob4
   = Inr ([13 / 4], \<lparr>obs_scale = [[13 / 4]], obs_zero_point = [[0]]\<rparr>)"
  by (simp add: quantize_eval group_args_def ob4_def)

lemma group_c0':
  "column_step (two_column_env group_args [0, 0]) 0 (Suc 0) [[1, 4]] 0
     ([[1]], [[0]], [[0]], ob4)
   = Inr ([[0]], [[0]], [[1]], ob4)"
  by (simp add: column_eval group_q0)

lemma group_c1':
  "column_step (two_column_env group_args [0, 0]) (Suc 0) (Suc 0) [[0, 13 / 4]] 0
     ([[13 / 4]], [[0]], [[0]], ob4)
   = Inr ([[13 / 4]], [[13 / 4]], [[0]], \<lparr>obs_scale = [[13 / 4]], obs_zero_point = [[0]]\<rparr>)"
  by (simp add: column_eval group_q1')

lemma group_b0:
  "block_step (two_column_env group_args [0, 0]) (Suc 0) 0 ([[1, 4]], ob4)
   = Inr ([[0, 13 / 4]], ob4)"
  by (simp add: block_eval group_c0')

lemma group_b1:
  "block_step (two_column_env group_args [0, 0]) (Suc 0) (Suc 0) ([[0, 13 / 4]], ob4)
   = Inr ([[0, 13 / 4]], \<lparr>obs_scale = [[13 / 4]], obs_zero_point = [[0]]\<rparr>)"
  by (simp add: block_eval group_c1')

lemma group_scan_1:
  "scan (two_column_env group_args [0, 0]) 1 ([[1, 4]], ob4)
   = Inr ([[0, 13 / 4]], \<lparr>obs_scale = [[13 / 4]], obs_zero_point = [[0]]\<rparr>)"
  by (simp add: scan_def num_blocks_def for_range_2 group_b0 group_b1)

lemma group_session_sel [simp]:
  "layer group_session = linear_layer [[1, 4]] (Some group_args)"
  "rows group_session = Suc 0" "columns group_session = 2"
  "H group_session = Some group_hessian"
  by (simp_all add: group_session_def)

lemma group_prepare:
  "prepare absmax_ext group_args (Suc 0) 2 [[1, 4]] (Some group_hessian)
   = Inr ([[1, 4]], Some group_hessian, [0, 0], None, ob4)"
  by (simp add: prepare_def group_args_def arange_div_def upt_2 absmax_table_def mk_mat_def
        absmax_def ob4_def)

lemma two_column_mask: "W_nz_mask absmax_ext (Suc 0) 2 [[1, 4]] = None"
  by (simp add: W_nz_mask_def preserve_zeros_def tensor_sparsity_def)

lemma two_column_dead: "dead_W (Suc 0) 2 group_hessian [[1, 4]] = [[1, 4]]"
  by (simp add: dead_W_def group_hessian_def mk_mat_def upt_2)

lemma group_compress:
  assumes "bs \<noteq> 0"
    and "scan (two_column_env group_args [0, 0]) bs ([[1, 4]], ob4) = Inr (Wq, obs')"
  shows "compress absmax_ext group_session bs 0
         = (Done, group_session\<lparr>H := Some [[1, 3 / 4], [0, 1]],
              layer := commit (linear_layer [[1, 4]] (Some group_args)) 1 2 Wq obs'\<rparr>)"
proof -
  let ?s = group_session
  have p1: "quantization_scheme_weights (layer ?s) = Some group_args" by simp
  have p2: "prepare absmax_ext group_args (rows ?s) (columns ?s)
           (standardize (kind (layer ?s)) (rows ?s) (columns ?s) (weight (layer ?s))) (H ?s)
         = Inr ([[1, 4]], Some group_hessian, [0, 0], None, ob4)"
    by (simp add: standardize_def group_prepare)
  have p3: "factorize (columns ?s) (damped (columns ?s) 0 (dead_H (columns ?s) group_hessian))
            = Inr [[1, 3 / 4], [0, 1]]"
    by (simp add: group_factor)
  have p5: "scan \<lparr>env_ext = absmax_ext, env_args = group_args, env_g_idx = [0, 0],
                env_rows = rows ?s, env_columns = columns ?s, env_Hinv = [[1, 3 / 4], [0, 1]],
                env_mask = W_nz_mask absmax_ext (rows ?s) (columns ?s) [[1, 4]]\<rparr> bs
           (dead_W (rows ?s) (columns ?s) group_hessian [[1, 4]], ob4) = Inr (Wq, obs')"
    using assms(2) by (simp add: two_column_mask two_column_dead two_column_env_def)
  have p6: "restore_order group_args (rows ?s) [0, 0] None Wq (layer ?s)
            = (Wq, linear_layer [[1, 4]] (Some group_args))"
    by (simp add: restore_order_def group_args_def)
  show ?thesis using compress_DoneI[OF p1 p2 p3 assms(1) p5 p6] by simp
qed

lemma commit_weight_1_2:
  "weight (commit (linear_layer [[1, 4]] qa) (Suc 0) 2 [[x, y]] obs) = [[x, y]]"
  by (simp add: commit_def unstandardize_def mk_mat_def upt_2)

text \<open>\<open>TENSOR\<close>, one block of two columns.\<close>

lemma tensor_c0:
  "column_step (two_column_env tensor_args []) 0 (Suc (Suc 0)) [[1, 4]] 0
     ([[1, 4]], [[0, 0]], [[0, 0]], ob4)
   = Inr ([[0, 13 / 4]], [[0, 0]], [[1, 0]], ob4)"
  by (simp add: column_eval quantize_column_def tensor_args_def ob4_def)

lemma tensor_c1:
  "column_step (two_column_env tensor_args []) 0 (Suc (Suc 0)) [[1, 4]] (Suc 0)
     ([[0, 13 / 4]], [[0, 0]], [[1, 0]], ob4)
   = Inr ([[0, 4]], [[0, 4]], [[1, - (3 / 4)]], ob4)"
  by (simp add: column_eval quantize_column_def tensor_args_def ob4_def)

lemma tensor_b2:
  "block_step (two_column_env tensor_args []) 2 0 ([[1, 4]], ob4) = Inr ([[0, 4]], ob4)"
  by (simp add: block_eval numeral_2_eq_2 tensor_c0 tensor_c1)

lemma tensor_scan_2:
  "scan (two_column_env tensor_args []) 2 ([[1, 4]], ob4) = Inr ([[0, 4]], ob4)"
  by (simp add: scan_def num_blocks_def tensor_b2)

lemma tensor_session_sel [simp]:
  "layer tensor_session = linear_layer [[1, 4]] (Some tensor_args)"
  "rows tensor_session = Suc 0" "columns tensor_session = 2"
  "H tensor_session = Some group_hessian"
  by (simp_all add: tensor_session_def)

lemma tensor_compress_2:
  "compress absmax_ext tensor_session 2 0
   = (Done, tensor_session\<lparr>H := Some [[1, 3 / 4], [0, 1]],
        layer := commit (linear_layer [[1, 4]] (Some tensor_args)) 1 2 [[0, 4]] ob4\<rparr>)"
proof -
  let ?s = tensor_session
  have ng: "strategy tensor_args \<noteq> GROUP" by (simp add: tensor_args_def)
  have p1: "quantization_scheme_weights (layer ?s) = Some tensor_args" by simp
  have p2: "prepare absmax_ext tensor_args (rows ?s) (columns ?s)
           (standardize (kind (layer ?s)) (rows ?s) (columns ?s) (weight (layer ?s))) (H ?s)
         = Inr ([[1, 4]], Some group_hessian, [], None, ob4)"
  proof -
    have "absmax_table tensor_args (Suc 0) 2 [[1, 4]] = [[4]]"
      by (simp add: absmax_table_def tensor_args_def absmax_def)
    then show ?thesis
      by (simp add: standardize_def prepare_not_GROUP[OF ng] ob4_def)
  qed
  have p3: "factorize (columns ?s) (damped (columns ?s) 0 (dead_H (columns ?s) group_hessian))
            = Inr [[1, 3 / 4], [0, 1]]"
    by (simp add: group_factor)
  have p4: "(2::int) \<noteq> 0" by simp
  have p5: "scan \<lparr>env_ext = absmax_ext, env_args = tensor_args, env_g_idx = [],
                env_rows = rows ?s, env_columns = columns ?s, env_Hinv = [[1, 3 / 4], [0, 1]],
                env_mask = W_nz_mask absmax_ext (rows ?s) (columns ?s) [[1, 4]]\<rparr> 2
           (dead_W (rows ?s) (columns ?s) group_hessian [[1, 4]], ob4) = Inr ([[0, 4]], ob4)"
    using tensor_scan_2 by (simp add: two_column_mask two_column_dead two_column_env_def)
  have p6: "restore_order tensor_args (rows ?s) [] None [[0, 4]] (layer ?s)
            = ([[0, 4]], linear_layer [[1, 4]] (Some tensor_args))"
    by (simp add: restore_order_def ng)
  show ?thesis using compress_DoneI[OF p1 p2 p3 p4 p5 p6] by simp
qed


section \<open>The activation-ordering scenario\<close>

lemma scenario_order:
  "argsort_descending [1 / 10, 9 / 10, 1 / 2, 1 / 5] = [1, 2, 3, 0]"
  "argsort [1, 2, 3, 0] = [3, 0, 1, 2]"
  "arange_div 4 2 = [0, 0, 1, 1]"
  "index_list [0, 0, 1, 1] [3, 0, 1, 2] = [1, 0, 0, 1]"
  by (simp_all add: argsort_descending_def argsort_def arange_div_def index_list_def upt_4)

lemmas scenario_order' = scenario_order scenario_order[unfolded One_nat_def]

lemma commit_g_idx [simp]: "weight_g_idx (commit l r c W obs) = weight_g_idx l"
  by (simp add: commit_def Let_def)

lemma scenario_chol1:
  "cholesky False 4 scenario_permuted
   = Inr [[sqrt (9 / 10), 0, 0, 0], [0, sqrt (1 / 2), 0, 0], [0, 0, sqrt (1 / 5), 0],
          [0, 0, 0, sqrt (1 / 10)]]"
  by (simp add: cholesky_def scenario_permuted_def transpose_t_def mk_mat_def mk_vec_def upt_4
        eval_nat_numeral real_sqrt_divide)


lemma scenario_inverse:
  "cholesky_inverse 4 [[sqrt (9 / 10), 0, 0, 0], [0, sqrt (1 / 2), 0, 0], [0, 0, sqrt (1 / 5), 0],
          [0, 0, 0, sqrt (1 / 10)]]
   = [[10 / 9, 0, 0, 0], [0, 2, 0, 0], [0, 0, 5, 0], [0, 0, 0, 10]]"
  by (simp add: cholesky_inverse_def mk_mat_def mk_vec_def upt_4 eval_nat_numeral Let_def
        real_sqrt_divide)

lemma scenario_chol2:
  "cholesky True 4 [[10 / 9, 0, 0, 0], [0, 2, 0, 0], [0, 0, 5, 0], [0, 0, 0, 10]]
   = Inr [[sqrt (10 / 9), 0, 0, 0], [0, sqrt 2, 0, 0], [0, 0, sqrt 5, 0], [0, 0, 0, sqrt 10]]"
  by (simp add: cholesky_def mk_mat_def mk_vec_def upt_4 eval_nat_numeral real_sqrt_divide)


lemma scenario_env_sel [simp]:
  "env_ext scenario_env = absmax_ext" "env_args scenario_env = actorder_args"
  "env_g_idx scenario_env = [0, 0, 1, 1]" "env_rows scenario_env = Suc 0"
  "env_columns scenario_env = 4"
  "env_Hinv scenario_env = [[sqrt (10 / 9), 0, 0, 0], [0, sqrt 2, 0, 0], [0, 0, sqrt 5, 0],
                  [0, 0, 0, sqrt 10]]"
  "env_mask scenario_env = None"
  by (simp_all add: scenario_env_def)

lemma ternary_1 [simp]: "ternary 1 1 = 1"
  by (simp add: ternary_def round_def)

lemma scenario_q:
  "quantize_column absmax_ext actorder_args [0, 0, 1, 1] (Suc 0) 4 [[1, 1, 1, 1]] (0) [1] ob11
   = Inr ([1], ob11)"
  "quantize_column absmax_ext actorder_args [0, 0, 1, 1] (Suc 0) 4 [[1, 1, 1, 1]] (Suc 0) [1] ob11
   = Inr ([1], ob11)"
  "quantize_column absmax_ext actorder_args [0, 0, 1, 1] (Suc 0) 4 [[1, 1, 1, 1]] (2) [1] ob11
   = Inr ([1], ob11)"
  "quantize_column absmax_ext actorder_args [0, 0, 1, 1] (Suc 0) 4 [[1, 1, 1, 1]] (3) [1] ob11
   = Inr ([1], ob11)"
  by (simp_all add: quantize_eval actorder_args_def ob11_def upt_4)

lemma scenario_c:
  "column_step scenario_env 0 4 [[1, 1, 1, 1]] (0)
     ([[1, 1, 1, 1]], [[a, b, c, d]], [[0, 0, 0, 0]], ob11)
   = Inr ([[1, 1, 1, 1]], [[1, b, c, d]], [[0, 0, 0, 0]], ob11)"
  "column_step scenario_env 0 4 [[1, 1, 1, 1]] (Suc 0)
     ([[1, 1, 1, 1]], [[a, b, c, d]], [[0, 0, 0, 0]], ob11)
   = Inr ([[1, 1, 1, 1]], [[a, 1, c, d]], [[0, 0, 0, 0]], ob11)"
  "column_step scenario_env 0 4 [[1, 1, 1, 1]] (2)
     ([[1, 1, 1, 1]], [[a, b, c, d]], [[0, 0, 0, 0]], ob11)
   = Inr ([[1, 1, 1, 1]], [[a, b, 1, d]], [[0, 0, 0, 0]], ob11)"
  "column_step scenario_env 0 4 [[1, 1, 1, 1]] (3)
     ([[1, 1, 1, 1]], [[a, b, c, d]], [[0, 0, 0, 0]], ob11)
   = Inr ([[1, 1, 1, 1]], [[a, b, c, 1]], [[0, 0, 0, 0]], ob11)"
  by (simp_all add: column_step_def col_def mk_vec_def mk_mat_def upt_4 masked_def Let_def
        scenario_q[unfolded One_nat_def]
      del: add_2_eq_Suc add_2_eq_Suc')

lemma for_range_4:
  "for_range 4 body s =
     (case body 0 s of Inl e \<Rightarrow> Inl e | Inr s1 \<Rightarrow>
      (case body (Suc 0) s1 of Inl e \<Rightarrow> Inl e | Inr s2 \<Rightarrow>
       (case body 2 s2 of Inl e \<Rightarrow> Inl e | Inr s3 \<Rightarrow> body 3 s3)))"
  by (simp add: eval_nat_numeral split: sum.splits)

lemma scenario_block:
  "block_step scenario_env 4 0 ([[1, 1, 1, 1]], ob11) = Inr ([[1, 1, 1, 1]], ob11)"
  by (simp add: block_step_def Let_def mk_mat_def upt_4 zeros_def matmul_def masked_def
        for_range_4 scenario_c)

lemma scenario_scan:
  "scan scenario_env 4 ([[1, 1, 1, 1]], ob11) = Inr ([[1, 1, 1, 1]], ob11)"
  by (simp add: scan_def num_blocks_def scenario_block)


lemma scenario_session_sel [simp]:
  "layer scenario_session = linear_layer [[1, 1, 1, 1]] (Some actorder_args)"
  "rows scenario_session = Suc 0" "columns scenario_session = 4"
  "H scenario_session = Some scenario_hessian"
  by (simp_all add: scenario_session_def)

lemma scenario_diag: "diag 4 scenario_hessian = [1 / 10, 9 / 10, 1 / 2, 1 / 5]"
  by (simp add: diag_def mk_vec_def upt_4 scenario_hessian_def)

lemma scenario_prepare:
  "prepare absmax_ext actorder_args (Suc 0) 4 [[1, 1, 1, 1]] (Some scenario_hessian)
   = Inr ([[1, 1, 1, 1]], Some scenario_permuted, [0, 0, 1, 1], Some [3, 0, 1, 2], ob11)"
proof -
  have o: "apply_activation_ordering (Suc 0) 4 [[1, 1, 1, 1]] scenario_hessian
           = ([[1, 1, 1, 1]], scenario_permuted, [1, 2, 3, 0], [3, 0, 1, 2])"
    by (simp add: apply_activation_ordering_def scenario_diag scenario_order' Let_def)
       (simp add: index_cols_def index_rows_cols_def mk_mat_def upt_4 scenario_hessian_def
          scenario_permuted_def)
  have t: "absmax_table actorder_args (Suc 0) 4 [[1, 1, 1, 1]] = [[1, 1]]"
    by (simp add: absmax_table_def actorder_args_def mk_mat_def upt_2 absmax_def)
  show ?thesis
    by (simp add: prepare_def actorder_args_def o t[unfolded actorder_args_def] ob11_def
          scenario_order')
qed

lemma scenario_factor:
  "factorize 4 (damped 4 0 (dead_H 4 scenario_permuted))
   = Inr [[sqrt (10 / 9), 0, 0, 0], [0, sqrt 2, 0, 0], [0, 0, sqrt 5, 0], [0, 0, 0, sqrt 10]]"
proof -
  have d: "damped 4 0 (dead_H 4 scenario_permuted) = scenario_permuted"
    by (simp add: damped_def dead_H_def scenario_permuted_def mk_mat_def upt_4 Let_def)
  show ?thesis
    by (simp add: d factorize_def scenario_chol1 scenario_inverse scenario_chol2 Let_def)
qed

lemma scenario_compress:
  "compress absmax_ext scenario_session 4 0
   = (Done, scenario_session
        \<lparr>H := Some [[sqrt (10 / 9), 0, 0, 0], [0, sqrt 2, 0, 0], [0, 0, sqrt 5, 0],
                     [0, 0, 0, sqrt 10]],
         layer := commit ((linear_layer [[1, 1, 1, 1]] (Some actorder_args))
                            \<lparr>weight_g_idx := Some [1, 0, 0, 1]\<rparr>) 1 4 [[1, 1, 1, 1]] ob11\<rparr>)"
proof -
  let ?s = scenario_session
  have p1: "quantization_scheme_weights (layer ?s) = Some actorder_args" by simp
  have p2: "prepare absmax_ext actorder_args (rows ?s) (columns ?s)
           (standardize (kind (layer ?s)) (rows ?s) (columns ?s) (weight (layer ?s))) (H ?s)
         = Inr ([[1, 1, 1, 1]], Some scenario_permuted, [0, 0, 1, 1], Some [3, 0, 1, 2], ob11)"
    by (simp add: standardize_def scenario_prepare)
  have p3: "factorize (columns ?s) (damped (columns ?s) 0 (dead_H (columns ?s) scenario_permuted))
            = Inr [[sqrt (10 / 9), 0, 0, 0], [0, sqrt 2, 0, 0], [0, 0, sqrt 5, 0],
                   [0, 0, 0, sqrt 10]]"
    by (simp add: scenario_factor)
  have p4: "(4::int) \<noteq> 0" by simp
  have m: "W_nz_mask absmax_ext (Suc 0) 4 [[1, 1, 1, 1]] = None"
    by (simp add: W_nz_mask_def preserve_zeros_def tensor_sparsity_def)
  have dw: "dead_W (Suc 0) 4 scenario_permuted [[1, 1, 1, 1]] = [[1, 1, 1, 1]]"
    by (simp add: dead_W_def scenario_permuted_def mk_mat_def upt_4)
  have p5: "scan \<lparr>env_ext = absmax_ext, env_args = actorder_args, env_g_idx = [0, 0, 1, 1],
                env_rows = rows ?s, env_columns = columns ?s,
                env_Hinv = [[sqrt (10 / 9), 0, 0, 0], [0, sqrt 2, 0, 0], [0, 0, sqrt 5, 0],
                            [0, 0, 0, sqrt 10]],
                env_mask = W_nz_mask absmax_ext (rows ?s) (columns ?s) [[1, 1, 1, 1]]\<rparr> 4
           (dead_W (rows ?s) (columns ?s) scenario_permuted [[1, 1, 1, 1]], ob11)
         = Inr ([[1, 1, 1, 1]], ob11)"
    using scenario_scan by (simp add: m dw scenario_env_def)
  have p6: "restore_order actorder_args (rows ?s) [0, 0, 1, 1] (Some [3, 0, 1, 2])
              [[1, 1, 1, 1]] (layer ?s)
            = ([[1, 1, 1, 1]], (linear_layer [[1, 1, 1, 1]] (Some actorder_args))
                            \<lparr>weight_g_idx := Some [1, 0, 0, 1]\<rparr>)"
    by (simp add: restore_order_def actorder_args_def index_cols_def mk_mat_def upt_4
          scenario_order')
  show ?thesis using compress_DoneI[OF p1 p2 p3 p4 p5 p6] by simp
qed

section \<open>Block-size invariance\<close>

text \<open>
  C1 (amended).  For a layer whose strategy is not \<open>GROUP\<close> (\<open>TENSOR\<close>, \<open>CHANNEL\<close>; an
  unsupported strategy or an unquantised layer gives the same outcome trivially),
  \<open>compress\<close> with any positive block size up to the number of columns returns the same
  outcome and the same session, hence the same quantised weight, scale and zero point,
  as with \<open>blocksize = columns\<close> (a single block).  The blockwise scan and the scan with
  one block both equal the scan one column at a time.
\<close>

theorem block_size_invariance:
  assumes "0 < blocksize" and "blocksize \<le> int (columns s)"
    and "case quantization_scheme_weights (layer s) of
           None \<Rightarrow> True | Some args \<Rightarrow> strategy args \<noteq> GROUP"
  shows "compress ext s blocksize percdamp = compress ext s (int (columns s)) percdamp"
proof (rule compress_blocksize)
  show "0 < blocksize" by (rule assms(1))
  show "0 < int (columns s)" using assms(1,2) by simp
  show "strategy args \<noteq> GROUP" if "quantization_scheme_weights (layer s) = Some args" for args
    using assms(3) that by simp
qed

theorem block_size_invariance_witness:
  "(0::int) < 1 \<and> 1 \<le> int (columns tensor_session) \<and>
   quantization_scheme_weights (layer tensor_session) = Some tensor_args \<and>
   strategy tensor_args \<noteq> GROUP \<and>
   compress absmax_ext tensor_session 1 0
     = compress absmax_ext tensor_session (int (columns tensor_session)) 0 \<and>
   fst (compress absmax_ext tensor_session 1 0) = Done \<and>
   weight (layer (snd (compress absmax_ext tensor_session 1 0))) = [[0, 4]]"
proof -
  have h1: "(0::int) < 1" by simp
  have h2: "1 \<le> int (columns tensor_session)" by simp
  have h3: "case quantization_scheme_weights (layer tensor_session) of
              None \<Rightarrow> True | Some args \<Rightarrow> strategy args \<noteq> GROUP"
    by (simp add: tensor_args_def)
  have e: "compress absmax_ext tensor_session 1 0
           = compress absmax_ext tensor_session (int (columns tensor_session)) 0"
    by (rule block_size_invariance[OF h1 h2 h3])
  have c: "int (columns tensor_session) = 2" by simp
  show ?thesis
    unfolding e c tensor_compress_2
    by (simp add: commit_weight_1_2) (simp add: tensor_args_def)
qed

text \<open>
  As stated for every strategy the claim fails under \<open>GROUP\<close>: line 237 computes the
  group's parameters from the weight matrix of the outer loop, which holds the quantised
  columns and the propagated error of the blocks already finished.  With one block of
  two columns the second column is quantised with the scale 4 of the original group,
  with two blocks of one column with the scale \<open>13/4\<close>.
\<close>

theorem block_size_invariance_counterexample:
  "strategy group_args = GROUP \<and>
   fst (compress absmax_ext group_session (int (columns group_session)) 0) = Done \<and>
   weight (layer (snd (compress absmax_ext group_session (int (columns group_session)) 0)))
     = [[0, 4]] \<and>
   fst (compress absmax_ext group_session 1 0) = Done \<and>
   weight (layer (snd (compress absmax_ext group_session 1 0))) = [[0, 13 / 4]]"
proof -
  have a: "compress absmax_ext group_session 2 0
         = (Done, group_session\<lparr>H := Some [[1, 3 / 4], [0, 1]],
              layer := commit (linear_layer [[1, 4]] (Some group_args)) 1 2 [[0, 4]] ob4\<rparr>)"
    by (rule group_compress[OF _ group_scan_2]) simp
  have b: "compress absmax_ext group_session 1 0
         = (Done, group_session\<lparr>H := Some [[1, 3 / 4], [0, 1]],
              layer := commit (linear_layer [[1, 4]] (Some group_args)) 1 2 [[0, 13 / 4]]
                 \<lparr>obs_scale = [[13 / 4]], obs_zero_point = [[0]]\<rparr>\<rparr>)"
    by (rule group_compress[OF _ group_scan_1]) simp
  show ?thesis
    by (simp add: a b commit_weight_1_2) (simp add: group_args_def)
qed

section \<open>Unsupported strategies\<close>

text \<open>
  C6.  For a layer with at least one column whose configuration requests a strategy
  other than \<open>TENSOR\<close>, \<open>CHANNEL\<close> or \<open>GROUP\<close>, \<open>compress\<close> called with a number of
  columns per block (a block size that is not negative) raises to its caller and
  never returns normally: \<open>ValueError\<close> from the dispatch of lines 257-261 at the first
  column of the scan (or from \<open>range\<close> for a block size of zero), unless an earlier
  step of the same call has already raised, \<open>AttributeError\<close> when the Hessian has
  been freed or the error of the factorisation when that fails.
\<close>

theorem unsupported_strategy_raises:
  assumes "quantization_scheme_weights (layer s) = Some args"
    and "strategy args \<noteq> TENSOR" and "strategy args \<noteq> CHANNEL" and "strategy args \<noteq> GROUP"
    and "0 < columns s" and "0 \<le> blocksize"
  shows "fst (compress ext s blocksize percdamp) \<noteq> Done \<and>
         fst (compress ext s blocksize percdamp) =
           (case H s of
              None \<Rightarrow> Raised AttributeError
            | Some A \<Rightarrow>
                (case factorize (columns s) (damped (columns s) percdamp (dead_H (columns s) A)) of
                   Inl (e, A') \<Rightarrow> Raised e
                 | Inr Hinv \<Rightarrow> Raised ValueError))"
proof (cases "blocksize = 0")
  case True
  then show ?thesis
    by (simp add: compress_def assms(1) Let_def prepare_not_GROUP[OF assms(4)]
          split: option.splits sum.splits prod.splits)
next
  case False
  then have pos: "0 < blocksize" using assms(6) by simp
  have sc: "scan \<lparr>env_ext = ext, env_args = args, env_g_idx = g, env_rows = r,
                env_columns = columns s, env_Hinv = Hinv, env_mask = m\<rparr> blocksize st
            = Inl ValueError" for g r Hinv m st
    by (rule scan_unsupported) (simp_all add: assms pos)
  show ?thesis
    using False
    by (simp add: compress_def assms(1) Let_def prepare_not_GROUP[OF assms(4)] sc
          split: option.splits sum.splits prod.splits)
qed

theorem unsupported_strategy_raises_witness:
  "quantization_scheme_weights (layer (single_session block_args [[4]])) = Some block_args \<and>
   strategy block_args \<noteq> TENSOR \<and> strategy block_args \<noteq> CHANNEL \<and>
   strategy block_args \<noteq> GROUP \<and>
   0 < columns (single_session block_args [[4]]) \<and> (0::int) \<le> 1 \<and>
   fst (compress absmax_ext (single_session block_args [[4]]) 1 0) = Raised ValueError"
proof -
  have h: "quantization_scheme_weights (layer (single_session block_args [[4]])) = Some block_args"
    "strategy block_args \<noteq> TENSOR" "strategy block_args \<noteq> CHANNEL"
    "strategy block_args \<noteq> GROUP" "0 < columns (single_session block_args [[4]])"
    "(0::int) \<le> 1"
    by (simp_all add: block_args_def)
  show ?thesis
    using unsupported_strategy_raises[OF h, of absmax_ext 0] h
    by (simp add: factor_4)
qed


section \<open>The lifecycle\<close>

text \<open>
  C7 (amended).  Neither \<open>compress\<close> nor \<open>free\<close> keeps or checks a lifecycle state; the
  only misuse that fails is the use of a released session, through the deleted
  attribute \<open>H\<close>: on a session whose Hessian has been freed, \<open>free\<close> raises
  \<open>AttributeError\<close>, and \<open>compress\<close> of a quantised layer raises \<open>AttributeError\<close> (after
  the division by a group size of zero, where the configuration has one); an
  unquantised layer is skipped as always.
\<close>

theorem released_session_rejected:
  assumes "H s = None"
  shows "fst (free s) = Raised AttributeError \<and>
         (case quantization_scheme_weights (layer s) of
            None \<Rightarrow> fst (compress ext s blocksize percdamp) = Done
          | Some args \<Rightarrow>
              fst (compress ext s blocksize percdamp)
                = (if strategy args = GROUP \<and> group_size args = 0
                   then Raised RuntimeError else Raised AttributeError))"
  using assms
  by (auto simp: free_def compress_def prepare_def Let_def
           split: option.splits sum.splits prod.splits ActivationOrdering.splits)

theorem released_session_rejected_witness:
  "H (snd (free (single_session tensor_args [[1]]))) = None \<and>
   fst (free (snd (free (single_session tensor_args [[1]])))) = Raised AttributeError \<and>
   fst (compress absmax_ext (snd (free (single_session tensor_args [[1]]))) 1 0)
     = Raised AttributeError"
proof -
  have h: "H (snd (free (single_session tensor_args [[1]]))) = None"
    by (simp add: free_def)
  have l: "quantization_scheme_weights (layer (snd (free (single_session tensor_args [[1]]))))
           = Some tensor_args"
    by (simp add: free_def)
  show ?thesis
    using released_session_rejected[OF h, of absmax_ext 1 0, unfolded l option.case] h
    by (simp add: tensor_args_def)
qed

text \<open>
  \<open>free\<close> on a session that was never compressed returns normally, and so does a second
  \<open>compress\<close> on a session that has completed one.
\<close>

theorem state_misuse_counterexample:
  "fst (free (init_session (linear_layer [[3]] (Some tensor_args)) 1 1)) = Done \<and>
   fst (compress absmax_ext (single_session tensor_args [[1]]) 1 0) = Done \<and>
   fst (compress absmax_ext
          (snd (compress absmax_ext (single_session tensor_args [[1]]) 1 0)) 1 0) = Done"
proof -
  have a: "fst (free (init_session (linear_layer [[3]] (Some tensor_args)) 1 1)) = Done"
    by (simp add: free_def init_session_def)
  have b: "compress absmax_ext (single_session tensor_args [[1]]) 1 0
           = (Done, \<lparr>layer = (linear_layer [[3]] (Some tensor_args))
                       \<lparr>weight := [[3]], weight_scale := [[3]], weight_zero_point := [[0]]\<rparr>,
                     rows = 1, columns = 1, H = Some [[1]], n_samples = 1\<rparr>)"
    unfolding single_session_def by (rule single_tensor_compress) simp_all
  have c: "fst (compress absmax_ext
              \<lparr>layer = (linear_layer [[3]] (Some tensor_args))
                       \<lparr>weight := [[3]], weight_scale := [[3]], weight_zero_point := [[0]]\<rparr>,
               rows = 1, columns = 1, H = Some [[1]], n_samples = 1\<rparr> 1 0) = Done"
    by (subst single_tensor_compress) (simp_all add: linear_layer_def)
  show ?thesis using a c by (simp add: b)
qed

section \<open>Atomicity of the weight\<close>

text \<open>
  C9.  Whenever \<open>compress\<close> raises (the unsupported strategy, a failed factorisation or
  any other error), the layer is as it was before the call: its weight, its scale and
  its zero point are unchanged, because the scan works on a clone and the layer is
  only written by the commit.  The Hessian buffer is not restored: in the witness it
  holds the factor \<open>[[1/2]]\<close> instead of \<open>[[4]]\<close> after the error.
\<close>

theorem weight_atomic_on_error:
  assumes "fst (compress ext s blocksize percdamp) = Raised e"
  shows "weight (layer (snd (compress ext s blocksize percdamp))) = weight (layer s) \<and>
         weight_scale (layer (snd (compress ext s blocksize percdamp))) = weight_scale (layer s) \<and>
         weight_zero_point (layer (snd (compress ext s blocksize percdamp)))
           = weight_zero_point (layer s) \<and>
         layer (snd (compress ext s blocksize percdamp)) = layer s"
  using compress_Raised_layer[OF assms] by simp

theorem weight_atomic_on_error_witness:
  "fst (compress absmax_ext (single_session block_args [[4]]) 1 0) = Raised ValueError \<and>
   weight (layer (snd (compress absmax_ext (single_session block_args [[4]]) 1 0))) = [[3]] \<and>
   layer (snd (compress absmax_ext (single_session block_args [[4]]) 1 0))
     = layer (single_session block_args [[4]]) \<and>
   H (single_session block_args [[4]]) = Some [[4]] \<and>
   H (snd (compress absmax_ext (single_session block_args [[4]]) 1 0)) = Some [[1 / 2]]"
proof -
  have h: "fst (compress absmax_ext (single_session block_args [[4]]) 1 0) = Raised ValueError"
    by (simp add: block_raises)
  show ?thesis
    using weight_atomic_on_error[OF h] h by (simp add: block_raises)
qed


section \<open>The GROUP activation-ordering scenario\<close>

text \<open>
  C5.  For a layer with four columns, \<open>group_size = 2\<close>, the \<open>GROUP\<close> strategy with
  \<open>actorder = GROUP\<close> and a Hessian with the diagonal \<open>[0.1, 0.9, 0.5, 0.2]\<close>,
  \<open>compress\<close> computes \<open>perm = [1, 2, 3, 0]\<close>, and whenever it returns, the group index
  map stored as \<open>weight_g_idx\<close> is \<open>[1, 0, 0, 1]\<close>: it differs from the identity
  \<open>[0, 0, 1, 1]\<close> and gives each original column \<open>j\<close> the group \<open>invperm[j] div 2\<close>
  of its position in the permuted order.
\<close>

theorem group_ordering_scenario:
  assumes "quantization_scheme_weights (layer s) = Some args"
    and "strategy args = GROUP" and "actorder args = Some ActGROUP" and "group_size args = 2"
    and "columns s = 4" and "H s = Some A"
    and "diag 4 A = [1 / 10, 9 / 10, 1 / 2, 1 / 5]"
    and "fst (compress ext s blocksize percdamp) = Done"
  shows "argsort_descending (diag (columns s) A) = [1, 2, 3, 0] \<and>
         weight_g_idx (layer (snd (compress ext s blocksize percdamp))) = Some [1, 0, 0, 1] \<and>
         [1, 0, 0, 1] \<noteq> arange_div 4 2 \<and>
         [1, 0, 0, 1] = map (\<lambda>j. (argsort [1, 2, 3, 0] ! j) div 2) [0..<4]"
proof -
  from assms(8) assms(1) obtain W A' g_idx invperm obs Hinv Wq obs' Wf l1 where
    p: "prepare ext args (rows s) (columns s)
           (standardize (kind (layer s)) (rows s) (columns s) (weight (layer s))) (H s)
         = Inr (W, Some A', g_idx, invperm, obs)"
    and ro: "restore_order args (rows s) g_idx invperm Wq (layer s) = (Wf, l1)"
    and res: "snd (compress ext s blocksize percdamp)
         = s\<lparr>H := Some Hinv, layer := commit l1 (rows s) (columns s) Wf obs'\<rparr>"
    by (rule compress_DoneE)
  from p have g: "g_idx = [0, 0, 1, 1]" and ip: "invperm = Some [3, 0, 1, 2]"
    by (auto simp: prepare_def assms apply_activation_ordering_def Let_def scenario_order'
             split: if_splits)
  from ro have "weight_g_idx l1 = Some [1, 0, 0, 1]"
    by (auto simp: restore_order_def assms g ip scenario_order')
  then show ?thesis
    by (simp add: res assms scenario_order' upt_4)
qed

theorem group_ordering_scenario_witness:
  "quantization_scheme_weights (layer scenario_session) = Some actorder_args \<and>
   strategy actorder_args = GROUP \<and> actorder actorder_args = Some ActGROUP \<and>
   group_size actorder_args = 2 \<and> columns scenario_session = 4 \<and>
   H scenario_session = Some scenario_hessian \<and>
   diag 4 scenario_hessian = [1 / 10, 9 / 10, 1 / 2, 1 / 5] \<and>
   fst (compress absmax_ext scenario_session 4 0) = Done \<and>
   weight_g_idx (layer (snd (compress absmax_ext scenario_session 4 0))) = Some [1, 0, 0, 1]"
proof -
  have h: "quantization_scheme_weights (layer scenario_session) = Some actorder_args"
    "strategy actorder_args = GROUP" "actorder actorder_args = Some ActGROUP"
    "group_size actorder_args = 2" "columns scenario_session = 4"
    "H scenario_session = Some scenario_hessian"
    "diag 4 scenario_hessian = [1 / 10, 9 / 10, 1 / 2, 1 / 5]"
    "fst (compress absmax_ext scenario_session 4 0) = Done"
    by (simp_all add: actorder_args_def scenario_diag scenario_compress)
  from group_ordering_scenario[OF h] h show ?thesis by simp
qed

section \<open>Entries the scan keeps at zero\<close>

lemma shielded_masked:
  assumes "shielded env a b" and "i < b" and "env_Hinv env ! i ! b = 0 \<Longrightarrow> y = 0"
  shows "masked (env_mask env) a b y = 0"
  using assms by (auto simp: shielded_def masked_def split: option.splits)

lemma shielded_masked_sum:
  assumes "shielded env a b" and "\<And>m. m < n \<Longrightarrow> f m < b"
  shows "masked (env_mask env) a b (\<Sum>m = 0..<n. g m * env_Hinv env ! (f m) ! b) = 0"
proof (cases "\<forall>i<b. env_Hinv env ! i ! b = 0")
  case True
  then have "(\<Sum>m = 0..<n. g m * env_Hinv env ! (f m) ! b) = 0"
    using assms(2) by (intro sum.neutral) simp
  then show ?thesis by simp
next
  case False
  with assms(1) obtain M where "env_mask env = Some M" "M ! a ! b = 0"
    by (auto simp: shielded_def split: option.splits)
  then show ?thesis by (simp add: masked_def)
qed

lemma quantize_column_zero:
  assumes "zero_preserving ext" and "quantize_column ext args g r c W j w obs = Inr (q, obs')"
    and "a < length w" and "w ! a = 0"
  shows "q ! a = 0"
proof -
  have fq: "fake_quantize ext w sc zp ar ! a = 0" for sc zp ar
    using assms(1,3,4) by (simp add: zero_preserving_def)
  from assms(2) show ?thesis
    by (cases "strategy args")
       (auto simp: quantize_column_def Let_def fq split: sum.splits prod.splits)
qed

lemma column_step_zero:
  assumes zp: "zero_preserving (env_ext env)"
    and sh: "shielded env a (i1 + \<beta>)"
    and a: "a < env_rows env" and \<beta>: "\<beta> < count" and k: "k < count"
    and step: "column_step env i1 count W k (W1, Q1, Err1, obs) = Inr (W1', Q1', Err1', obs')"
    and inv: "\<beta> < k \<longrightarrow> Q1 ! a ! \<beta> = 0" "k \<le> \<beta> \<longrightarrow> W1 ! a ! \<beta> = 0"
  shows "(\<beta> < Suc k \<longrightarrow> Q1' ! a ! \<beta> = 0) \<and> (Suc k \<le> \<beta> \<longrightarrow> W1' ! a ! \<beta> = 0)"
proof -
  let ?r = "env_rows env"
  let ?w = "col ?r W1 k"
  from step obtain q where
    qc: "quantize_column (env_ext env) (env_args env) (env_g_idx env) ?r (env_columns env) W
           (i1 + k) ?w obs = Inr (q, obs')"
    and len: "length q = ?r"
    and Q1': "Q1' = mk_mat ?r count (\<lambda>a b. if b = k then q ! a else Q1 ! a ! b)"
    and W1': "W1' = mk_mat ?r count (\<lambda>a b.
                 if k \<le> b
                 then W1 ! a ! b
                        - masked (env_mask env) a (i1 + b)
                            (mk_vec ?r (\<lambda>a. (?w ! a - q ! a) / env_Hinv env ! (i1 + k) ! (i1 + k)) ! a
                               * env_Hinv env ! (i1 + k) ! (i1 + b))
                 else W1 ! a ! b)"
    by (auto simp: column_step_def Let_def split: sum.splits prod.splits if_splits)
  show ?thesis
  proof (intro conjI impI)
    assume "\<beta> < Suc k"
    show "Q1' ! a ! \<beta> = 0"
    proof (cases "\<beta> = k")
      case True
      then have "?w ! a = 0" using inv(2) a by simp
      then have "q ! a = 0" using quantize_column_zero[OF zp qc] a by simp
      then show ?thesis using True a \<beta> by (simp add: Q1')
    next
      case False
      then show ?thesis using \<open>\<beta> < Suc k\<close> inv(1) a \<beta> by (simp add: Q1')
    qed
  next
    assume "Suc k \<le> \<beta>"
    then have "i1 + k < i1 + \<beta>" by simp
    have "masked (env_mask env) a (i1 + \<beta>)
            (mk_vec ?r (\<lambda>a. (?w ! a - q ! a) / env_Hinv env ! (i1 + k) ! (i1 + k)) ! a
               * env_Hinv env ! (i1 + k) ! (i1 + \<beta>)) = 0"
      by (rule shielded_masked[OF sh \<open>i1 + k < i1 + \<beta>\<close>]) simp
    moreover have "W1' ! a ! \<beta> = W1 ! a ! \<beta>
            - masked (env_mask env) a (i1 + \<beta>)
            (mk_vec ?r (\<lambda>a. (?w ! a - q ! a) / env_Hinv env ! (i1 + k) ! (i1 + k)) ! a
               * env_Hinv env ! (i1 + k) ! (i1 + \<beta>))"
      unfolding W1' nth_mk_mat[OF a \<beta>] using \<open>Suc k \<le> \<beta>\<close> by (simp only: if_True Suc_leD)
    ultimately show "W1' ! a ! \<beta> = 0" using \<open>Suc k \<le> \<beta>\<close> inv(2) by simp
  qed
qed

lemma inner_loop_zero:
  assumes zp: "zero_preserving (env_ext env)"
    and sh: "shielded env a (i1 + \<beta>)"
    and a: "a < env_rows env" and \<beta>: "\<beta> < count" and k: "k \<le> count"
    and run: "for_range k (column_step env i1 count W) (W1, Q1, Err1, obs)
              = Inr (W1', Q1', Err1', obs')"
    and init: "W1 ! a ! \<beta> = 0"
  shows "(\<beta> < k \<longrightarrow> Q1' ! a ! \<beta> = 0) \<and> (k \<le> \<beta> \<longrightarrow> W1' ! a ! \<beta> = 0)"
  using k run
proof (induction k arbitrary: W1' Q1' Err1' obs')
  case 0
  then show ?case using init by simp
next
  case (Suc k)
  from Suc.prems(2) obtain W1m Q1m Err1m obsm where
    mid: "for_range k (column_step env i1 count W) (W1, Q1, Err1, obs)
          = Inr (W1m, Q1m, Err1m, obsm)"
    and step: "column_step env i1 count W k (W1m, Q1m, Err1m, obsm)
          = Inr (W1', Q1', Err1', obs')"
    by (auto split: sum.splits)
  from Suc.IH[OF _ mid] Suc.prems(1)
  have inv: "\<beta> < k \<longrightarrow> Q1m ! a ! \<beta> = 0" "k \<le> \<beta> \<longrightarrow> W1m ! a ! \<beta> = 0" by simp_all
  show ?case
    by (rule column_step_zero[OF zp sh a \<beta> _ step inv]) (use Suc.prems(1) in simp)
qed


lemma block_step_entries:
  assumes run: "block_step env bs i1 (W, obs) = Inr (W', obs')"
    and i1: "i1 \<le> env_columns env"
  shows "\<exists>W1' Q1' Err1'.
           for_range (min (i1 + bs) (env_columns env) - i1)
             (column_step env i1 (min (i1 + bs) (env_columns env) - i1) W)
             (mk_mat (env_rows env) (min (i1 + bs) (env_columns env) - i1)
                (\<lambda>a b. W ! a ! (i1 + b)),
              zeros (env_rows env) (min (i1 + bs) (env_columns env) - i1),
              zeros (env_rows env) (min (i1 + bs) (env_columns env) - i1), obs)
             = Inr (W1', Q1', Err1', obs') \<and>
           (\<forall>a<env_rows env. \<forall>b<env_columns env.
              W' ! a ! b =
                (if b < i1 then W ! a ! b
                 else if b < min (i1 + bs) (env_columns env) then Q1' ! a ! (b - i1)
                 else W ! a ! b
                        - masked (env_mask env) a b
                            (\<Sum>l = 0..<min (i1 + bs) (env_columns env) - i1.
                                Err1' ! a ! l * env_Hinv env ! (i1 + l) ! b)))"
proof -
  let ?r = "env_rows env" and ?c = "env_columns env"
  let ?i2 = "min (i1 + bs) ?c"
  let ?count = "?i2 - i1"
  let ?I = "for_range ?count (column_step env i1 ?count W)
              (mk_mat ?r ?count (\<lambda>a b. W ! a ! (i1 + b)), zeros ?r ?count, zeros ?r ?count, obs)"
  show ?thesis
  proof (cases ?I)
    case (Inl e)
    with run show ?thesis by (simp add: block_step_def Let_def)
  next
    case (Inr st)
    obtain W1' Q1' Err1' obs2 where st: "st = (W1', Q1', Err1', obs2)" by (cases st)
    have sumeq: "(\<Sum>l = 0..<?count. Err1' ! a ! l *
             mk_mat ?count (?c - ?i2) (\<lambda>m b. env_Hinv env ! (i1 + m) ! (?i2 + b)) ! l ! (b - ?i2))
          = (\<Sum>l = 0..<?count. Err1' ! a ! l * env_Hinv env ! (i1 + l) ! b)"
      if "?i2 \<le> b" "b < ?c" for a b
      by (rule sum.cong) (use that in auto)
    from run have o: "obs2 = obs'"
      and W': "W' = mk_mat ?r ?c (\<lambda>a b.
                 if ?i2 \<le> b
                 then (if i1 \<le> b \<and> b < ?i2 then Q1' ! a ! (b - i1) else W ! a ! b)
                      - masked (env_mask env) a b
                          (\<Sum>l = 0..<?count. Err1' ! a ! l * env_Hinv env ! (i1 + l) ! b)
                 else (if i1 \<le> b \<and> b < ?i2 then Q1' ! a ! (b - i1) else W ! a ! b))"
      unfolding block_step_def Let_def prod.case Inr st sum.case
      by (auto simp: matmul_def sumeq intro!: mk_mat_cong)
    have "\<forall>a<?r. \<forall>b<?c.
              W' ! a ! b =
                (if b < i1 then W ! a ! b
                 else if b < ?i2 then Q1' ! a ! (b - i1)
                 else W ! a ! b
                        - masked (env_mask env) a b
                            (\<Sum>l = 0..<?count. Err1' ! a ! l * env_Hinv env ! (i1 + l) ! b))"
      using i1 by (auto simp: W')
    then show ?thesis using Inr st o by blast
  qed
qed

lemma block_step_zero:
  assumes zp: "zero_preserving (env_ext env)"
    and sh: "shielded env a b"
    and a: "a < env_rows env" and b: "b < env_columns env"
    and i1: "i1 \<le> env_columns env"
    and run: "block_step env bs i1 (W, obs) = Inr (W', obs')"
    and init: "W ! a ! b = 0"
  shows "W' ! a ! b = 0"
proof -
  let ?r = "env_rows env" and ?c = "env_columns env"
  let ?i2 = "min (i1 + bs) ?c"
  let ?count = "?i2 - i1"
  let ?W1 = "mk_mat ?r ?count (\<lambda>a b. W ! a ! (i1 + b))"
  from block_step_entries[OF run i1] a b obtain W1' Q1' Err1' where
    inner: "for_range ?count (column_step env i1 ?count W)
              (?W1, zeros ?r ?count, zeros ?r ?count, obs) = Inr (W1', Q1', Err1', obs')"
    and W': "W' ! a ! b =
                (if b < i1 then W ! a ! b
                 else if b < ?i2 then Q1' ! a ! (b - i1)
                 else W ! a ! b
                        - masked (env_mask env) a b
                            (\<Sum>l = 0..<?count. Err1' ! a ! l * env_Hinv env ! (i1 + l) ! b))"
    by blast
  consider "b < i1" | "i1 \<le> b" "b < ?i2" | "?i2 \<le> b" by linarith
  then show ?thesis
  proof cases
    case 1
    then show ?thesis using init by (simp add: W')
  next
    case 2
    then have \<beta>: "b - i1 < ?count" and nb: "\<not> b < i1" by linarith+
    have sh': "shielded env a (i1 + (b - i1))" using sh 2 by simp
    have "?W1 ! a ! (b - i1) = 0" using a \<beta> 2 init by simp
    from inner_loop_zero[OF zp sh' a \<beta> order_refl inner this] \<beta>
    have "Q1' ! a ! (b - i1) = 0" by simp
    moreover have "W' ! a ! b = Q1' ! a ! (b - i1)"
      unfolding W' by (simp only: nb 2 if_False if_True)
    ultimately show ?thesis by simp
  next
    case 3
    have "masked (env_mask env) a b
            (\<Sum>l = 0..<?count. Err1' ! a ! l * env_Hinv env ! (i1 + l) ! b) = 0"
      by (rule shielded_masked_sum[OF sh]) (use 3 in linarith)
    moreover have nlt: "\<not> b < i1" "\<not> b < ?i2" using 3 i1 by linarith+
    have "W' ! a ! b = W ! a ! b
            - masked (env_mask env) a b
                (\<Sum>l = 0..<?count. Err1' ! a ! l * env_Hinv env ! (i1 + l) ! b)"
      unfolding W' by (simp only: nlt if_False)
    ultimately show ?thesis using init by simp
  qed
qed

lemma block_step_result_shape:
  "block_step env bs i1 (W, obs) = Inr (W', obs') \<Longrightarrow>
   is_mat (env_rows env) (env_columns env) W'"
  by (auto simp: block_step_def Let_def split: sum.splits prod.splits)

lemma scan_zero:
  assumes zp: "zero_preserving (env_ext env)"
    and sh: "shielded env a b"
    and a: "a < env_rows env" and b: "b < env_columns env"
    and run: "scan env blocksize (W, obs) = Inr (W', obs')"
    and init: "W ! a ! b = 0"
  shows "W' ! a ! b = 0"
proof -
  let ?n = "num_blocks (env_columns env) blocksize"
  have "for_range k (\<lambda>k. block_step env (nat blocksize) (k * nat blocksize)) (W, obs)
          = Inr (Wk, obsk) \<Longrightarrow> k \<le> ?n \<Longrightarrow> Wk ! a ! b = 0" for k Wk obsk
  proof (induction k arbitrary: Wk obsk)
    case 0
    then show ?case using init by simp
  next
    case (Suc k)
    from Suc.prems(1) obtain Wm obsm where
      mid: "for_range k (\<lambda>k. block_step env (nat blocksize) (k * nat blocksize)) (W, obs)
            = Inr (Wm, obsm)"
      and step: "block_step env (nat blocksize) (k * nat blocksize) (Wm, obsm) = Inr (Wk, obsk)"
      by (auto split: sum.splits)
    have z: "Wm ! a ! b = 0" using Suc.IH[OF mid] Suc.prems(2) by simp
    have pos: "0 < blocksize" using Suc.prems(2) by (auto simp: num_blocks_def split: if_splits)
    have "k * nat blocksize < env_columns env"
      using block_start_less[of "nat blocksize" k "env_columns env"] Suc.prems(2) pos
      by (simp add: num_blocks_def)
    then show ?case
      using block_step_zero[OF zp sh a b _ step z] by simp
  qed
  from this[of ?n W' obs'] run show ?thesis by (simp add: scan_def)
qed


section \<open>The factorisation keeps an index decoupled\<close>








lemma lower_inverse_rows_length [simp]: "length (lower_inverse_rows n L m) = m"
  by (induction m) (simp_all add: Let_def)




section \<open>Entries of the weight through compress\<close>

lemma prepare_Inr:
  assumes "prepare ext args r c W0 (Some A0) = Inr (W, h', g, ip, obs)"
  shows "(\<not> (strategy args = GROUP \<and> actorder args \<noteq> None) \<and>
            W = W0 \<and> h' = Some A0 \<and> ip = None) \<or>
         (strategy args = GROUP \<and> actorder args \<noteq> None \<and>
            W = index_cols r W0 (argsort_descending (diag c A0)) \<and>
            h' = Some (index_rows_cols A0 (argsort_descending (diag c A0))) \<and>
            ip = Some (argsort (argsort_descending (diag c A0))))"
  using assms
  by (auto simp: prepare_def apply_activation_ordering_def Let_def
           split: if_splits option.splits ActivationOrdering.splits)

lemma prepare_None: "prepare ext args r c W0 None = Inr (W, h', g, ip, obs) \<Longrightarrow> h' = None"
  by (auto simp: prepare_def apply_activation_ordering_def Let_def
           split: if_splits option.splits ActivationOrdering.splits)

text \<open>
  The frame of a returning \<open>compress\<close>: the prepared weight and Hessian are the layer's,
  re-indexed by the scan position of each column, and the committed weight is the
  result of the scan, re-indexed back.
\<close>

lemma compress_frame:
  assumes dn: "fst (compress ext s bs pd) = Done"
    and args: "quantization_scheme_weights (layer s) = Some args"
  obtains A0 W A g_idx invperm obs Hinv Wq obs' where
    "H s = Some A0"
    and "prepare ext args (rows s) (columns s)
           (standardize (kind (layer s)) (rows s) (columns s) (weight (layer s))) (H s)
         = Inr (W, Some A, g_idx, invperm, obs)"
    and "\<And>b. b < columns s \<Longrightarrow> scan_position args (columns s) A0 b < columns s"
    and "\<And>k. k < columns s \<Longrightarrow> \<exists>b<columns s. scan_position args (columns s) A0 b = k"
    and "\<And>a b. a < rows s \<Longrightarrow> b < columns s \<Longrightarrow>
           W ! a ! scan_position args (columns s) A0 b = weight_entry (layer s) a b"
    and "\<And>x y. x < columns s \<Longrightarrow> y < columns s \<Longrightarrow>
           A ! scan_position args (columns s) A0 x ! scan_position args (columns s) A0 y
           = A0 ! x ! y"
    and "factorize (columns s) (damped (columns s) pd (dead_H (columns s) A)) = Inr Hinv"
    and "scan \<lparr>env_ext = ext, env_args = args, env_g_idx = g_idx, env_rows = rows s,
                env_columns = columns s, env_Hinv = Hinv,
                env_mask = W_nz_mask ext (rows s) (columns s) W\<rparr> bs
           (dead_W (rows s) (columns s) A W, obs) = Inr (Wq, obs')"
    and "H (snd (compress ext s bs pd)) = Some Hinv"
    and "\<And>a b. a < rows s \<Longrightarrow> b < columns s \<Longrightarrow>
           weight_entry (layer (snd (compress ext s bs pd))) a b
           = Wq ! a ! scan_position args (columns s) A0 b"
proof -
  let ?r = "rows s" and ?c = "columns s"
  let ?W0 = "standardize (kind (layer s)) ?r ?c (weight (layer s))"
  from dn args obtain W A g_idx invperm obs Hinv Wq obs' Wf l1 where
    p: "prepare ext args ?r ?c ?W0 (H s) = Inr (W, Some A, g_idx, invperm, obs)"
    and f: "factorize ?c (damped ?c pd (dead_H ?c A)) = Inr Hinv"
    and sc: "scan \<lparr>env_ext = ext, env_args = args, env_g_idx = g_idx, env_rows = ?r,
                env_columns = ?c, env_Hinv = Hinv,
                env_mask = W_nz_mask ext ?r ?c W\<rparr> bs
           (dead_W ?r ?c A W, obs) = Inr (Wq, obs')"
    and ro: "restore_order args ?r g_idx invperm Wq (layer s) = (Wf, l1)"
    and res: "snd (compress ext s bs pd) = s\<lparr>H := Some Hinv, layer := commit l1 ?r ?c Wf obs'\<rparr>"
    by (rule compress_DoneE)
  obtain A0 where A0: "H s = Some A0"
    using p prepare_None[of ext args ?r ?c ?W0] by (cases "H s") auto
  let ?pos = "scan_position args ?c A0"
  let ?perm = "argsort_descending (diag ?c A0)"
  have perm: "is_perm ?c ?perm" by (rule argsort_descending_is_perm) (simp add: diag_def)
  have lperm: "length ?perm = ?c" by (rule is_perm_length[OF perm])
  have ip: "is_perm ?c (argsort ?perm)" by (rule argsort_is_perm[OF lperm])
  have lip: "length (argsort ?perm) = ?c" by (rule is_perm_length[OF ip])
  have W0: "?W0 ! a ! b = weight_entry (layer s) a b" if "a < ?r" "b < ?c" for a b
    using that by (simp add: standardize_def weight_entry_def transpose_t_def)
  have Wq: "is_mat ?r ?c Wq"
  proof (cases "0 < num_blocks ?c bs")
    case False
    then show ?thesis using sc by (auto simp: scan_def)
  next
    case True
    then obtain n where n: "num_blocks ?c bs = Suc n" by (cases "num_blocks ?c bs") auto
    from sc obtain Wm obsm where
      "block_step \<lparr>env_ext = ext, env_args = args, env_g_idx = g_idx, env_rows = ?r,
                env_columns = ?c, env_Hinv = Hinv,
                env_mask = W_nz_mask ext ?r ?c W\<rparr> (nat bs) (n * nat bs) (Wm, obsm)
       = Inr (Wq, obs')"
      by (auto simp: scan_def n split: sum.splits)
    from block_step_result_shape[OF this] show ?thesis by simp
  qed
  have lay: "kind l1 = kind (layer s)"
    using ro by (auto simp: restore_order_def split: if_splits option.splits
        ActivationOrdering.splits)
  have fin: "weight_entry (commit l1 ?r ?c Wf obs') a b = Wf ! a ! b" if "a < ?r" "b < ?c" for a b
    using that by (simp add: weight_entry_def commit_def unstandardize_def transpose_t_def Let_def)
  from prepare_Inr[OF p[unfolded A0]]
  show ?thesis
  proof (elim disjE conjE)
    assume no: "\<not> (strategy args = GROUP \<and> actorder args \<noteq> None)"
      and eq: "W = ?W0" "Some A = Some A0" "invperm = None"
    have pos: "?pos b = b" for b using no by (auto simp: scan_position_def)
    have Wf: "Wf = Wq" using ro eq(3) no
      by (auto simp: restore_order_def split: if_splits option.splits ActivationOrdering.splits)
    show ?thesis
      by (rule that[OF A0 p _ _ _ _ f sc])
         (use eq W0 fin in \<open>auto simp: pos res Wf\<close>)
  next
    assume yes: "strategy args = GROUP" "actorder args \<noteq> None"
      and eq: "W = index_cols ?r ?W0 ?perm" "Some A = Some (index_rows_cols A0 ?perm)"
        "invperm = Some (argsort ?perm)"
    have pos: "?pos b = argsort ?perm ! b" for b using yes by (auto simp: scan_position_def)
    have Wf: "Wf = index_cols ?r Wq (argsort ?perm)" using ro eq(3) yes
      by (auto simp: restore_order_def split: if_splits option.splits ActivationOrdering.splits)
    have lt: "argsort ?perm ! b < ?c" if "b < ?c" for b
      by (rule is_perm_nth_less[OF ip that])
    have sur: "\<exists>b<?c. argsort ?perm ! b = k" if "k < ?c" for k
      using argsort_inverse_left[OF perm that] is_perm_nth_less[OF perm that] by blast
    have bk: "?perm ! (argsort ?perm ! b) = b" if "b < ?c" for b
      by (rule argsort_inverse_right[OF perm that])
    show ?thesis
    proof (rule that[OF A0 p _ _ _ _ f sc])
      show "H (snd (compress ext s bs pd)) = Some Hinv" by (simp add: res)
      show "?pos b < ?c" if "b < ?c" for b using lt[OF that] by (simp add: pos)
      show "\<exists>b<?c. ?pos b = k" if "k < ?c" for k using sur[OF that] by (simp add: pos)
      show "W ! a ! ?pos b = weight_entry (layer s) a b" if "a < ?r" "b < ?c" for a b
        using that lt[OF that(2)] by (simp add: pos eq(1) index_cols_def lperm bk W0)
      show "A ! ?pos x ! ?pos y = A0 ! x ! y" if "x < ?c" "y < ?c" for x y
        using that lt eq(2) by (simp add: pos index_rows_cols_def lperm bk)
      show "weight_entry (layer (snd (compress ext s bs pd))) a b = Wq ! a ! ?pos b"
        if "a < ?r" "b < ?c" for a b
        using that fin[OF that] by (simp add: res Wf index_cols_def lip pos)
    qed
  qed
qed

section \<open>The sparse layer and the layer with a dead column\<close>

lemma ternary_more [simp]: "ternary 4 4 = 4" "ternary 4 3 = 4"
  by (simp_all add: ternary_def round_def)


lemma ternary_neg [simp]: "ternary 4 (- 3) = - 4"
  by (simp add: ternary_def round_def)

lemma sqrt_16: "sqrt 16 = 4"
  by (rule real_sqrt_unique) (simp_all add: power2_eq_square)

lemma sqrt_1_25: "sqrt (1 / 25) = 1 / 5"
  by (rule real_sqrt_unique) (simp_all add: power2_eq_square)

lemma steep_factor:
  "factorize 2 (damped 2 0 (dead_H 2 steep_hessian)) = Inr [[1, 3], [0, 4]]"
proof -
  have d: "damped 2 0 (dead_H 2 steep_hessian) = steep_hessian"
    by (simp add: damped_def dead_H_def steep_hessian_def mk_mat_def upt_2 Let_def)
  have chol1: "cholesky False 2 steep_hessian = Inr [[5 / 4, 0], [- (3 / 20), 1 / 5]]"
    by (simp add: cholesky_def steep_hessian_def transpose_t_def mk_mat_def mk_vec_def upt_2
          eval_nat_numeral sqrt_25_16 sqrt_1_25)
  have inv1: "cholesky_inverse 2 [[5 / 4, 0], [- (3 / 20), 1 / 5]] = [[1, 3], [3, 25]]"
    by (simp add: cholesky_inverse_def mk_mat_def mk_vec_def upt_2 eval_nat_numeral Let_def)
  have chol2: "cholesky True 2 [[1, 3], [3, 25]] = Inr [[1, 3], [0, 4]]"
    by (simp add: cholesky_def mk_mat_def mk_vec_def upt_2 eval_nat_numeral sqrt_16)
  show ?thesis by (simp add: d factorize_def chol1 inv1 chol2 Let_def)
qed

lemma sparse_env_sel [simp]:
  "env_ext (sparse_env m) = absmax_ext" "env_args (sparse_env m) = tensor_args"
  "env_g_idx (sparse_env m) = []" "env_rows (sparse_env m) = 2"
  "env_columns (sparse_env m) = 2"
  "env_Hinv (sparse_env m) = [[1, 3], [0, 4]]"
  "env_mask (sparse_env m) = m"
  by (simp_all add: sparse_env_def)

text \<open>With the mask, one block of two columns and two blocks of one column.\<close>

lemma sparse_c0:
  "column_step (sparse_env (Some [[1, 0], [1, 1]])) 0 (Suc (Suc 0)) [[1, 0], [4, 4]] 0
     ([[1, 0], [4, 4]], [[0, 0], [0, 0]], [[0, 0], [0, 0]], ob4)
   = Inr ([[0, 0], [4, 4]], [[0, 0], [4, 0]], [[1, 0], [0, 0]], ob4)"
  by (simp add: column_eval quantize_column_def tensor_args_def ob4_def)

lemma sparse_c1:
  "column_step (sparse_env (Some [[1, 0], [1, 1]])) 0 (Suc (Suc 0)) [[1, 0], [4, 4]] (Suc 0)
     ([[0, 0], [4, 4]], [[0, 0], [4, 0]], [[1, 0], [0, 0]], ob4)
   = Inr ([[0, 0], [4, 4]], [[0, 0], [4, 4]], [[1, 0], [0, 0]], ob4)"
  by (simp add: column_eval quantize_column_def tensor_args_def ob4_def)

lemma sparse_b2:
  "block_step (sparse_env (Some [[1, 0], [1, 1]])) 2 0 ([[1, 0], [4, 4]], ob4)
   = Inr ([[0, 0], [4, 4]], ob4)"
  by (simp add: block_eval numeral_2_eq_2 sparse_c0 sparse_c1)

lemma sparse_scan_2:
  "scan (sparse_env (Some [[1, 0], [1, 1]])) 2 ([[1, 0], [4, 4]], ob4)
   = Inr ([[0, 0], [4, 4]], ob4)"
  by (simp add: scan_def num_blocks_def sparse_b2)

lemma sparse_c0':
  "column_step (sparse_env (Some [[1, 0], [1, 1]])) 0 (Suc 0) [[1, 0], [4, 4]] 0
     ([[1], [4]], [[0], [0]], [[0], [0]], ob4)
   = Inr ([[0], [4]], [[0], [4]], [[1], [0]], ob4)"
  by (simp add: column_eval quantize_column_def tensor_args_def ob4_def)

lemma sparse_c1':
  "column_step (sparse_env (Some [[1, 0], [1, 1]])) (Suc 0) (Suc 0) [[0, 0], [4, 4]] 0
     ([[0], [4]], [[0], [0]], [[0], [0]], ob4)
   = Inr ([[0], [4]], [[0], [4]], [[0], [0]], ob4)"
  by (simp add: column_eval quantize_column_def tensor_args_def ob4_def)

lemma sparse_b0:
  "block_step (sparse_env (Some [[1, 0], [1, 1]])) (Suc 0) 0 ([[1, 0], [4, 4]], ob4)
   = Inr ([[0, 0], [4, 4]], ob4)"
  by (simp add: block_eval sparse_c0')

lemma sparse_b1:
  "block_step (sparse_env (Some [[1, 0], [1, 1]])) (Suc 0) (Suc 0) ([[0, 0], [4, 4]], ob4)
   = Inr ([[0, 0], [4, 4]], ob4)"
  by (simp add: block_eval sparse_c1')

lemma sparse_scan_1:
  "scan (sparse_env (Some [[1, 0], [1, 1]])) 1 ([[1, 0], [4, 4]], ob4)
   = Inr ([[0, 0], [4, 4]], ob4)"
  by (simp add: scan_def num_blocks_def for_range_2 sparse_b0 sparse_b1)

text \<open>Without the mask the zero entry receives the error and is quantised to \<open>-4\<close>.\<close>

lemma bare_c0:
  "column_step (sparse_env None) 0 (Suc (Suc 0)) [[1, 0], [4, 4]] 0
     ([[1, 0], [4, 4]], [[0, 0], [0, 0]], [[0, 0], [0, 0]], ob4)
   = Inr ([[0, - 3], [4, 4]], [[0, 0], [4, 0]], [[1, 0], [0, 0]], ob4)"
  by (simp add: column_eval quantize_column_def tensor_args_def ob4_def)

lemma bare_c1:
  "column_step (sparse_env None) 0 (Suc (Suc 0)) [[1, 0], [4, 4]] (Suc 0)
     ([[0, - 3], [4, 4]], [[0, 0], [4, 0]], [[1, 0], [0, 0]], ob4)
   = Inr ([[0, - 4], [4, 4]], [[0, - 4], [4, 4]], [[1, 1 / 4], [0, 0]], ob4)"
  by (simp add: column_eval quantize_column_def tensor_args_def ob4_def)

lemma bare_b2:
  "block_step (sparse_env None) 2 0 ([[1, 0], [4, 4]], ob4) = Inr ([[0, - 4], [4, 4]], ob4)"
  by (simp add: block_eval numeral_2_eq_2 bare_c0 bare_c1)

lemma bare_scan_2:
  "scan (sparse_env None) 2 ([[1, 0], [4, 4]], ob4) = Inr ([[0, - 4], [4, 4]], ob4)"
  by (simp add: scan_def num_blocks_def bare_b2)

lemma bare_c0':
  "column_step (sparse_env None) 0 (Suc 0) [[1, 0], [4, 4]] 0
     ([[1], [4]], [[0], [0]], [[0], [0]], ob4)
   = Inr ([[0], [4]], [[0], [4]], [[1], [0]], ob4)"
  by (simp add: column_eval quantize_column_def tensor_args_def ob4_def)

lemma bare_c1':
  "column_step (sparse_env None) (Suc 0) (Suc 0) [[0, - 3], [4, 4]] 0
     ([[- 3], [4]], [[0], [0]], [[0], [0]], ob4)
   = Inr ([[- 4], [4]], [[- 4], [4]], [[1 / 4], [0]], ob4)"
  by (simp add: column_eval quantize_column_def tensor_args_def ob4_def)

lemma bare_b0:
  "block_step (sparse_env None) (Suc 0) 0 ([[1, 0], [4, 4]], ob4)
   = Inr ([[0, - 3], [4, 4]], ob4)"
  by (simp add: block_eval bare_c0')

lemma bare_b1:
  "block_step (sparse_env None) (Suc 0) (Suc 0) ([[0, - 3], [4, 4]], ob4)
   = Inr ([[0, - 4], [4, 4]], ob4)"
  by (simp add: block_eval bare_c1')

lemma bare_scan_1:
  "scan (sparse_env None) 1 ([[1, 0], [4, 4]], ob4) = Inr ([[0, - 4], [4, 4]], ob4)"
  by (simp add: scan_def num_blocks_def for_range_2 bare_b0 bare_b1)


lemma commit_weight_square:
  "weight (commit (linear_layer w qa) 2 2 [[x, y], [u, v]] obs) = [[x, y], [u, v]]"
  by (simp add: commit_def unstandardize_def mk_mat_def upt_2)

lemma sparse_session_sel [simp]:
  "layer sparse_session = linear_layer [[1, 0], [4, 4]] (Some tensor_args)"
  "rows sparse_session = 2" "columns sparse_session = 2"
  "H sparse_session = Some steep_hessian"
  by (simp_all add: sparse_session_def)

lemma sparse_prepare:
  "prepare absmax_ext tensor_args (rows sparse_session) (columns sparse_session)
     (standardize (kind (layer sparse_session)) (rows sparse_session) (columns sparse_session)
        (weight (layer sparse_session))) (H sparse_session)
   = Inr ([[1, 0], [4, 4]], Some steep_hessian, [], None, ob4)"
proof -
  have ng: "strategy tensor_args \<noteq> GROUP" by (simp add: tensor_args_def)
  have "absmax_table tensor_args 2 2 [[1, 0], [4, 4]] = [[4]]"
    by (simp add: absmax_table_def tensor_args_def absmax_def)
  then show ?thesis
    by (simp add: standardize_def prepare_not_GROUP[OF ng] ob4_def)
qed

lemma sparse_preserve: "preserve_zeros absmax_ext [[1, 0], [4, 4]]"
  by (simp add: preserve_zeros_def tensor_sparsity_def)

lemma sparse_mask: "W_nz_mask absmax_ext 2 2 [[1, 0], [4, 4]] = Some [[1, 0], [1, 1]]"
  by (simp add: W_nz_mask_def sparse_preserve mk_mat_def upt_2 isclose_def)

lemma sparse_compress:
  assumes "bs \<noteq> 0"
    and "scan (sparse_env (Some [[1, 0], [1, 1]])) bs ([[1, 0], [4, 4]], ob4) = Inr (Wq, obs')"
  shows "compress absmax_ext sparse_session bs 0
         = (Done, sparse_session\<lparr>H := Some [[1, 3], [0, 4]],
              layer := commit (linear_layer [[1, 0], [4, 4]] (Some tensor_args)) 2 2 Wq obs'\<rparr>)"
proof -
  let ?s = sparse_session
  have ng: "strategy tensor_args \<noteq> GROUP" by (simp add: tensor_args_def)
  have p1: "quantization_scheme_weights (layer ?s) = Some tensor_args" by simp
  note p2 = sparse_prepare
  have p3: "factorize (columns ?s) (damped (columns ?s) 0 (dead_H (columns ?s) steep_hessian))
            = Inr [[1, 3], [0, 4]]"
    by (simp add: steep_factor)
  have d: "dead_W 2 2 steep_hessian [[1, 0], [4, 4]] = [[1, 0], [4, 4]]"
    by (simp add: dead_W_def steep_hessian_def mk_mat_def upt_2)
  have p5: "scan \<lparr>env_ext = absmax_ext, env_args = tensor_args, env_g_idx = [],
                env_rows = rows ?s, env_columns = columns ?s, env_Hinv = [[1, 3], [0, 4]],
                env_mask = W_nz_mask absmax_ext (rows ?s) (columns ?s) [[1, 0], [4, 4]]\<rparr> bs
           (dead_W (rows ?s) (columns ?s) steep_hessian [[1, 0], [4, 4]], ob4) = Inr (Wq, obs')"
    using assms(2) by (simp add: sparse_mask d sparse_env_def)
  have p6: "restore_order tensor_args (rows ?s) [] None Wq (layer ?s)
            = (Wq, linear_layer [[1, 0], [4, 4]] (Some tensor_args))"
    by (simp add: restore_order_def ng)
  show ?thesis using compress_DoneI[OF p1 p2 p3 assms(1) p5 p6] by simp
qed

lemmas sparse_compress_2 = sparse_compress[of 2, OF _ sparse_scan_2, simplified]
lemmas sparse_compress_1 = sparse_compress[of 1, OF _ sparse_scan_1, simplified]

text \<open>The layer with a dead column.\<close>

lemma dead_env_sel [simp]:
  "env_ext dead_env = absmax_ext" "env_args dead_env = tensor_args"
  "env_g_idx dead_env = []" "env_rows dead_env = Suc 0"
  "env_columns dead_env = 2"
  "env_Hinv dead_env = [[1 / 2, 0], [0, 1]]"
  "env_mask dead_env = None"
  by (simp_all add: dead_env_def)





lemma dead_session_sel [simp]:
  "layer dead_session = linear_layer [[3, 4]] (Some tensor_args)"
  "rows dead_session = Suc 0" "columns dead_session = 2"
  "H dead_session = Some dead_hessian"
  by (simp_all add: dead_session_def)






section \<open>Sparsity preservation\<close>

lemma isclose_zero [simp]: "isclose 0 0"
  by (simp add: isclose_def)

text \<open>
  C8.  When the mask of lines 160-166 is active (the sparsity of the prepared \<open>W\<close> is at
  least \<open>SPARSITY_THRESHOLD\<close>) and \<open>compress\<close> returns, every entry of the layer's weight
  that was zero before the call is zero after it, whatever the block size, the strategy
  and the activation ordering.  The error terms inside a block (line 281) and across
  blocks (line 293) are multiplied by the mask, which is zero at such an entry; the
  quantised value written back (line 277) is the external \<open>fake_quantize\<close> of the
  unchanged entry 0, which is 0 for a quantiser whose grid contains zero
  (\<open>zero_preserving\<close>).  In the witness the weight is \<open>[[1, 0], [4, 4]]\<close> with the
  mask \<open>[[1, 0], [1, 1]]\<close>: the entry 1 is quantised to 0 and its error, times
  \<open>Hinv[0, 1] = 3\<close>, is sent to the zero entry, inside the block for a block size of 2
  and across the blocks for a block size of 1.  With the mask the result is
  \<open>[[0, 0], [4, 4]]\<close>; the same scan without the mask gives \<open>[[0, -4], [4, 4]]\<close>.
\<close>

theorem sparsity_preserved:
  assumes zp: "zero_preserving ext" and act: "mask_active ext s"
    and dn: "fst (compress ext s blocksize percdamp) = Done"
    and a: "a < rows s" and b: "b < columns s"
    and zero: "weight_entry (layer s) a b = 0"
  shows "weight_entry (layer (snd (compress ext s blocksize percdamp))) a b = 0"
proof -
  from act obtain args where args: "quantization_scheme_weights (layer s) = Some args"
    by (auto simp: mask_active_def split: option.splits)
  from dn args obtain A0 W A g_idx invperm obs Hinv Wq obs' where
    H': "H s = Some A0"
    and p: "prepare ext args (rows s) (columns s)
           (standardize (kind (layer s)) (rows s) (columns s) (weight (layer s))) (H s)
         = Inr (W, Some A, g_idx, invperm, obs)"
    and pos: "\<And>b. b < columns s \<Longrightarrow> scan_position args (columns s) A0 b < columns s"
    and sur: "\<And>k. k < columns s \<Longrightarrow> \<exists>b<columns s. scan_position args (columns s) A0 b = k"
    and W: "\<And>a b. a < rows s \<Longrightarrow> b < columns s \<Longrightarrow>
           W ! a ! scan_position args (columns s) A0 b = weight_entry (layer s) a b"
    and A: "\<And>x y. x < columns s \<Longrightarrow> y < columns s \<Longrightarrow>
           A ! scan_position args (columns s) A0 x ! scan_position args (columns s) A0 y
           = A0 ! x ! y"
    and f: "factorize (columns s) (damped (columns s) percdamp (dead_H (columns s) A)) = Inr Hinv"
    and sc: "scan \<lparr>env_ext = ext, env_args = args, env_g_idx = g_idx, env_rows = rows s,
                env_columns = columns s, env_Hinv = Hinv,
                env_mask = W_nz_mask ext (rows s) (columns s) W\<rparr> blocksize
           (dead_W (rows s) (columns s) A W, obs) = Inr (Wq, obs')"
    and Hfin: "H (snd (compress ext s blocksize percdamp)) = Some Hinv"
    and fin: "\<And>a b. a < rows s \<Longrightarrow> b < columns s \<Longrightarrow>
           weight_entry (layer (snd (compress ext s blocksize percdamp))) a b
           = Wq ! a ! scan_position args (columns s) A0 b"
    by (rule compress_frame) blast
  let ?p = "scan_position args (columns s) A0 b"
  let ?env = "\<lparr>env_ext = ext, env_args = args, env_g_idx = g_idx, env_rows = rows s,
                env_columns = columns s, env_Hinv = Hinv,
                env_mask = W_nz_mask ext (rows s) (columns s) W\<rparr>"
  have pz: "preserve_zeros ext W" using act by (simp add: mask_active_def args p)
  have Wz: "W ! a ! ?p = 0" using W[OF a b] zero by simp
  have "shielded ?env a ?p"
    using pz Wz a pos[OF b] by (simp add: shielded_def W_nz_mask_def)
  moreover have "dead_W (rows s) (columns s) A W ! a ! ?p = 0"
    using Wz a pos[OF b] by (simp add: dead_W_def)
  ultimately have "Wq ! a ! ?p = 0"
    using scan_zero[of ?env a ?p blocksize _ obs Wq obs'] zp a pos[OF b] sc by simp
  then show ?thesis using fin[OF a b] by simp
qed

theorem sparsity_preserved_witness:
  "zero_preserving absmax_ext \<and> mask_active absmax_ext sparse_session \<and>
   weight (layer sparse_session) = [[1, 0], [4, 4]] \<and>
   W_nz_mask absmax_ext 2 2 [[1, 0], [4, 4]] = Some [[1, 0], [1, 1]] \<and>
   0 < rows sparse_session \<and> 1 < columns sparse_session \<and>
   weight_entry (layer sparse_session) 0 1 = 0 \<and>
   fst (compress absmax_ext sparse_session 2 0) = Done \<and>
   weight_entry (layer (snd (compress absmax_ext sparse_session 2 0))) 0 1 = 0 \<and>
   weight (layer (snd (compress absmax_ext sparse_session 2 0))) = [[0, 0], [4, 4]] \<and>
   fst (compress absmax_ext sparse_session 1 0) = Done \<and>
   weight_entry (layer (snd (compress absmax_ext sparse_session 1 0))) 0 1 = 0 \<and>
   weight (layer (snd (compress absmax_ext sparse_session 1 0))) = [[0, 0], [4, 4]] \<and>
   scan (sparse_env None) 2 ([[1, 0], [4, 4]], ob4) = Inr ([[0, - 4], [4, 4]], ob4) \<and>
   scan (sparse_env None) 1 ([[1, 0], [4, 4]], ob4) = Inr ([[0, - 4], [4, 4]], ob4)"
proof -
  have h1: "zero_preserving absmax_ext" by (rule zero_preserving_absmax_ext)
  have h2: "mask_active absmax_ext sparse_session"
    by (simp add: mask_active_def sparse_prepare[simplified] sparse_preserve)
  have w: "weight (layer sparse_session) = [[1, 0], [4, 4]]" by simp
  have h4: "0 < rows sparse_session" "1 < columns sparse_session" by simp_all
  have h5: "weight_entry (layer sparse_session) 0 1 = 0" by (simp add: weight_entry_def)
  have d2: "fst (compress absmax_ext sparse_session 2 0) = Done"
    by (simp add: sparse_compress_2)
  have d1: "fst (compress absmax_ext sparse_session 1 0) = Done"
    by (simp add: sparse_compress_1)
  have w2: "weight (layer (snd (compress absmax_ext sparse_session 2 0))) = [[0, 0], [4, 4]]"
    by (simp add: sparse_compress_2 commit_weight_square)
  have w1: "weight (layer (snd (compress absmax_ext sparse_session 1 0))) = [[0, 0], [4, 4]]"
    by (simp add: sparse_compress_1 commit_weight_square)
  note c2 = sparsity_preserved[OF h1 h2 d2 h4 h5]
  note c1 = sparsity_preserved[OF h1 h2 d1 h4 h5]
  show ?thesis
    using h1 h2 w sparse_mask h4 h5 d2 c2 w2 d1 c1 w1 bare_scan_2 bare_scan_1 by blast
qed


section \<open>Dead columns\<close>



end
